(* ===== verification/Edgesec_Prelude.thy ===== *)
theory Edgesec_Prelude
  imports Main "HOL-Library.Word" "HOL-Library.AList" "HOL-Library.Sublist"
begin

text \<open>
  Shared vocabulary of the development: machine integers, byte strings, the parts of the
  C library that the sources call (character classes, \<open>strtoul\<close>, \<open>strtol\<close>,
  \<open>strstr\<close>, the \<open>printf\<close> conversions), the collections of rewrite rules the
  component theories add to, and generic lemmas on lists and association lists.

  A C string is a \<^typ>\<open>string\<close> without its terminating NUL.  A fixed-size array of
  \<open>char\<close> that the code uses as a string is a \<^typ>\<open>string\<close> too; what the array's size
  does to it is written out at each copy.  A \<open>uint8_t\<close> buffer is a list of
  8 bit words.  A \<open>uthash\<close> table is an association list in the order in which its
  keys were first added, which is the order \<open>HASH_ITER\<close> visits them in.
\<close>

type_synonym u8 = "8 word"
type_synonym u16 = "16 word"
type_synonym u32 = "32 word"
type_synonym u64 = "64 word"
type_synonym bytes = "u8 list"

text \<open>A MAC address, \<open>uint8_t[ETHER_ADDR_LEN]\<close>.\<close>

type_synonym mac = "u8 list"

named_theorems edgesec_defs \<open>definitions the component proofs unfold\<close>
named_theorems frame_simps \<open>what an operation leaves unchanged\<close>
named_theorems ret_simps \<open>return codes of an operation\<close>

section \<open>Characters\<close>

abbreviation ord :: "char \<Rightarrow> nat" where
  "ord c \<equiv> of_char c"

lemma ord_less_256 [simp]: "ord c < 256"
  using of_char_mod_256 [of c, where ?'a = nat] by (metis mod_less_divisor zero_less_numeral)

definition c_isdigit :: "char \<Rightarrow> bool" where
  "c_isdigit c \<longleftrightarrow> 48 \<le> ord c \<and> ord c \<le> 57"

definition c_isspace :: "char \<Rightarrow> bool" where
  "c_isspace c \<longleftrightarrow> ord c = 32 \<or> (9 \<le> ord c \<and> ord c \<le> 13)"

section \<open>Decimal and hexadecimal text\<close>

text \<open>The value of a run of decimal digits, most significant first.\<close>

definition digits_val :: "string \<Rightarrow> nat" where
  "digits_val s = foldl (\<lambda>a c. 10 * a + (ord c - 48)) 0 s"

text \<open>Conversion \<open>%d\<close> and \<open>%ld\<close> of \<open>printf\<close>.\<close>

fun show_nat :: "nat \<Rightarrow> string" where
  "show_nat n = (if n < 10 then [char_of (48 + n)]
                 else show_nat (n div 10) @ [char_of (48 + n mod 10)])"

declare show_nat.simps [simp del]

definition show_int :: "int \<Rightarrow> string" where
  "show_int i = (if i < 0 then CHR ''-'' # show_nat (nat (- i)) else show_nat (nat i))"

definition hex_digit :: "nat \<Rightarrow> char" where
  "hex_digit n = (if n < 10 then char_of (48 + n) else char_of (87 + n))"

text \<open>Conversion \<open>%02x\<close> of an unsigned byte.\<close>

definition show_02x :: "u8 \<Rightarrow> string" where
  "show_02x b = [hex_digit (unat b div 16), hex_digit (unat b mod 16)]"

lemma ord_char_of [simp]: "n < 256 \<Longrightarrow> ord (char_of n) = n"
  by simp

lemma show_nat_digits: "list_all c_isdigit (show_nat n)"
proof (induction n rule: show_nat.induct)
  case (1 n)
  have d: "c_isdigit (char_of (48 + m mod 10))" for m :: nat
    by (simp add: c_isdigit_def)
  show ?case
  proof (cases "n < 10")
    case True
    then show ?thesis
      using d [of n] by (subst show_nat.simps) simp
  next
    case False
    then show ?thesis
      using "1.IH" d by (subst show_nat.simps) simp
  qed
qed

lemma show_nat_nonempty [simp]: "show_nat n \<noteq> []"
  by (subst show_nat.simps) simp

lemma digits_val_snoc: "digits_val (s @ [c]) = 10 * digits_val s + (ord c - 48)"
  by (simp add: digits_val_def)

text \<open>Printing a number and reading its digits back gives the number.\<close>

lemma digits_val_show_nat: "digits_val (show_nat n) = n"
proof (induction n rule: show_nat.induct)
  case (1 n)
  show ?case
  proof (cases "n < 10")
    case True
    then show ?thesis
      by (subst show_nat.simps) (simp add: digits_val_def)
  next
    case False
    with "1.IH" show ?thesis
      by (subst show_nat.simps) (simp add: digits_val_snoc)
  qed
qed

section \<open>Numbers from strings\<close>

text \<open>
  \<open>strtoul(s, &end, 10)\<close> and \<open>strtol(s, &end, 10)\<close> skip white space, take an
  optional sign and then the longest run of digits.  \<open>strto_parts\<close> gives the sign, the
  digits, and what the end pointer points at; with no digits the end pointer is the start.
\<close>

definition strto_parts :: "string \<Rightarrow> bool \<times> string \<times> string" where
  "strto_parts s =
     (let t = dropWhile c_isspace s;
          neg = (case t of c # _ \<Rightarrow> c = CHR ''-'' | [] \<Rightarrow> False);
          u = (case t of c # r \<Rightarrow> if c = CHR ''-'' \<or> c = CHR ''+'' then r else t | [] \<Rightarrow> t);
          ds = takeWhile c_isdigit u
      in (neg, ds, if ds = [] then s else dropWhile c_isdigit u))"

text \<open>
  The result and whether \<open>errno\<close> is set to \<open>ERANGE\<close>; \<open>unsigned long\<close> and
  \<open>long\<close> have 64 bits.
\<close>

definition strtoul10 :: "string \<Rightarrow> u64 \<times> bool" where
  "strtoul10 s =
     (case strto_parts s of (neg, ds, _) \<Rightarrow>
        if 2 ^ 64 \<le> digits_val ds then (- 1, True)
        else (if neg then - of_nat (digits_val ds) else of_nat (digits_val ds), False))"

definition strtol10 :: "string \<Rightarrow> int \<times> bool \<times> string" where
  "strtol10 s =
     (case strto_parts s of (neg, ds, rest) \<Rightarrow>
        (let v = (if neg then - int (digits_val ds) else int (digits_val ds))
         in if v < - (2 ^ 63) then (- (2 ^ 63), True, rest)
            else if 2 ^ 63 \<le> v then (2 ^ 63 - 1, True, rest)
            else (v, False, rest)))"

text \<open>A cast to a 32 bit \<open>int\<close>.\<close>

definition to_int32 :: "u64 \<Rightarrow> int" where
  "to_int32 w = sint (ucast w :: u32)"

lemma strtol10_show_nat:
  assumes "n < 2 ^ 63"
  shows "strtol10 (show_nat n) = (int n, False, [])"
proof -
  have all: "\<forall>c \<in> set (show_nat n). c_isdigit c"
    using show_nat_digits [of n] by (simp add: list_all_iff)
  obtain c cs where c: "show_nat n = c # cs"
    by (meson neq_Nil_conv show_nat_nonempty)
  then have dc: "c_isdigit c"
    using all by simp
  have "\<not> c_isspace c" "c \<noteq> CHR ''-''" "c \<noteq> CHR ''+''"
    using dc by (auto simp: c_isdigit_def c_isspace_def)
  then have "strto_parts (show_nat n) = (False, show_nat n, [])"
    using all c by (simp add: strto_parts_def Let_def takeWhile_eq_all_conv dropWhile_eq_Nil_conv)
  then show ?thesis
    using assms by (simp add: strtol10_def digits_val_show_nat Let_def)
qed

lemma length_show_nat: "n < 10 ^ Suc k \<Longrightarrow> length (show_nat n) \<le> Suc k"
proof (induction k arbitrary: n)
  case 0
  then show ?case
    by (subst show_nat.simps) simp
next
  case (Suc k)
  then have "n div 10 < 10 ^ Suc k"
    by (simp add: less_mult_imp_div_less)
  from Suc.IH [OF this] show ?case
    by (subst show_nat.simps) simp
qed

lemma length_show_nat_ge: "10 ^ k \<le> n \<Longrightarrow> Suc k \<le> length (show_nat n)"
proof (induction k arbitrary: n)
  case (Suc k)
  have "(10 :: nat) * 1 \<le> 10 * 10 ^ k"
    by (intro mult_le_mono) simp_all
  with Suc.prems have "\<not> n < 10"
    by (simp only: power_Suc)
  moreover from Suc.prems have "10 ^ k \<le> n div 10"
    using div_le_mono [of "10 * 10 ^ k" n 10] by simp
  ultimately show ?case
    using Suc.IH [of "n div 10"]
    by (subst show_nat.simps) simp
qed (simp add: Suc_leI)

section \<open>Words\<close>

lemma unat_u8_less [simp]: "unat (b :: u8) < 256"
  using unsigned_less [of b, where ?'a = nat] by simp

lemma unat_u16_less [simp]: "unat (b :: u16) < 65536"
  using unsigned_less [of b, where ?'a = nat] by simp

lemma word_xor_eq_0: "xor a b = (0 :: 'a :: len word) \<longleftrightarrow> a = b"
  by (metis xor.assoc xor.left_neutral xor_self_eq)

section \<open>Searching strings\<close>

text \<open>\<open>strstr\<close>: the part before the first occurrence and the part that starts with it.\<close>

fun strstr :: "string \<Rightarrow> string \<Rightarrow> (string \<times> string) option" where
  "strstr [] pat = (if pat = [] then Some ([], []) else None)"
| "strstr (c # cs) pat =
     (if prefix pat (c # cs) then Some ([], c # cs)
      else map_option (\<lambda>(p, q). (c # p, q)) (strstr cs pat))"

lemma strstr_Some: "strstr s pat = Some (p, q) \<Longrightarrow> s = p @ q \<and> prefix pat q"
  by (induction s arbitrary: p) (auto split: if_splits)

lemma strstr_None: "strstr s pat = None \<Longrightarrow> s \<noteq> u @ pat @ v"
proof (induction s arbitrary: u)
  case Nil
  then show ?case by (auto split: if_splits)
next
  case (Cons c cs)
  from Cons.prems have np: "\<not> prefix pat (c # cs)" and rest: "strstr cs pat = None"
    by (auto split: if_splits)
  show ?case
  proof (cases u)
    case Nil
    with np show ?thesis by (auto simp: prefix_def)
  next
    case (Cons d ds)
    with Cons.IH [OF rest, of ds] show ?thesis by simp
  qed
qed

section \<open>Lists and association lists\<close>

text \<open>The last element of a list that satisfies a test, as a loop that overwrites its result.\<close>

definition find_last :: "('a \<Rightarrow> bool) \<Rightarrow> 'a list \<Rightarrow> 'a option" where
  "find_last P xs = foldl (\<lambda>r x. if P x then Some x else r) None xs"

lemma find_last_Nil [simp]: "find_last P [] = None"
  by (simp add: find_last_def)

lemma find_last_snoc [simp]:
  "find_last P (xs @ [x]) = (if P x then Some x else find_last P xs)"
  by (simp add: find_last_def)

lemma find_last_None_iff: "find_last P xs = None \<longleftrightarrow> (\<forall>x \<in> set xs. \<not> P x)"
  by (induction xs rule: rev_induct) auto

lemma find_last_Some: "find_last P xs = Some x \<Longrightarrow> x \<in> set xs \<and> P x"
  by (induction xs rule: rev_induct) (auto split: if_splits)

lemma find_last_unique:
  assumes "x \<in> set xs" and "P x" and "\<And>y. y \<in> set xs \<Longrightarrow> P y \<Longrightarrow> y = x"
  shows "find_last P xs = Some x"
  using assms find_last_None_iff find_last_Some by (metis option.exhaust)

lemma find_append: "find P (xs @ ys) = (case find P xs of None \<Rightarrow> find P ys | Some x \<Rightarrow> Some x)"
  by (induction xs) auto

lemma find_SomeD: "find P xs = Some x \<Longrightarrow> x \<in> set xs \<and> P x"
  by (induction xs) (auto split: if_splits)

lemma map_of_update: "map_of (AList.update k v al) = (map_of al)(k \<mapsto> v)"
  by (rule update_conv')

lemma map_of_filter_key:
  "map_of (filter (\<lambda>p. P (fst p)) al) k = (if P k then map_of al k else None)"
  by (induction al) auto

end
