(* ===== verification/Os_Env.thy ===== *)
theory Os_Env
  imports Edgesec_Prelude
begin

text \<open>
  The world outside the sources: the C heap, the kernel, the programs the router runs, the
  peers it talks to and SQLite.  Every call that leaves the modelled code is an \<open>effect\<close>
  that is put in front of a history, and its outcome is a function of the history that ends
  with it, supplied by the parameter \<open>env\<close>.  An \<open>env\<close> is therefore an arbitrary
  deterministic environment: it may fail any call at any moment, and two calls with the same
  text may have different outcomes.  \<open>env_recv\<close> gives the datagram \<open>recvfrom\<close> takes from a
  socket and its sender.

  Undefined behaviour that the code can reach (a write past a buffer, a second \<open>free\<close>, a
  read through a dangling pointer) is not given a meaning; it is recorded in the history as
  \<open>E_ub\<close>, and the model goes on with a value chosen by the environment or, for an overrun,
  as if the bytes past the end were harmless.  A call of \<open>abort\<close> is recorded as \<open>E_abort\<close>; what
  the model does after it has no meaning.
\<close>

section \<open>Peers on sockets (utils/sockctl.h)\<close>

datatype SOCKET_TYPE = SOCKET_TYPE_NONE | SOCKET_TYPE_DOMAIN | SOCKET_TYPE_UDP

text \<open>
  \<open>sun_path\<close> holds the bytes of the structure from \<open>caddr.addr_un.sun_path\<close> on.
\<close>

record client_address =
  sun_path :: bytes
  sin_port :: u16
  sin_addr :: u32
  ca_len :: int
  ca_type :: SOCKET_TYPE

section \<open>Effects and their outcomes\<close>

datatype ub = Stack_Overrun | Heap_Overrun | Double_Free | Use_After_Free | Over_Read | Null_Deref
  | Uninit_Read

datatype sql_value = SqlText string | SqlInt int | SqlNull

datatype effect =
    E_malloc
  | E_command "string list" \<comment> \<open>\<open>run_command\<close> of an argument vector\<close>
  | E_sendto int string client_address
  | E_socket \<comment> \<open>a new client socket, bound to a name of its own\<close>
  | E_select int
  | E_fionread int
  | E_recv int nat
  | E_close int
  | E_sql_prepare string
  | E_sql_bind string sql_value
  | E_sql_step
  | E_uuid
  | E_random nat
  | E_time
  | E_timeout nat
  | E_read_file string
  | E_write_file string string
  | E_remove string
  | E_thread string
  | E_abort
  | E_ub ub

type_synonym hist = "effect list"

text \<open>
  What \<open>run_command\<close> of utils/os.c sees of the operating system: whether the program file
  exists, whether \<open>pipe\<close>, \<open>fork\<close>, \<open>close\<close> and \<open>waitpid\<close> work, the chunks that \<open>read\<close> returns
  from the pipe, and how the child ended.
\<close>

record proc_outcome =
  po_file_exists :: bool
  po_pipe_ok :: bool
  po_fork_ok :: bool
  po_close_write_ok :: bool
  po_chunks :: "string list"
  po_wait_error :: bool
  po_close_read_ok :: bool
  po_exited :: bool
  po_exit_status :: int
  po_wait_status :: int

record env =
  env_malloc :: "hist \<Rightarrow> bool"
  env_command :: "hist \<Rightarrow> proc_outcome"
  env_sendto :: "hist \<Rightarrow> int"
  env_ntop :: "hist \<Rightarrow> bool"
  env_socket :: "hist \<Rightarrow> int"
  env_select :: "hist \<Rightarrow> int \<times> bool"
  env_fionread :: "hist \<Rightarrow> nat option"
  env_recv :: "hist \<Rightarrow> (string \<times> client_address) option"
  env_sql :: "hist \<Rightarrow> bool"
  env_uuid :: "hist \<Rightarrow> string"
  env_random :: "hist \<Rightarrow> bytes option"
  env_time :: "hist \<Rightarrow> (int \<times> int) option"
  env_timeout :: "hist \<Rightarrow> bool"
  env_read_file :: "hist \<Rightarrow> string option"
  env_write_file :: "hist \<Rightarrow> bool"
  env_thread :: "hist \<Rightarrow> u64 option"

definition os_malloc :: "env \<Rightarrow> hist \<Rightarrow> bool \<times> hist" where
  "os_malloc env h = (let h' = E_malloc # h in (env_malloc env h', h'))"

lemma os_malloc_hist [simp]: "snd (os_malloc env h) = E_malloc # h"
  by (simp add: os_malloc_def Let_def)

text \<open>An environment in which allocation never fails.\<close>

definition alloc_total :: "env \<Rightarrow> bool" where
  "alloc_total env \<longleftrightarrow> env_malloc env = (\<lambda>_. True)"

lemma os_malloc_total: "alloc_total env \<Longrightarrow> os_malloc env h = (True, E_malloc # h)"
  by (simp add: os_malloc_def alloc_total_def Let_def)

text \<open>An environment in which SQLite never fails.\<close>

definition sql_total :: "env \<Rightarrow> bool" where
  "sql_total env \<longleftrightarrow> env_sql env = (\<lambda>_. True)"

section \<open>An environment in which everything works\<close>

text \<open>
  A concrete environment, used where a statement about environments is applied: allocation,
  SQLite, threads and timers succeed, programs exit with status 0 and print nothing, the peer a
  message went to last answers OK, files are empty.
\<close>

definition quiet_proc :: proc_outcome where
  "quiet_proc = \<lparr>po_file_exists = True, po_pipe_ok = True, po_fork_ok = True,
     po_close_write_ok = True, po_chunks = [], po_wait_error = False, po_close_read_ok = True,
     po_exited = True, po_exit_status = 0, po_wait_status = 0\<rparr>"

fun last_dest :: "hist \<Rightarrow> client_address option" where
  "last_dest [] = None"
| "last_dest (e # h) = (case e of E_sendto _ _ a \<Rightarrow> Some a | _ \<Rightarrow> last_dest h)"

definition ideal_env :: env where
  "ideal_env =
     \<lparr>env_malloc = (\<lambda>_. True),
      env_command = (\<lambda>_. quiet_proc),
      env_sendto = (\<lambda>h. case h of E_sendto _ data _ # _ \<Rightarrow> int (length data) | _ \<Rightarrow> 0),
      env_ntop = (\<lambda>_. True),
      env_socket = (\<lambda>_. 9),
      env_select = (\<lambda>_. (1, True)),
      env_fionread = (\<lambda>_. Some 3),
      env_recv = (\<lambda>h. map_option (\<lambda>a. (''OK'' @ [CHR 0x0A], a)) (last_dest h)),
      env_sql = (\<lambda>_. True),
      env_uuid = (\<lambda>_. ''11111111-2222-3333-4444-555555555555''),
      env_random = (\<lambda>h. case h of E_random n # _ \<Rightarrow> Some (replicate n 7) | _ \<Rightarrow> None),
      env_time = (\<lambda>h. Some (int (length h), 0)),
      env_timeout = (\<lambda>_. True),
      env_read_file = (\<lambda>_. Some []),
      env_write_file = (\<lambda>_. True),
      env_thread = (\<lambda>_. Some 1)\<rparr>"

lemma ideal_alloc: "alloc_total ideal_env"
  by (simp add: alloc_total_def ideal_env_def)

section \<open>Histories only grow\<close>

text \<open>
  What was recorded before an operation is still there afterwards.
\<close>

definition extends :: "hist \<Rightarrow> hist \<Rightarrow> bool" where
  "extends h' h \<longleftrightarrow> suffix h h'"

lemma extends_refl [simp, intro]: "extends h h"
  by (simp add: extends_def)

lemma extends_trans [trans]: "extends h3 h2 \<Longrightarrow> extends h2 h1 \<Longrightarrow> extends h3 h1"
  by (auto simp: extends_def intro: suffix_order.trans)

lemma extends_Cons [simp, intro]: "extends h' h \<Longrightarrow> extends (e # h') h"
  by (auto simp: extends_def intro: suffix_ConsI)

lemma extends_set: "extends h' h \<Longrightarrow> set h \<subseteq> set h'"
  by (auto simp: extends_def suffix_def)

lemma extends_append [simp]: "extends (xs @ h) h"
  by (auto simp: extends_def suffix_def)

lemma extends_ConsD [dest]: "extends h' (e # h) \<Longrightarrow> extends h' h"
  by (auto simp: extends_def dest: suffix_ConsD)

section \<open>Operations that send nothing\<close>

definition quiet :: "hist \<Rightarrow> hist \<Rightarrow> bool" where
  "quiet h h' \<longleftrightarrow> (\<exists>hs. h' = hs @ h \<and> (\<forall>s d a. E_sendto s d a \<notin> set hs))"

named_theorems quiet_ops \<open>operations that send nothing\<close>

lemma quiet_refl [simp, intro]: "quiet h h"
  by (simp add: quiet_def)

lemma quiet_trans [trans]: "quiet h1 h2 \<Longrightarrow> quiet h2 h3 \<Longrightarrow> quiet h1 h3"
  by (force simp: quiet_def)

lemma quiet_Cons [simp, intro]: "quiet h h' \<Longrightarrow> (\<And>s d a. e \<noteq> E_sendto s d a) \<Longrightarrow> quiet h (e # h')"
  by (force simp: quiet_def intro: exI [of _ "e # _"])

lemma quiet_malloc: "quiet h (replicate n E_malloc @ h)"
  by (induction n) auto

lemma os_malloc_quiet [quiet_ops]: "os_malloc env h = (ok, h') \<Longrightarrow> quiet h h'"
  by (auto simp: os_malloc_def Let_def)


section \<open>Queues on the heap\<close>

text \<open>
  What the queues of the capture middlewares promise: an element is added behind the others, or the
  queue stays as it is because memory is missing.  \<open>kept\<close> is what the queue holds of an element.
\<close>

locale alloc_queue =
  fixes push :: "env \<Rightarrow> 'a list \<Rightarrow> 'x \<Rightarrow> hist \<Rightarrow> bool \<times> 'a list \<times> hist"
    and kept :: "'x \<Rightarrow> 'a"
  assumes push_result: "push env q x h = (ok, q', h') \<Longrightarrow> q' = (if ok then q @ [kept x] else q)"
    and push_total: "alloc_total env \<Longrightarrow> fst (push env q x h)"
begin

primrec push_each :: "env \<Rightarrow> 'x list \<Rightarrow> 'a list \<Rightarrow> hist \<Rightarrow> 'a list \<times> hist" where
  "push_each env [] q h = (q, h)"
| "push_each env (x # xs) q h = (let (ok, q, h) = push env q x h in push_each env xs q h)"

text \<open>The order is kept, whatever is lost.\<close>

lemma push_each_subseq: "\<exists>ys. fst (push_each env xs q h) = q @ ys \<and> subseq ys (map kept xs)"
proof (induction xs arbitrary: q h)
  case (Cons x xs)
  obtain ok q' h' where p: "push env q x h = (ok, q', h')"
    by (metis prod_cases3)
  obtain ys where ys: "fst (push_each env xs q' h') = q' @ ys" "subseq ys (map kept xs)"
    using Cons.IH by blast
  show ?case
    using ys push_result [OF p] by (intro exI [of _ "(if ok then [kept x] else []) @ ys"]) (auto simp: p)
qed simp

lemma push_each_total: "alloc_total env \<Longrightarrow> fst (push_each env xs q h) = q @ map kept xs"
proof (induction xs arbitrary: q h)
  case (Cons x xs)
  obtain ok q' h' where p: "push env q x h = (ok, q', h')"
    by (metis prod_cases3)
  then have "q' = q @ [kept x]"
    using push_total [OF Cons.prems, of q x h] push_result [OF p] by simp
  then show ?case
    using Cons by (simp add: p)
qed simp

end

end
