(* ===== verification/Os_Utils.thy ===== *)
theory Os_Utils
  imports Os_Env
begin

text \<open>
  The string, number and process helpers of utils/os.c that the rest of the router is built
  on.  Operations that allocate thread the history; the others are plain functions.
\<close>

section \<open>Numbers and hexadecimal text\<close>

definition MAX_64BIT_DIGITS :: nat where
  "MAX_64BIT_DIGITS = 19"

definition is_number :: "string \<Rightarrow> bool" where
  "is_number ptr =
     (let offset = (if ptr \<noteq> [] \<and> (hd ptr = CHR ''-'' \<or> hd ptr = CHR ''+'') then 1 else 0)
      in if ptr \<noteq> [] \<and> offset = 1 \<and> length ptr = 1 then False
         else if \<not> list_all c_isdigit (drop offset (take MAX_64BIT_DIGITS ptr)) then False
         else ptr \<noteq> [])"

definition hex2num :: "char \<Rightarrow> int" where
  "hex2num c =
     (if ord CHR ''0'' \<le> ord c \<and> ord c \<le> ord CHR ''9'' then int (ord c) - 48
      else if ord CHR ''a'' \<le> ord c \<and> ord c \<le> ord CHR ''f'' then int (ord c) - 97 + 10
      else if ord CHR ''A'' \<le> ord c \<and> ord c \<le> ord CHR ''F'' then int (ord c) - 65 + 10
      else - 1)"

text \<open>The character a pointer into a C string reads: NUL at its end.\<close>

definition c_at :: "string \<Rightarrow> char" where
  "c_at s = (case s of [] \<Rightarrow> char_of (0 :: nat) | c # _ \<Rightarrow> c)"

definition hex2byte :: "string \<Rightarrow> int" where
  "hex2byte hex =
     (let a = hex2num (c_at hex) in
      if a < 0 then - 1
      else let b = hex2num (c_at (tl hex)) in
           if b < 0 then - 1 else 16 * a + b)"

fun edge_hexstr2bin :: "string \<Rightarrow> nat \<Rightarrow> bytes option" where
  "edge_hexstr2bin hex 0 = Some []"
| "edge_hexstr2bin hex (Suc len) =
     (let a = hex2byte hex in
      if a < 0 then None
      else map_option (\<lambda>bs. word_of_int a # bs) (edge_hexstr2bin (drop 2 hex) len))"

text \<open>
  \<open>edge_hexstr2bin\<close> never reads past the terminating NUL: the first character that is not a
  digit, NUL included, stops it.
\<close>

lemma hex2num_nul [simp]: "hex2num (char_of (0 :: nat)) = - 1"
  by (simp add: hex2num_def)

lemma hex2num_range: "- 1 \<le> hex2num c \<and> hex2num c < 16"
  by (auto simp: hex2num_def)

lemma hex2num_hex_digit: "n < 16 \<Longrightarrow> hex2num (hex_digit n) = int n"
  by (auto simp: hex2num_def hex_digit_def)

lemma hex2byte_show_02x: "hex2byte (show_02x b @ s) = uint b"
proof -
  have d: "unat b div 16 < 16"
    by (rule less_mult_imp_div_less) simp
  have "hex2byte (show_02x b @ s) = 16 * int (unat b div 16) + int (unat b mod 16)"
    using hex2num_hex_digit [OF d] hex2num_hex_digit [of "unat b mod 16"]
    by (simp add: hex2byte_def show_02x_def c_at_def)
  also have "\<dots> = int (16 * (unat b div 16) + unat b mod 16)"
    by (simp only: of_nat_add of_nat_mult of_nat_numeral)
  also have "\<dots> = uint b"
    by (simp only: mult_div_mod_eq uint_nat)
  finally show ?thesis .
qed

lemma hexstr2bin_show:
  "edge_hexstr2bin (concat (map show_02x bs)) (length bs) = Some bs"
proof (induction bs)
  case Nil
  show ?case by simp
next
  case (Cons b bs)
  have "drop 2 (show_02x b @ concat (map show_02x bs)) = concat (map show_02x bs)"
    by (simp add: show_02x_def)
  with Cons.IH show ?case
    by (simp add: hex2byte_show_02x)
qed

section \<open>Bounded copies\<close>

text \<open>
  \<open>edge_os_strlcpy\<close>: what the destination holds as a string, and the returned length.
  The call needs a size of at least 1.
\<close>

definition edge_os_strlcpy :: "string \<Rightarrow> nat \<Rightarrow> string \<times> nat" where
  "edge_os_strlcpy src siz =
     (if length src < siz then (src, length src) else (take (siz - 1) src, length src))"

abbreviation strlcpy :: "string \<Rightarrow> nat \<Rightarrow> string" where
  "strlcpy src siz \<equiv> fst (edge_os_strlcpy src siz)"

lemma strlcpy_take: "0 < siz \<Longrightarrow> strlcpy src siz = take (siz - 1) src"
  by (auto simp: edge_os_strlcpy_def)

lemma strlcpy_fits: "length src < siz \<Longrightarrow> strlcpy src siz = src"
  by (simp add: edge_os_strlcpy_def)

lemma length_strlcpy: "0 < siz \<Longrightarrow> length (strlcpy src siz) < siz"
  by (auto simp: edge_os_strlcpy_def)

definition os_strnlen_s :: "string \<Rightarrow> nat \<Rightarrow> nat" where
  "os_strnlen_s str max_len = (if max_len \<le> length str then max_len else length str)"

definition edge_os_memcmp_const :: "bytes \<Rightarrow> bytes \<Rightarrow> nat \<Rightarrow> u8" where
  "edge_os_memcmp_const a b len =
     foldl (\<lambda>res i. or res (xor (a ! i) (b ! i))) 0 [0..<len]"

lemma memcmp_const_acc:
  assumes "list_all (\<lambda>i. i < length a \<and> i < length b) ns"
  shows "foldl (\<lambda>res i. or res (xor (a ! i) (b ! i))) r ns = (0 :: u8) \<longleftrightarrow>
         r = 0 \<and> (\<forall>i \<in> set ns. a ! i = b ! i)"
  using assms
proof (induction ns arbitrary: r)
  case Nil
  show ?case by simp
next
  case (Cons n ns)
  have z: "or r (xor (a ! n) (b ! n)) = 0 \<longleftrightarrow> r = 0 \<and> a ! n = b ! n"
    by (simp add: or_eq_0_iff word_xor_eq_0)
  from Cons show ?case
    by (auto simp: z)
qed

section \<open>Random numbers\<close>

text \<open>
  \<open>edge_os_get_random\<close> reads /dev/urandom; None when it cannot be opened or the read was short.
\<close>

definition os_get_random :: "env \<Rightarrow> nat \<Rightarrow> hist \<Rightarrow> bytes option \<times> hist" where
  "os_get_random env len h =
     (let h = E_random len # h in
      (case env_random env h of
         None \<Rightarrow> (None, h)
       | Some buf \<Rightarrow> (if length buf \<noteq> len then None else Some buf, h)))"

lemma os_get_random_length: "os_get_random env len h = (Some bs, h') \<Longrightarrow> length bs = len"
  by (auto simp: os_get_random_def Let_def split: option.splits if_splits)

definition os_get_random_number_s :: "env \<Rightarrow> nat \<Rightarrow> hist \<Rightarrow> bytes option \<times> hist" where
  "os_get_random_number_s env len h =
     (case os_get_random env len h of
        (None, h) \<Rightarrow> (None, h)
      | (Some buf, h) \<Rightarrow> (Some (map (\<lambda>b. (b mod 10) + 48) buf), h))"

text \<open>\<open>rand() % (up - low + 1) + low\<close>, with the value of \<open>rand()\<close> as an argument.\<close>

definition os_get_random_int_range :: "nat \<Rightarrow> int \<Rightarrow> int \<Rightarrow> int" where
  "os_get_random_int_range rnd low up = int rnd mod (up - low + 1) + low"

section \<open>Time\<close>

definition os_to_timestamp :: "int \<Rightarrow> int \<Rightarrow> u64" where
  "os_to_timestamp tv_sec tv_usec = 1000000 * word_of_int tv_sec + word_of_int tv_usec"

definition os_get_timestamp :: "env \<Rightarrow> hist \<Rightarrow> int \<times> u64 \<times> hist" where
  "os_get_timestamp env h =
     (let h' = E_time # h in
      (case env_time env h' of
         None \<Rightarrow> (- 1, 0, h')
       | Some (s, us) \<Rightarrow> (0, os_to_timestamp s us, h')))"

section \<open>Splitting a string\<close>

text \<open>The pieces of a string between separators: one more than there are separators.\<close>

fun split_pieces :: "char \<Rightarrow> string \<Rightarrow> string list" where
  "split_pieces sep [] = [[]]"
| "split_pieces sep (c # cs) =
     (if c = sep then [] # split_pieces sep cs
      else (case split_pieces sep cs of t # ts \<Rightarrow> (c # t) # ts | [] \<Rightarrow> [[c]]))"

text \<open>
  \<open>fn_split_string_array\<close> copies one piece to the heap and pushes it; \<open>split_string\<close> calls it
  for every piece and looks at the result of the last call only.
\<close>

definition fn_split_string_array ::
  "env \<Rightarrow> string \<Rightarrow> string list \<Rightarrow> hist \<Rightarrow> int \<times> string list \<times> hist" where
  "fn_split_string_array env piece strs h =
     (let (ok, h') = os_malloc env h in
      if ok then (0, strs @ [piece], h') else (- 1, strs, h'))"

fun split_string_loop ::
  "env \<Rightarrow> string list \<Rightarrow> string list \<Rightarrow> hist \<Rightarrow> int \<times> string list \<times> hist" where
  "split_string_loop env [] strs h = (0, strs, h)"
| "split_string_loop env [p] strs h = fn_split_string_array env p strs h"
| "split_string_loop env (p # q # ps) strs h =
     (let (_, strs', h') = fn_split_string_array env p strs h
      in split_string_loop env (q # ps) strs' h')"

definition split_string_array ::
  "env \<Rightarrow> string \<Rightarrow> char \<Rightarrow> hist \<Rightarrow> int \<times> string list \<times> hist" where
  "split_string_array env str sep h =
     (let pieces = split_pieces sep str;
          (r, arr, h') = split_string_loop env pieces [] h
      in if r < 0 then (- 1, arr, h') else (int (length pieces), arr, h'))"

lemma split_pieces_nonempty [simp]: "split_pieces sep s \<noteq> []"
  by (cases s) (auto split: list.splits)

lemma split_pieces_no_sep: "p \<in> set (split_pieces sep s) \<Longrightarrow> sep \<notin> set p"
  by (induction s arbitrary: p) (auto split: if_splits list.splits)

text \<open>Joining pieces with a separator, the inverse of splitting.\<close>

fun join_pieces :: "char \<Rightarrow> string list \<Rightarrow> string" where
  "join_pieces sep [] = []"
| "join_pieces sep [p] = p"
| "join_pieces sep (p # q # ps) = p @ sep # join_pieces sep (q # ps)"

lemma join_pieces_cons: "ps \<noteq> [] \<Longrightarrow> join_pieces sep (p # ps) = p @ sep # join_pieces sep ps"
  by (cases ps) auto

lemma join_split: "join_pieces sep (split_pieces sep s) = s"
proof (induction s)
  case Nil
  show ?case by simp
next
  case (Cons c cs)
  obtain t ts where t: "split_pieces sep cs = t # ts"
    using split_pieces_nonempty [of sep cs] by (cases "split_pieces sep cs") auto
  show ?case
  proof (cases "c = sep")
    case True
    with Cons.IH t show ?thesis by (simp add: join_pieces_cons)
  next
    case False
    with Cons.IH t show ?thesis by (cases ts) auto
  qed
qed

lemma split_no_sep: "sep \<notin> set p \<Longrightarrow> split_pieces sep p = [p]"
  by (induction p) auto

lemma split_append_sep:
  "sep \<notin> set p \<Longrightarrow> split_pieces sep (p @ sep # s) = p # split_pieces sep s"
  by (induction p) auto

lemma split_join:
  "ps \<noteq> [] \<Longrightarrow> \<forall>p \<in> set ps. sep \<notin> set p \<Longrightarrow> split_pieces sep (join_pieces sep ps) = ps"
  by (induction sep ps rule: join_pieces.induct) (auto simp: split_no_sep split_append_sep)

lemma split_string_loop_total:
  "alloc_total env \<Longrightarrow>
   split_string_loop env ps strs h =
     (0, strs @ ps, replicate (length ps) E_malloc @ h)"
  by (induction env ps strs h rule: split_string_loop.induct)
     (auto simp: fn_split_string_array_def os_malloc_total replicate_app_Cons_same)

lemma split_string_array_total:
  "alloc_total env \<Longrightarrow>
   split_string_array env s sep h =
     (int (length (split_pieces sep s)), split_pieces sep s,
      replicate (length (split_pieces sep s)) E_malloc @ h)"
  by (simp add: split_string_array_def split_string_loop_total Let_def)

lemma split_string_loop_extends:
  "split_string_loop env ps strs h = (r, arr, h') \<Longrightarrow> extends h' h"
proof (induction env ps strs h rule: split_string_loop.induct)
  case (3 env p q ps strs h)
  obtain a strs1 h1 where f: "fn_split_string_array env p strs h = (a, strs1, h1)"
    by (metis prod_cases3)
  have "extends h1 h"
    using f by (auto simp: fn_split_string_array_def os_malloc_def Let_def split: if_splits)
  moreover have "extends h' h1"
    using "3.IH" [of "(a, strs1, h1)" a "(strs1, h1)" strs1 h1] f "3.prems" by simp
  ultimately show ?case
    by (blast intro: extends_trans)
qed (auto simp: fn_split_string_array_def os_malloc_def Let_def split: if_splits)

lemma split_string_array_extends:
  "split_string_array env s sep h = (r, arr, h') \<Longrightarrow> extends h' h"
  by (auto simp: split_string_array_def Let_def split: prod.splits if_splits
      dest: split_string_loop_extends)

section \<open>Trimming and building strings\<close>

definition rtrim_seps :: string where
  "rtrim_seps = map char_of [9 :: nat, 10, 11, 12, 13, 32]"

definition rtrim :: "string \<Rightarrow> string" where
  "rtrim str = rev (dropWhile (\<lambda>c. c \<in> set rtrim_seps) (rev str))"

lemma rtrim_prefix: "prefix (rtrim s) s"
proof -
  have "rev s = takeWhile (\<lambda>c. c \<in> set rtrim_seps) (rev s) @
                dropWhile (\<lambda>c. c \<in> set rtrim_seps) (rev s)"
    by simp
  then have "s = rtrim s @ rev (takeWhile (\<lambda>c. c \<in> set rtrim_seps) (rev s))"
    unfolding rtrim_def by (metis rev_append rev_rev_ident)
  then show ?thesis
    by (metis prefixI)
qed

lemma rtrim_last: "rtrim s \<noteq> [] \<Longrightarrow> last (rtrim s) \<notin> set rtrim_seps"
  unfolding rtrim_def by (metis hd_dropWhile last_rev rev_is_Nil_conv)

lemma rtrim_id: "s = [] \<or> last s \<notin> set rtrim_seps \<Longrightarrow> rtrim s = s"
  by (cases s rule: rev_cases) (auto simp: rtrim_def)

lemma rtrim_snoc_sep: "c \<in> set rtrim_seps \<Longrightarrow> rtrim (s @ [c]) = rtrim s"
  by (simp add: rtrim_def)

definition replace_string_char :: "string \<Rightarrow> char \<Rightarrow> char \<Rightarrow> string" where
  "replace_string_char s in_c out_c = map (\<lambda>c. if c = in_c then out_c else c) s"

definition string_append_char ::
  "env \<Rightarrow> string \<Rightarrow> char \<Rightarrow> hist \<Rightarrow> string option \<times> hist" where
  "string_append_char env str character h =
     (let (ok, h') = os_malloc env h in
      if ok then (Some (str @ [character]), h') else (None, h'))"

definition string_array2string ::
  "env \<Rightarrow> string list \<Rightarrow> hist \<Rightarrow> string option \<times> hist" where
  "string_array2string env strings h =
     (let (ok, h') = os_malloc env h in
      if ok then (Some (concat (map (\<lambda>s. s @ '' '') strings)), h') else (None, h'))"

definition concat_paths ::
  "env \<Rightarrow> string option \<Rightarrow> string option \<Rightarrow> hist \<Rightarrow> string option \<times> hist" where
  "concat_paths env path_left path_right h =
     (let add_separator = (path_left \<noteq> None \<and> path_right \<noteq> None \<and> path_left \<noteq> Some ''/'');
          (ok, h') = os_malloc env h
      in if \<not> ok then (None, h')
         else (Some ((case path_left of None \<Rightarrow> [] | Some l \<Rightarrow> l) @
                     (if add_separator then ''/'' else []) @
                     (case path_right of None \<Rightarrow> [] | Some r \<Rightarrow> r)), h'))"

text \<open>\<open>dirname\<close> and \<open>basename\<close> of the C library.\<close>

definition strip_slashes :: "string \<Rightarrow> string" where
  "strip_slashes s = rev (dropWhile (\<lambda>c. c = CHR ''/'') (rev s))"

definition c_basename :: "string \<Rightarrow> string" where
  "c_basename s =
     (let t = strip_slashes s in
      if s = [] then ''.'' else if t = [] then ''/'' else rev (takeWhile (\<lambda>c. c \<noteq> CHR ''/'') (rev t)))"

definition c_dirname :: "string \<Rightarrow> string" where
  "c_dirname s =
     (let t = strip_slashes s; d = rev (dropWhile (\<lambda>c. c \<noteq> CHR ''/'') (rev t)); e = strip_slashes d in
      if s = [] then ''.'' else if t = [] then ''/'' else if d = [] then ''.'' else if e = [] then ''/'' else e)"

definition get_valid_path :: "env \<Rightarrow> string option \<Rightarrow> hist \<Rightarrow> string option \<times> hist" where
  "get_valid_path env path h =
     (case path of
        None \<Rightarrow> (None, h)
      | Some p \<Rightarrow>
          let (ok, h) = os_malloc env h in
          if \<not> ok then (None, h)
          else let (ok, h) = os_malloc env h in
          if \<not> ok then (None, h)
          else if p = [] then concat_paths env (Some (c_dirname p)) None h
          else if p \<in> {''.'', ''..'', ''/'', ''//''} then concat_paths env (Some p) None h
          else concat_paths env (Some (c_dirname p)) (Some (c_basename p)) h)"

definition construct_path :: "env \<Rightarrow> string option \<Rightarrow> string option \<Rightarrow> hist \<Rightarrow> string option \<times> hist" where
  "construct_path env path_left path_right h =
     (case (path_left, path_right) of
        (Some l, Some r) \<Rightarrow>
          if r = [] then get_valid_path env (Some l) h
          else if l = [] then get_valid_path env (Some r) h
          else
            let (valid_left, h) = get_valid_path env (Some l) h;
                (valid_right, h) = get_valid_path env (Some r) h;
                beg_right = map_option (\<lambda>v. if take 2 v = ''./'' then tl v else v) valid_right;
                (full, h) = concat_paths env valid_left beg_right h
            in get_valid_path env full h
      | _ \<Rightarrow> (None, h))"

section \<open>Reading files\<close>

text \<open>
  \<open>read_file\<close>: opening, seeking and reading the whole file is one effect, None when one of them
  fails.  \<open>read_file_string\<close> appends a NUL, so the text ends at the first NUL of the file.
\<close>

definition read_file :: "env \<Rightarrow> string \<Rightarrow> hist \<Rightarrow> string option \<times> hist" where
  "read_file env path h =
     (let h = E_read_file path # h in
      case env_read_file env h of
        None \<Rightarrow> (None, h)
      | Some data \<Rightarrow> let (ok, h) = os_malloc env h in (if ok then Some data else None, h))"

definition read_file_string :: "env \<Rightarrow> string \<Rightarrow> hist \<Rightarrow> string option \<times> hist" where
  "read_file_string env path h =
     (case read_file env path h of
        (None, h) \<Rightarrow> (None, h)
      | (Some data, h) \<Rightarrow>
          let (ok, h) = os_malloc env h
          in (if ok then Some (takeWhile (\<lambda>c. c \<noteq> CHR 0x00) data) else None, h))"

section \<open>Running programs\<close>

text \<open>
  \<open>log_run_command\<close> appends every argument and a space to a buffer of 255 bytes without
  looking at its size; the text needs one more byte for the terminating NUL.
\<close>

definition log_run_command :: "string list \<Rightarrow> hist \<Rightarrow> hist" where
  "log_run_command argv h =
     (if length (concat (map (\<lambda>s. s @ '' '') argv)) + 1 \<le> 255 then h
      else E_ub Stack_Overrun # h)"

text \<open>
  \<open>run_command\<close>: the result, the chunks of output handed to the callback, and the history.
  \<open>copy_argv\<close> keeps the argument vector as it is.
\<close>

definition run_command ::
  "env \<Rightarrow> string list \<Rightarrow> bool \<Rightarrow> hist \<Rightarrow> int \<times> string list \<times> hist" where
  "run_command env argv has_fn h =
     (if argv = [] then (1, [], h)
      else let h' = E_command argv # h; po = env_command env h' in
        if \<not> po_file_exists po then (- 1, [], h')
        else if \<not> po_pipe_ok po then (1, [], h')
        else if \<not> po_fork_ok po then (1, [], h')
        else if \<not> po_close_write_ok po then (1, [], h')
        else let out = (if has_fn then po_chunks po else []) in
          if \<not> po_close_read_ok po then (1, out, h')
          else if po_wait_error po then (1, out, h')
          else if po_exited po then (po_exit_status po, out, h')
          else (po_wait_status po, out, h'))"

definition run_argv_command ::
  "env \<Rightarrow> string \<Rightarrow> string list \<Rightarrow> bool \<Rightarrow> hist \<Rightarrow> int \<times> string list \<times> hist" where
  "run_argv_command env path argv has_fn h =
     (let (ok1, h1) = os_malloc env h in
      if \<not> ok1 then (- 1, [], h1)
      else let (ok2, h2) = os_malloc env h1 in
        if \<not> ok2 then (- 1, [], h2)
        else let h3 = log_run_command (path # argv) h2;
                 (status, out, h4) = run_command env (path # argv) has_fn h3
             in (if status = 0 then 0 else - 1, out, h4))"

lemma run_argv_command_extends:
  "run_argv_command env path argv fn h = (r, out, h') \<Longrightarrow> extends h' h"
  by (auto simp: run_argv_command_def run_command_def os_malloc_def log_run_command_def Let_def
      split: if_splits)

lemma run_argv_command_ret:
  "run_argv_command env path argv fn h = (r, out, h') \<Longrightarrow> r = 0 \<or> r = - 1"
  by (auto simp: run_argv_command_def Let_def split: if_splits prod.splits)

end
