(* ===== verification/Md5.thy ===== *)
theory Md5
  imports Os_Utils
begin

text \<open>
  radius/md5_internal.c and radius/md5.c on a little endian host, where \<open>byteReverse\<close> does
  nothing: the MD5 digest of a vector of buffers, computed block by block, and HMAC-MD5.  The
  streaming computation is proved equal to the digest of RFC 1321 of the concatenation.
\<close>

unbundle bit_operations_syntax

section \<open>The transformation\<close>

type_synonym md5_state = "u32 \<times> u32 \<times> u32 \<times> u32"

definition F1 :: "u32 \<Rightarrow> u32 \<Rightarrow> u32 \<Rightarrow> u32" where
  "F1 x y z = z XOR (x AND (y XOR z))"

definition F2 :: "u32 \<Rightarrow> u32 \<Rightarrow> u32 \<Rightarrow> u32" where
  "F2 x y z = F1 z x y"

definition F3 :: "u32 \<Rightarrow> u32 \<Rightarrow> u32 \<Rightarrow> u32" where
  "F3 x y z = x XOR y XOR z"

definition F4 :: "u32 \<Rightarrow> u32 \<Rightarrow> u32 \<Rightarrow> u32" where
  "F4 x y z = y XOR (x OR NOT z)"

text \<open>
  One \<open>MD5STEP\<close>.  The four registers are passed in the order of the macro's arguments and come
  back in the order in which the next step takes them.
\<close>

definition MD5STEP ::
  "(u32 \<Rightarrow> u32 \<Rightarrow> u32 \<Rightarrow> u32) \<Rightarrow> u32 \<Rightarrow> nat \<Rightarrow> md5_state \<Rightarrow> md5_state" where
  "MD5STEP f data s = (\<lambda>(w, x, y, z).
     let w = w + (f x y z + data);
         w = push_bit s w OR drop_bit (32 - s) w;
         w = w + x
     in (z, w, x, y))"

text \<open>The steps of one round: the index of the input word, the constant and the shift.\<close>

definition md5_round1 :: "(nat \<times> u32 \<times> nat) list" where
  "md5_round1 =
     [(0, 0xd76aa478, 7), (1, 0xe8c7b756, 12), (2, 0x242070db, 17), (3, 0xc1bdceee, 22),
      (4, 0xf57c0faf, 7), (5, 0x4787c62a, 12), (6, 0xa8304613, 17), (7, 0xfd469501, 22),
      (8, 0x698098d8, 7), (9, 0x8b44f7af, 12), (10, 0xffff5bb1, 17), (11, 0x895cd7be, 22),
      (12, 0x6b901122, 7), (13, 0xfd987193, 12), (14, 0xa679438e, 17), (15, 0x49b40821, 22)]"

definition md5_round2 :: "(nat \<times> u32 \<times> nat) list" where
  "md5_round2 =
     [(1, 0xf61e2562, 5), (6, 0xc040b340, 9), (11, 0x265e5a51, 14), (0, 0xe9b6c7aa, 20),
      (5, 0xd62f105d, 5), (10, 0x02441453, 9), (15, 0xd8a1e681, 14), (4, 0xe7d3fbc8, 20),
      (9, 0x21e1cde6, 5), (14, 0xc33707d6, 9), (3, 0xf4d50d87, 14), (8, 0x455a14ed, 20),
      (13, 0xa9e3e905, 5), (2, 0xfcefa3f8, 9), (7, 0x676f02d9, 14), (12, 0x8d2a4c8a, 20)]"

definition md5_round3 :: "(nat \<times> u32 \<times> nat) list" where
  "md5_round3 =
     [(5, 0xfffa3942, 4), (8, 0x8771f681, 11), (11, 0x6d9d6122, 16), (14, 0xfde5380c, 23),
      (1, 0xa4beea44, 4), (4, 0x4bdecfa9, 11), (7, 0xf6bb4b60, 16), (10, 0xbebfbc70, 23),
      (13, 0x289b7ec6, 4), (0, 0xeaa127fa, 11), (3, 0xd4ef3085, 16), (6, 0x04881d05, 23),
      (9, 0xd9d4d039, 4), (12, 0xe6db99e5, 11), (15, 0x1fa27cf8, 16), (2, 0xc4ac5665, 23)]"

definition md5_round4 :: "(nat \<times> u32 \<times> nat) list" where
  "md5_round4 =
     [(0, 0xf4292244, 6), (7, 0x432aff97, 10), (14, 0xab9423a7, 15), (5, 0xfc93a039, 21),
      (12, 0x655b59c3, 6), (3, 0x8f0ccc92, 10), (10, 0xffeff47d, 15), (1, 0x85845dd1, 21),
      (8, 0x6fa87e4f, 6), (15, 0xfe2ce6e0, 10), (6, 0xa3014314, 15), (13, 0x4e0811a1, 21),
      (4, 0xf7537e82, 6), (11, 0xbd3af235, 10), (2, 0x2ad7d2bb, 15), (9, 0xeb86d391, 21)]"

definition md5_round ::
  "(u32 \<Rightarrow> u32 \<Rightarrow> u32 \<Rightarrow> u32) \<Rightarrow> (nat \<times> u32 \<times> nat) list \<Rightarrow> u32 list \<Rightarrow> md5_state \<Rightarrow> md5_state" where
  "md5_round f steps inp = fold (\<lambda>(i, k, s). MD5STEP f (inp ! i + k) s) steps"

text \<open>Sixteen steps bring the registers back into their order.\<close>

definition MD5Transform :: "md5_state \<Rightarrow> u32 list \<Rightarrow> md5_state" where
  "MD5Transform st inp =
     (case md5_round F4 md5_round4 inp (md5_round F3 md5_round3 inp
        (md5_round F2 md5_round2 inp (md5_round F1 md5_round1 inp st))) of
        (a, b, c, d) \<Rightarrow> (case st of (a0, b0, c0, d0) \<Rightarrow> (a0 + a, b0 + b, c0 + c, d0 + d)))"

section \<open>Bytes and words\<close>

definition le32 :: "bytes \<Rightarrow> nat \<Rightarrow> u32" where
  "le32 xs i =
     ucast (xs ! i) OR push_bit 8 (ucast (xs ! (i + 1))) OR push_bit 16 (ucast (xs ! (i + 2))) OR
     push_bit 24 (ucast (xs ! (i + 3)))"

definition put_le32 :: "u32 \<Rightarrow> bytes" where
  "put_le32 w = [ucast w, ucast (drop_bit 8 w), ucast (drop_bit 16 w), ucast (drop_bit 24 w)]"

definition block_words :: "bytes \<Rightarrow> u32 list" where
  "block_words xs = map (\<lambda>i. le32 xs (4 * i)) [0..<16]"

definition md5_block :: "md5_state \<Rightarrow> bytes \<Rightarrow> md5_state" where
  "md5_block st xs = MD5Transform st (block_words xs)"

section \<open>The context\<close>

record MD5Context =
  md_buf :: md5_state
  md_bits0 :: u32
  md_bits1 :: u32
  md_in :: bytes

text \<open>\<open>MD5Init\<close> leaves \<open>in\<close> as the stack had it: \<open>junk\<close>.\<close>

definition MD5Init :: "bytes \<Rightarrow> MD5Context" where
  "MD5Init junk = \<lparr>md_buf = (0x67452301, 0xefcdab89, 0x98badcfe, 0x10325476),
                   md_bits0 = 0, md_bits1 = 0, md_in = junk\<rparr>"

text \<open>\<open>memcpy\<close> into the array.\<close>

definition poke :: "nat \<Rightarrow> bytes \<Rightarrow> bytes \<Rightarrow> bytes" where
  "poke at data arr = take at arr @ data @ drop (at + length data) arr"

function md5_chunks :: "MD5Context \<Rightarrow> bytes \<Rightarrow> MD5Context" where
  "md5_chunks ctx buf =
     (if 64 \<le> length buf then
        let inp = poke 0 (take 64 buf) (md_in ctx)
        in md5_chunks (ctx\<lparr>md_in := inp, md_buf := md5_block (md_buf ctx) inp\<rparr>) (drop 64 buf)
      else ctx\<lparr>md_in := poke 0 buf (md_in ctx)\<rparr>)"
  by pat_completeness auto
termination
  by (relation "measure (\<lambda>(_, buf). length buf)") auto

declare md5_chunks.simps [simp del]

definition MD5Update :: "MD5Context \<Rightarrow> bytes \<Rightarrow> MD5Context" where
  "MD5Update ctx buf =
     (let len = word_of_nat (length buf) :: u32;
          t = md_bits0 ctx;
          bits0 = t + push_bit 3 len;
          bits1 = (if bits0 < t then md_bits1 ctx + 1 else md_bits1 ctx) + drop_bit 29 len;
          ctx = ctx\<lparr>md_bits0 := bits0, md_bits1 := bits1\<rparr>;
          t = unat (drop_bit 3 t AND 0x3f)
      in if t \<noteq> 0 then
           let room = 64 - t in
           if length buf < room then ctx\<lparr>md_in := poke t buf (md_in ctx)\<rparr>
           else
             let inp = poke t (take room buf) (md_in ctx)
             in md5_chunks (ctx\<lparr>md_in := inp, md_buf := md5_block (md_buf ctx) inp\<rparr>) (drop room buf)
         else md5_chunks ctx buf)"

definition MD5Final :: "MD5Context \<Rightarrow> bytes" where
  "MD5Final ctx =
     (let count = unat (drop_bit 3 (md_bits0 ctx) AND 0x3f);
          inp = poke count [0x80] (md_in ctx);
          left = 64 - 1 - count;
          (st, inp) =
            (if left < 8 then
               let inp = poke (count + 1) (replicate left 0) inp
               in (md5_block (md_buf ctx) inp, poke 0 (replicate 56 0) inp)
             else (md_buf ctx, poke (count + 1) (replicate (left - 8) 0) inp));
          inp = poke 56 (put_le32 (md_bits0 ctx) @ put_le32 (md_bits1 ctx)) inp
      in case md5_block st inp of
           (a, b, c, d) \<Rightarrow> put_le32 a @ put_le32 b @ put_le32 c @ put_le32 d)"

definition edge_md5_vector :: "bytes \<Rightarrow> bytes list \<Rightarrow> bytes" where
  "edge_md5_vector junk bufs = MD5Final (foldl MD5Update (MD5Init junk) bufs)"

text \<open>
  The macro \<open>md5_vector\<close>, with zeros in the stack array; the digest does not depend on them
  (\<open>edge_md5_vector_ref\<close>).
\<close>

definition md5_vector :: "bytes list \<Rightarrow> bytes" where
  "md5_vector bufs = edge_md5_vector (replicate 64 0) bufs"

section \<open>HMAC\<close>

definition MD5_MAC_LEN :: nat where
  "MD5_MAC_LEN = 16"

text \<open>The key in the pad, XORed with a constant.\<close>

definition k_pad :: "bytes \<Rightarrow> u8 \<Rightarrow> bytes" where
  "k_pad key x = map (\<lambda>b. b XOR x) (poke 0 key (replicate 64 0))"

definition hmac_md5_vector :: "bytes \<Rightarrow> bytes \<Rightarrow> bytes list \<Rightarrow> bytes option" where
  "hmac_md5_vector junk key bufs =
     (if 5 < length bufs then None
      else let key = (if 64 < length key then edge_md5_vector junk [key] else key);
               mac = edge_md5_vector junk (k_pad key 0x36 # bufs)
           in Some (edge_md5_vector junk [k_pad key 0x5c, mac]))"

definition edge_hmac_md5 :: "bytes \<Rightarrow> bytes \<Rightarrow> bytes \<Rightarrow> bytes option" where
  "edge_hmac_md5 junk key data = hmac_md5_vector junk key [data]"

text \<open>The macro \<open>hmac_md5\<close>: with one buffer it does not fail.\<close>

definition hmac_md5 :: "bytes \<Rightarrow> bytes \<Rightarrow> bytes" where
  "hmac_md5 key data =
     (case edge_hmac_md5 (replicate 64 0) key data of Some mac \<Rightarrow> mac | None \<Rightarrow> [])"

section \<open>The reference\<close>

text \<open>The blocks of a message one after the other; what is left over at the end is ignored.\<close>

function md5_run :: "md5_state \<Rightarrow> bytes \<Rightarrow> md5_state" where
  "md5_run st xs = (if 64 \<le> length xs then md5_run (md5_block st (take 64 xs)) (drop 64 xs) else st)"
  by pat_completeness auto
termination
  by (relation "measure (\<lambda>(_, xs). length xs)") auto

declare md5_run.simps [simp del]

text \<open>
  RFC 1321: the message is padded with a one bit and zeros to 56 bytes modulo 64, then the
  number of its bits follows as 64 bits, low word first.
\<close>

definition md5_pad :: "bytes \<Rightarrow> bytes" where
  "md5_pad m =
     m @ 0x80 # replicate ((119 - length m mod 64) mod 64) 0 @
     put_le32 (word_of_nat (8 * length m)) @ put_le32 (word_of_nat (8 * length m div 2 ^ 32))"

definition md5_ref :: "bytes \<Rightarrow> bytes" where
  "md5_ref m =
     (case md5_run (0x67452301, 0xefcdab89, 0x98badcfe, 0x10325476) (md5_pad m) of
        (a, b, c, d) \<Rightarrow> put_le32 a @ put_le32 b @ put_le32 c @ put_le32 d)"

text \<open>RFC 2104.\<close>

definition hmac_ref :: "bytes \<Rightarrow> bytes \<Rightarrow> bytes" where
  "hmac_ref key m =
     (let key = (if 64 < length key then md5_ref key else key);
          block = key @ replicate (64 - length key) 0
      in md5_ref (map (\<lambda>b. b XOR 0x5c) block @ md5_ref (map (\<lambda>b. b XOR 0x36) block @ m)))"

lemma md5_run_block: "length xs = 64 \<Longrightarrow> md5_run st (xs @ ys) = md5_run (md5_block st xs) ys"
  by (subst md5_run.simps) simp

lemma md5_run_short: "length xs < 64 \<Longrightarrow> md5_run st xs = st"
  by (subst md5_run.simps) simp

lemma md5_run_append: "64 dvd length ws \<Longrightarrow> md5_run st (ws @ ys) = md5_run (md5_run st ws) ys"
proof (induction st ws rule: md5_run.induct)
  case (1 st ws)
  show ?case
  proof (cases "64 \<le> length ws")
    case True
    then have "md5_run st (ws @ ys) = md5_run (md5_block st (take 64 ws)) (drop 64 ws @ ys)"
      using md5_run_block [of "take 64 ws" st "drop 64 ws @ ys"] by (simp flip: append_assoc)
    also have "\<dots> = md5_run (md5_run (md5_block st (take 64 ws)) (drop 64 ws)) ys"
      using "1.IH" True "1.prems" by (simp add: dvd_minus_self)
    also have "md5_run (md5_block st (take 64 ws)) (drop 64 ws) = md5_run st ws"
      using True by (subst (2) md5_run.simps) simp
    finally show ?thesis .
  next
    case False
    with "1.prems" have "ws = []"
      by (auto dest: dvd_imp_le)
    then show ?thesis
      by (simp add: md5_run_short)
  qed
qed

section \<open>The streaming computation\<close>

lemma poke_at: "poke (length xs) d (xs @ ys) = xs @ d @ drop (length d) ys"
  by (simp add: poke_def)

lemma length_poke: "at + length d \<le> length arr \<Longrightarrow> length (poke at d arr) = length arr"
  by (simp add: poke_def)

lemma md5_chunks_run:
  assumes "length (md_in ctx) = 64"
  shows "\<exists>ws tl inp. buf = ws @ tl \<and> 64 dvd length ws \<and> length tl < 64 \<and> length inp = 64 \<and>
           take (length tl) inp = tl \<and>
           md5_chunks ctx buf = ctx\<lparr>md_in := inp, md_buf := md5_run (md_buf ctx) ws\<rparr>"
  using assms
proof (induction ctx buf rule: md5_chunks.induct)
  case (1 ctx buf)
  show ?case
  proof (cases "64 \<le> length buf")
    case True
    let ?blk = "take 64 buf"
    have inp: "poke 0 ?blk (md_in ctx) = ?blk" "length ?blk = 64"
      using True "1.prems" by (simp_all add: poke_def)
    let ?ctx = "ctx\<lparr>md_in := ?blk, md_buf := md5_block (md_buf ctx) ?blk\<rparr>"
    have step: "md5_chunks ctx buf = md5_chunks ?ctx (drop 64 buf)"
      using True by (subst md5_chunks.simps) (simp add: inp Let_def)
    obtain ws tl inp where *: "drop 64 buf = ws @ tl" "64 dvd length ws" "length tl < 64" "length inp = 64"
      "take (length tl) inp = tl" "md5_chunks ?ctx (drop 64 buf) = ?ctx\<lparr>md_in := inp, md_buf := md5_run (md_buf ?ctx) ws\<rparr>"
      using "1.IH" [OF True refl] inp by (auto simp: inp(1))
    have "buf = (?blk @ ws) @ tl" and "64 dvd length (?blk @ ws)"
      using * inp(2) by (simp_all flip: *(1) add: append_take_drop_id)
    moreover have "md5_run (md_buf ctx) (?blk @ ws) = md5_run (md5_block (md_buf ctx) ?blk) ws"
      by (rule md5_run_block) (rule inp(2))
    ultimately show ?thesis
      using * step by (intro exI [of _ "?blk @ ws"] exI [of _ tl] exI [of _ inp]) simp
  next
    case False
    then show ?thesis
      using "1.prems" by (intro exI [of _ "[]"] exI [of _ buf] exI [of _ "poke 0 buf (md_in ctx)"])
        (subst md5_chunks.simps, simp add: md5_run_short length_poke poke_def)
  qed
qed

text \<open>The bit count: 64 bits of it in two words, with the carry from the low to the high one.\<close>

lemma unat_and_63: "unat (w AND 0x3f :: u32) = unat w mod 64"
proof -
  have "unat w AND 63 = take_bit 6 (unat w)"
    by (simp add: take_bit_eq_mask mask_eq_exp_minus_1)
  then show ?thesis
    by (simp add: unsigned_and_eq take_bit_eq_mod)
qed

lemma bit_count_bytes: "unat (drop_bit 3 (word_of_nat (8 * n) :: u32) AND 0x3f) = n mod 64"
proof -
  have "unat (drop_bit 3 (word_of_nat (8 * n) :: u32)) = 8 * n mod 2 ^ 32 div 8"
    by (simp only: unat_drop_bit_eq) (simp only: drop_bit_eq_div unat_of_nat, simp)
  also have "\<dots> = n mod 2 ^ 29"
    using mult_mod_right [of 8 n "2 ^ 29"] by simp
  finally have "unat (drop_bit 3 (word_of_nat (8 * n) :: u32) AND 0x3f) = n mod 2 ^ 29 mod 64"
    by (simp only: unat_and_63)
  then show ?thesis
    by (simp add: mod_mod_cancel)
qed

lemma high_word_sum:
  fixes x y :: nat
  shows "(x + y) div 2 ^ 32 = x div 2 ^ 32 + y div 2 ^ 32 + (if 2 ^ 32 \<le> x mod 2 ^ 32 + y mod 2 ^ 32 then 1 else 0)"
  by (auto simp: div_add1_eq [of x y] div_nat_eqI)

lemma wrapped_sum_less:
  assumes "a < N" and "b < (N :: nat)"
  shows "(a + b) mod N < a \<longleftrightarrow> N \<le> a + b"
proof (cases "N \<le> a + b")
  case True
  then have "(a + b) mod N = a + b - N"
    using assms by (simp add: le_mod_geq)
  with True assms show ?thesis by simp
next
  case False
  then show ?thesis by simp
qed

lemma carry_word: "(word_of_nat (x + y) :: u32) < word_of_nat x \<longleftrightarrow> 2 ^ 32 \<le> x mod 2 ^ 32 + y mod 2 ^ 32"
proof -
  have "unat (word_of_nat (x + y) :: u32) = (x mod 2 ^ 32 + y mod 2 ^ 32) mod 2 ^ 32"
    by (simp only: unat_of_nat) (simp add: mod_add_eq)
  moreover have "unat (word_of_nat x :: u32) = x mod 2 ^ 32"
    by (simp only: unat_of_nat) simp
  ultimately show ?thesis
    unfolding word_less_nat_alt by (simp only: wrapped_sum_less mod_less_divisor zero_less_power zero_less_numeral)
qed

lemma bit_count_carry:
  assumes "k < 2 ^ 32"
  shows "(word_of_nat (8 * n) :: u32) + push_bit 3 (word_of_nat k) = word_of_nat (8 * (n + k))"
    and "(if (word_of_nat (8 * (n + k)) :: u32) < word_of_nat (8 * n)
          then word_of_nat (8 * n div 2 ^ 32) + 1 else word_of_nat (8 * n div 2 ^ 32) :: u32) + drop_bit 29 (word_of_nat k) =
         word_of_nat (8 * (n + k) div 2 ^ 32)"
proof -
  show "(word_of_nat (8 * n) :: u32) + push_bit 3 (word_of_nat k) = word_of_nat (8 * (n + k))"
    by (simp add: push_bit_eq_mult)
  have "unat (drop_bit 29 (word_of_nat k) :: u32) = k div 2 ^ 29"
    using assms by (simp only: unat_drop_bit_eq) (simp only: drop_bit_eq_div unat_of_nat, simp)
  moreover have "k div 2 ^ 29 = 8 * k div 2 ^ 32"
    using div_mult_mult1 [of 8 k "2 ^ 29"] by simp
  ultimately have hi: "(drop_bit 29 (word_of_nat k) :: u32) = word_of_nat (8 * k div 2 ^ 32)"
    by (metis of_nat_unat ucast_id)
  show "(if (word_of_nat (8 * (n + k)) :: u32) < word_of_nat (8 * n)
          then word_of_nat (8 * n div 2 ^ 32) + 1 else word_of_nat (8 * n div 2 ^ 32) :: u32) + drop_bit 29 (word_of_nat k) =
         word_of_nat (8 * (n + k) div 2 ^ 32)"
    unfolding hi using carry_word [of "8 * n" "8 * k"] high_word_sum [of "8 * n" "8 * k"]
    by (simp add: distrib_left)
qed

text \<open>What a context holds after the bytes \<open>m\<close>: whole blocks are hashed, the rest waits in \<open>in\<close>.\<close>

definition md5_rep :: "MD5Context \<Rightarrow> bytes \<Rightarrow> bool" where
  "md5_rep ctx m \<longleftrightarrow>
     length (md_in ctx) = 64 \<and>
     md_bits0 ctx = word_of_nat (8 * length m) \<and> md_bits1 ctx = word_of_nat (8 * length m div 2 ^ 32) \<and>
     (\<exists>ws tl. m = ws @ tl \<and> 64 dvd length ws \<and> length tl < 64 \<and> take (length tl) (md_in ctx) = tl \<and>
        md_buf ctx = md5_run (0x67452301, 0xefcdab89, 0x98badcfe, 0x10325476) ws)"

lemma md5_rep_init: "length junk = 64 \<Longrightarrow> md5_rep (MD5Init junk) []"
  by (auto simp: md5_rep_def MD5Init_def md5_run_short)

lemma md5_repE:
  assumes "md5_rep ctx m"
  obtains ws tl where "m = ws @ tl" and "64 dvd length ws" and "length tl < 64"
    and "length m mod 64 = length tl" and "take (length tl) (md_in ctx) = tl"
    and "md_buf ctx = md5_run (0x67452301, 0xefcdab89, 0x98badcfe, 0x10325476) ws"
    and "length (md_in ctx) = 64" and "md_bits0 ctx = word_of_nat (8 * length m)"
    and "md_bits1 ctx = word_of_nat (8 * length m div 2 ^ 32)"
proof -
  from assms obtain ws tl where *: "m = ws @ tl" "64 dvd length ws" "length tl < 64"
    and rest: "take (length tl) (md_in ctx) = tl"
      "md_buf ctx = md5_run (0x67452301, 0xefcdab89, 0x98badcfe, 0x10325476) ws"
    unfolding md5_rep_def by (elim conjE exE)
  moreover have "length m mod 64 = length tl"
    using * by (auto elim!: dvdE)
  ultimately show thesis
    using assms that unfolding md5_rep_def by (elim conjE) simp
qed

text \<open>More bytes behind a tail: a chunk run on them keeps what a context stands for.\<close>

lemma md5_rep_chunks:
  assumes "64 dvd length ws" and "md_buf ctx = md5_run (0x67452301, 0xefcdab89, 0x98badcfe, 0x10325476) ws"
    and "length (md_in ctx) = 64" and "md_bits0 ctx = word_of_nat (8 * length (ws @ buf))"
    and "md_bits1 ctx = word_of_nat (8 * length (ws @ buf) div 2 ^ 32)"
  shows "md5_rep (md5_chunks ctx buf) (ws @ buf)"
proof -
  obtain vs tl inp where *: "buf = vs @ tl" "64 dvd length vs" "length tl < 64" "length inp = 64"
    "take (length tl) inp = tl" "md5_chunks ctx buf = ctx\<lparr>md_in := inp, md_buf := md5_run (md_buf ctx) vs\<rparr>"
    using md5_chunks_run [OF assms(3), of buf] by (elim exE conjE)
  have "md5_run (0x67452301, 0xefcdab89, 0x98badcfe, 0x10325476) (ws @ vs) = md5_run (md_buf ctx) vs"
    by (simp add: md5_run_append assms(1,2))
  moreover have "ws @ buf = (ws @ vs) @ tl" "64 dvd length (ws @ vs)"
    using assms(1) * by simp_all
  ultimately show ?thesis
    unfolding md5_rep_def using * assms(4,5) by (intro conjI exI [of _ "ws @ vs"] exI [of _ tl]) simp_all
qed

lemma md5_rep_update:
  assumes rep: "md5_rep ctx m" and len: "length buf < 2 ^ 32"
  shows "md5_rep (MD5Update ctx buf) (m @ buf)"
proof (rule md5_repE [OF rep])
  let ?iv = "(0x67452301, 0xefcdab89, 0x98badcfe, 0x10325476) :: md5_state"
  fix ws tl
  assume m: "m = ws @ tl" "64 dvd length ws" "length tl < 64" "length m mod 64 = length tl"
    and inp: "take (length tl) (md_in ctx) = tl" "md_buf ctx = md5_run ?iv ws" "length (md_in ctx) = 64"
    and bits: "md_bits0 ctx = word_of_nat (8 * length m)" "md_bits1 ctx = word_of_nat (8 * length m div 2 ^ 32)"
  have t: "unat (drop_bit 3 (word_of_nat (8 * length m) :: u32) AND 0x3f) = length tl"
    by (simp only: bit_count_bytes m(4))
  define ctx1 where "ctx1 = ctx\<lparr>md_bits0 := word_of_nat (8 * length (m @ buf)), md_bits1 := word_of_nat (8 * length (m @ buf) div 2 ^ 32)\<rparr>"
  have upd: "MD5Update ctx buf =
     (if length tl \<noteq> 0 then
        if length buf < 64 - length tl then ctx1\<lparr>md_in := poke (length tl) buf (md_in ctx1)\<rparr>
        else let inp = poke (length tl) (take (64 - length tl) buf) (md_in ctx1)
             in md5_chunks (ctx1\<lparr>md_in := inp, md_buf := md5_block (md_buf ctx1) inp\<rparr>) (drop (64 - length tl) buf)
      else md5_chunks ctx1 buf)"
    unfolding MD5Update_def Let_def bits bit_count_carry [OF len, of "length m"] t ctx1_def length_append by simp
  have ctx1: "md_in ctx1 = md_in ctx" "md_buf ctx1 = md_buf ctx"
    by (simp_all add: ctx1_def)
  show ?thesis
  proof (cases "length tl = 0")
    case True
    then have "MD5Update ctx buf = md5_chunks ctx1 buf" "m = ws"
      using m by (simp_all add: upd)
    then show ?thesis
      using m inp by (auto simp: ctx1_def intro!: md5_rep_chunks)
  next
    case False
    obtain rest where rest: "md_in ctx = tl @ rest" "length rest = 64 - length tl"
      using inp m(3) by (metis append_take_drop_id length_drop)
    show ?thesis
    proof (cases "length buf < 64 - length tl")
      case True
      then have "MD5Update ctx buf = ctx1\<lparr>md_in := tl @ buf @ drop (length buf) rest\<rparr>"
        using False by (simp add: upd ctx1 rest poke_at)
      then show ?thesis
        using m inp rest True unfolding md5_rep_def
        by (intro conjI exI [of _ ws] exI [of _ "tl @ buf"]) (simp_all add: ctx1_def)
    next
      case long: False
      define blk where "blk = tl @ take (64 - length tl) buf"
      have blk: "length blk = 64" "poke (length tl) (take (64 - length tl) buf) (md_in ctx1) = blk"
        "ws @ blk @ drop (64 - length tl) buf = m @ buf"
        using long m rest by (simp_all add: blk_def ctx1 poke_at)
      have "MD5Update ctx buf =
          md5_chunks (ctx1\<lparr>md_in := blk, md_buf := md5_block (md_buf ctx1) blk\<rparr>) (drop (64 - length tl) buf)"
        using False long by (simp add: upd blk(2) Let_def)
      moreover have "md5_rep \<dots> ((ws @ blk) @ drop (64 - length tl) buf)"
        using m(2) blk(1) inp(2) md5_run_block [OF blk(1), of _ "[]"]
        by (intro md5_rep_chunks) (simp_all add: ctx1_def md5_run_append md5_run_short blk(3))
      ultimately show ?thesis
        by (simp add: blk(3))
    qed
  qed
qed

lemma md5_rep_final:
  assumes rep: "md5_rep ctx m"
  shows "MD5Final ctx = md5_ref m"
proof (rule md5_repE [OF rep])
  let ?iv = "(0x67452301, 0xefcdab89, 0x98badcfe, 0x10325476) :: md5_state"
  fix ws tl
  assume m: "m = ws @ tl" "64 dvd length ws" "length tl < 64" "length m mod 64 = length tl"
    and inp: "take (length tl) (md_in ctx) = tl" "md_buf ctx = md5_run ?iv ws" "length (md_in ctx) = 64"
    and bits: "md_bits0 ctx = word_of_nat (8 * length m)" "md_bits1 ctx = word_of_nat (8 * length m div 2 ^ 32)"
  define n where "n = put_le32 (word_of_nat (8 * length m)) @ put_le32 (word_of_nat (8 * length m div 2 ^ 32))"
  have n: "length n = 8"
    by (simp add: n_def put_le32_def)
  have t: "unat (drop_bit 3 (word_of_nat (8 * length m) :: u32) AND 0x3f) = length tl"
    by (simp only: bit_count_bytes m(4))
  obtain x rest where rest: "md_in ctx = tl @ x # rest" "length rest = 63 - length tl"
  proof -
    have "drop (length tl) (md_in ctx) \<noteq> []"
      using inp(3) m(3) by simp
    then obtain x rest where "drop (length tl) (md_in ctx) = x # rest"
      by (cases "drop (length tl) (md_in ctx)") auto
    moreover from this have "Suc (length rest) = 64 - length tl"
      using inp(3) by (metis length_Cons length_drop)
    ultimately show thesis
      using inp(1) append_take_drop_id [of "length tl" "md_in ctx"] by (intro that [of x rest]) simp_all
  qed
  have pad: "md5_pad m = ws @ tl @ 0x80 # replicate ((119 - length tl) mod 64) 0 @ n"
    using m(4) by (simp add: md5_pad_def m(1) n_def)
  have poke1: "poke (length tl) [0x80] (md_in ctx) = tl @ 0x80 # rest"
    by (simp add: rest poke_at)
  show ?thesis
  proof (cases "63 - length tl < 8")
    case True
    have "poke (length tl + 1) (replicate (63 - length tl) 0) (tl @ 0x80 # rest) =
        tl @ 0x80 # replicate (63 - length tl) 0" (is "_ = ?b1")
      using poke_at [of "tl @ [0x80]" "replicate (63 - length tl) 0" rest] rest(2) by simp
    moreover have "poke 56 n (poke 0 (replicate 56 0) ?b1) = replicate 56 0 @ n" (is "_ = ?b2")
      using m(3) n poke_at [of "replicate 56 0" n "drop 56 ?b1"] by (simp add: poke_def)
    ultimately have fin: "MD5Final ctx = (case md5_block (md5_block (md_buf ctx) ?b1) ?b2 of
        (a, b, c, d) \<Rightarrow> put_le32 a @ put_le32 b @ put_le32 c @ put_le32 d)"
      using True unfolding MD5Final_def Let_def bits t poke1 n_def [symmetric] by simp
    have "replicate ((119 - length tl) mod 64) (0 :: u8) = replicate (63 - length tl) 0 @ replicate 56 0"
      using True m(3) by (simp flip: replicate_add)
    then have "md5_run ?iv (md5_pad m) = md5_run (md_buf ctx) (?b1 @ ?b2 @ [])"
      using m(2) by (simp add: pad md5_run_append inp(2))
    also have "\<dots> = md5_run (md5_block (md_buf ctx) ?b1) (?b2 @ [])"
      using m(3) by (intro md5_run_block) simp
    also have "\<dots> = md5_run (md5_block (md5_block (md_buf ctx) ?b1) ?b2) []"
      using n by (intro md5_run_block) simp
    also have "\<dots> = md5_block (md5_block (md_buf ctx) ?b1) ?b2"
      by (simp add: md5_run_short)
    finally show ?thesis
      unfolding fin md5_ref_def by simp
  next
    case False
    have "poke (length tl + 1) (replicate (55 - length tl) 0) (tl @ 0x80 # rest) =
        tl @ 0x80 # replicate (55 - length tl) 0 @ drop (55 - length tl) rest" (is "_ = ?p")
      using poke_at [of "tl @ [0x80]" "replicate (55 - length tl) 0" rest] by simp
    moreover have "poke 56 n ?p = tl @ 0x80 # replicate (55 - length tl) 0 @ n" (is "_ = ?b")
      using False m(3) n rest(2)
        poke_at [of "tl @ 0x80 # replicate (55 - length tl) 0" n "drop (55 - length tl) rest"] by simp
    ultimately have fin: "MD5Final ctx = (case md5_block (md_buf ctx) ?b of
        (a, b, c, d) \<Rightarrow> put_le32 a @ put_le32 b @ put_le32 c @ put_le32 d)"
      using False unfolding MD5Final_def Let_def bits t poke1 n_def [symmetric] by simp
    have "(119 - length tl) mod 64 = 55 - length tl"
      using False by (simp add: le_mod_geq)
    then have "md5_run ?iv (md5_pad m) = md5_run (md_buf ctx) (?b @ [])"
      using m(2) by (simp add: pad md5_run_append inp(2))
    also have "\<dots> = md5_run (md5_block (md_buf ctx) ?b) []"
      using False n by (intro md5_run_block) simp
    also have "\<dots> = md5_block (md_buf ctx) ?b"
      by (simp add: md5_run_short)
    finally show ?thesis
      unfolding fin md5_ref_def by simp
  qed
qed

lemma md5_rep_foldl:
  "md5_rep ctx m \<Longrightarrow> \<forall>b \<in> set bufs. length b < 2 ^ 32 \<Longrightarrow> md5_rep (foldl MD5Update ctx bufs) (m @ concat bufs)"
proof (induction bufs arbitrary: ctx m)
  case (Cons b bufs)
  then have "md5_rep (MD5Update ctx b) (m @ b)"
    by (intro md5_rep_update) simp_all
  from Cons.IH [OF this] Cons.prems(2) show ?case
    by simp
qed simp

lemma edge_md5_vector_ref:
  assumes "length junk = 64" and "\<forall>b \<in> set bufs. length b < 2 ^ 32"
  shows "edge_md5_vector junk bufs = md5_ref (concat bufs)"
  using md5_rep_final [OF md5_rep_foldl [OF md5_rep_init [OF assms(1)] assms(2)]]
  by (simp add: edge_md5_vector_def)

lemma length_md5_ref [simp]: "length (md5_ref m) = 16"
  by (simp add: md5_ref_def put_le32_def split: prod.split)

lemma length_md5_vector [simp]: "length (md5_vector bufs) = 16"
  by (simp add: md5_vector_def edge_md5_vector_def MD5Final_def Let_def put_le32_def split: prod.split)

lemma length_hmac_md5 [simp]: "length (hmac_md5 key m) = 16"
  using length_md5_vector
  by (simp add: hmac_md5_def edge_hmac_md5_def hmac_md5_vector_def Let_def flip: md5_vector_def)

lemma length_k_pad: "length key \<le> 64 \<Longrightarrow> length (k_pad key x) = 64"
  by (simp add: k_pad_def poke_def)

section \<open>Properties\<close>



text \<open>
  C20: \<open>edge_hmac_md5\<close> is HMAC of RFC 2104 over that digest: the key is hashed when it is longer
  than a block, and otherwise padded with zeros.
\<close>

theorem hmac_md5_is_hmac:
  assumes "length junk = 64" and "length key < 2 ^ 32" and "length m < 2 ^ 32"
  shows "edge_hmac_md5 junk key m = Some (hmac_ref key m)"
proof -
  define k where "k = (if 64 < length key then md5_ref key else key)"
  have k: "length k \<le> 64"
    by (simp add: k_def)
  have pad: "k_pad k x = map (\<lambda>b. b XOR x) (k @ replicate (64 - length k) 0)" for x
    using k by (simp add: k_pad_def poke_def)
  have small: "length (k_pad k x) < 2 ^ 32" for x
    using length_k_pad [OF k] by simp
  have key: "(if 64 < length key then edge_md5_vector junk [key] else key) = k"
    using edge_md5_vector_ref [OF assms(1), of "[key]"] assms(2) by (simp add: k_def)
  have "edge_md5_vector junk (k_pad k 0x36 # [m]) = md5_ref (k_pad k 0x36 @ m)"
    using edge_md5_vector_ref [OF assms(1), of "[k_pad k 0x36, m]"] assms(3) small by simp
  moreover have "edge_md5_vector junk [k_pad k 0x5c, md5_ref x] = md5_ref (k_pad k 0x5c @ md5_ref x)" for x
    using edge_md5_vector_ref [OF assms(1), of "[k_pad k 0x5c, md5_ref x]"] small by simp
  ultimately show ?thesis
    unfolding edge_hmac_md5_def hmac_md5_vector_def hmac_ref_def Let_def key k_def [symmetric]
    by (simp add: pad)
qed

theorem hmac_md5_is_hmac_witness:
  "edge_hmac_md5 (replicate 64 7) [1, 2] [3] = Some (hmac_ref [1, 2] [3])"
  by (rule hmac_md5_is_hmac) simp_all

end
