(* ===== verification/Radius_Msg.thy ===== *)
theory Radius_Msg
  imports Md5
begin

text \<open>
  radius/wpabuf.c and radius/radius.c: buffers that grow, and RADIUS messages in them.  A message
  is its bytes with the positions of its attributes; the header is the first twenty bytes.  A
  pointer to an attribute is its position.  Writing past the size of a buffer calls \<open>abort\<close>.
  Printing messages to the log is not modelled.
\<close>

unbundle bit_operations_syntax

section \<open>Buffers (wpabuf.c)\<close>

record wpabuf =
  wb_size :: nat
  wb_data :: bytes \<comment> \<open>the used part\<close>

definition wpabuf_alloc :: "env \<Rightarrow> nat \<Rightarrow> hist \<Rightarrow> wpabuf option \<times> hist" where
  "wpabuf_alloc env len h =
     (let (ok, h) = os_malloc env h in (if ok then Some \<lparr>wb_size = len, wb_data = []\<rparr> else None, h))"

definition wpabuf_tailroom :: "wpabuf \<Rightarrow> nat" where
  "wpabuf_tailroom buf = wb_size buf - length (wb_data buf)"

text \<open>\<open>wpabuf_put\<close> followed by writing the bytes, as \<open>wpabuf_put_data\<close> and the others do.\<close>

definition wpabuf_put_data :: "wpabuf \<Rightarrow> bytes \<Rightarrow> hist \<Rightarrow> wpabuf \<times> hist" where
  "wpabuf_put_data buf data h =
     (let used = length (wb_data buf) + length data;
          h = (if wb_size buf < used then E_abort # h else h)
      in (buf\<lparr>wb_data := wb_data buf @ data\<rparr>, h))"

definition wpabuf_alloc_copy :: "env \<Rightarrow> bytes \<Rightarrow> hist \<Rightarrow> wpabuf option \<times> hist" where
  "wpabuf_alloc_copy env data h =
     (case wpabuf_alloc env (length data) h of
        (None, h) \<Rightarrow> (None, h)
      | (Some buf, h) \<Rightarrow> let (buf, h) = wpabuf_put_data buf data h in (Some buf, h))"

text \<open>\<open>wpabuf_resize\<close> of a buffer that is not NULL: the result, the buffer, the history.\<close>

definition wpabuf_resize :: "env \<Rightarrow> wpabuf \<Rightarrow> nat \<Rightarrow> hist \<Rightarrow> int \<times> wpabuf \<times> hist" where
  "wpabuf_resize env buf add_len h =
     (if wb_size buf < length (wb_data buf) + add_len then
        let (ok, h) = os_malloc env h in
        if \<not> ok then (- 1, buf, h) else (0, buf\<lparr>wb_size := length (wb_data buf) + add_len\<rparr>, h)
      else (0, buf, h))"

definition put_be16 :: "u16 \<Rightarrow> bytes" where
  "put_be16 v = [ucast (drop_bit 8 v), ucast v]"

definition put_be32 :: "u32 \<Rightarrow> bytes" where
  "put_be32 v = [ucast (drop_bit 24 v), ucast (drop_bit 16 v), ucast (drop_bit 8 v), ucast v]"

definition get_be16 :: "bytes \<Rightarrow> u16" where
  "get_be16 xs = push_bit 8 (ucast (xs ! 0)) OR ucast (xs ! 1)"

definition get_be24 :: "bytes \<Rightarrow> u32" where
  "get_be24 xs = push_bit 16 (ucast (xs ! 0)) OR push_bit 8 (ucast (xs ! 1)) OR ucast (xs ! 2)"

definition get_be32 :: "bytes \<Rightarrow> u32" where
  "get_be32 xs = push_bit 24 (ucast (xs ! 0)) OR push_bit 16 (ucast (xs ! 1)) OR push_bit 8 (ucast (xs ! 2)) OR
     ucast (xs ! 3)"

definition wpabuf_concat :: "env \<Rightarrow> wpabuf option \<Rightarrow> wpabuf option \<Rightarrow> hist \<Rightarrow> wpabuf option \<times> hist" where
  "wpabuf_concat env a b h =
     (case b of
        None \<Rightarrow> (a, h)
      | Some b \<Rightarrow>
          let pre = (case a of None \<Rightarrow> [] | Some a \<Rightarrow> wb_data a) in
          (case wpabuf_alloc env (length pre + length (wb_data b)) h of
             (None, h) \<Rightarrow> (None, h)
           | (Some n, h) \<Rightarrow>
               let (n, h) = wpabuf_put_data n pre h; (n, h) = wpabuf_put_data n (wb_data b) h
               in (Some n, h)))"

definition wpabuf_zeropad :: "env \<Rightarrow> wpabuf option \<Rightarrow> nat \<Rightarrow> hist \<Rightarrow> wpabuf option \<times> hist" where
  "wpabuf_zeropad env buf len h =
     (case buf of
        None \<Rightarrow> (None, h)
      | Some b \<Rightarrow>
          if len \<le> length (wb_data b) then (Some b, h)
          else (case wpabuf_alloc env len h of
                  (None, h) \<Rightarrow> (None, h)
                | (Some r, h) \<Rightarrow>
                    let (r, h) = wpabuf_put_data r (replicate (len - length (wb_data b)) 0) h;
                        (r, h) = wpabuf_put_data r (wb_data b) h
                    in (Some r, h)))"

section \<open>Messages\<close>

definition RADIUS_CODE_ACCESS_REQUEST :: u8 where "RADIUS_CODE_ACCESS_REQUEST = 1"
definition RADIUS_CODE_ACCESS_ACCEPT :: u8 where "RADIUS_CODE_ACCESS_ACCEPT = 2"
definition RADIUS_CODE_ACCESS_REJECT :: u8 where "RADIUS_CODE_ACCESS_REJECT = 3"

definition RADIUS_ATTR_USER_NAME :: u8 where "RADIUS_ATTR_USER_NAME = 1"
definition RADIUS_ATTR_USER_PASSWORD :: u8 where "RADIUS_ATTR_USER_PASSWORD = 2"
definition RADIUS_ATTR_STATE :: u8 where "RADIUS_ATTR_STATE = 24"
definition RADIUS_ATTR_VENDOR_SPECIFIC :: u8 where "RADIUS_ATTR_VENDOR_SPECIFIC = 26"
definition RADIUS_ATTR_CALLING_STATION_ID :: u8 where "RADIUS_ATTR_CALLING_STATION_ID = 31"
definition RADIUS_ATTR_PROXY_STATE :: u8 where "RADIUS_ATTR_PROXY_STATE = 33"
definition RADIUS_ATTR_EGRESS_VLANID :: u8 where "RADIUS_ATTR_EGRESS_VLANID = 56"
definition RADIUS_ATTR_TUNNEL_TYPE :: u8 where "RADIUS_ATTR_TUNNEL_TYPE = 64"
definition RADIUS_ATTR_TUNNEL_MEDIUM_TYPE :: u8 where "RADIUS_ATTR_TUNNEL_MEDIUM_TYPE = 65"
definition RADIUS_ATTR_TUNNEL_PASSWORD :: u8 where "RADIUS_ATTR_TUNNEL_PASSWORD = 69"
definition RADIUS_ATTR_EAP_MESSAGE :: u8 where "RADIUS_ATTR_EAP_MESSAGE = 79"
definition RADIUS_ATTR_MESSAGE_AUTHENTICATOR :: u8 where "RADIUS_ATTR_MESSAGE_AUTHENTICATOR = 80"
definition RADIUS_ATTR_TUNNEL_PRIVATE_GROUP_ID :: u8 where "RADIUS_ATTR_TUNNEL_PRIVATE_GROUP_ID = 81"

definition RADIUS_MAX_ATTR_LEN :: nat where "RADIUS_MAX_ATTR_LEN = 253"
definition RADIUS_DEFAULT_MSG_SIZE :: nat where "RADIUS_DEFAULT_MSG_SIZE = 1024"
definition RADIUS_DEFAULT_ATTR_COUNT :: nat where "RADIUS_DEFAULT_ATTR_COUNT = 16"
definition RADIUS_MAX_MSG_LEN :: nat where "RADIUS_MAX_MSG_LEN = 4096"

record radius_msg =
  rm_buf :: wpabuf
  rm_attr_pos :: "nat list"
  rm_attr_size :: nat

abbreviation rm_data :: "radius_msg \<Rightarrow> bytes" where
  "rm_data msg \<equiv> wb_data (rm_buf msg)"

definition set_data :: "bytes \<Rightarrow> radius_msg \<Rightarrow> radius_msg" where
  "set_data xs msg = msg\<lparr>rm_buf := (rm_buf msg)\<lparr>wb_data := xs\<rparr>\<rparr>"

text \<open>The fields of \<open>struct radius_hdr\<close>.\<close>

definition hdr_code :: "radius_msg \<Rightarrow> u8" where
  "hdr_code msg = rm_data msg ! 0"

definition hdr_identifier :: "radius_msg \<Rightarrow> u8" where
  "hdr_identifier msg = rm_data msg ! 1"

definition hdr_length :: "radius_msg \<Rightarrow> u16" where
  "hdr_length msg = get_be16 (drop 2 (rm_data msg))"

definition hdr_authenticator :: "radius_msg \<Rightarrow> bytes" where
  "hdr_authenticator msg = take 16 (drop 4 (rm_data msg))"

text \<open>The fields of \<open>struct radius_attr_hdr\<close> at a position, and the value behind it.\<close>

definition attr_type :: "radius_msg \<Rightarrow> nat \<Rightarrow> u8" where
  "attr_type msg pos = rm_data msg ! pos"

definition attr_length :: "radius_msg \<Rightarrow> nat \<Rightarrow> nat" where
  "attr_length msg pos = unat (rm_data msg ! (pos + 1))"

definition attr_value :: "radius_msg \<Rightarrow> nat \<Rightarrow> bytes" where
  "attr_value msg pos = take (attr_length msg pos - 2) (drop (pos + 2) (rm_data msg))"

definition radius_msg_set_hdr :: "radius_msg \<Rightarrow> u8 \<Rightarrow> u8 \<Rightarrow> radius_msg" where
  "radius_msg_set_hdr msg code identifier = set_data (poke 0 [code, identifier] (rm_data msg)) msg"

definition radius_msg_new :: "env \<Rightarrow> u8 \<Rightarrow> u8 \<Rightarrow> hist \<Rightarrow> radius_msg option \<times> hist" where
  "radius_msg_new env code identifier h =
     (let (ok, h) = os_malloc env h in
      if \<not> ok then (None, h)
      else case wpabuf_alloc env RADIUS_DEFAULT_MSG_SIZE h of
        (None, h) \<Rightarrow> (None, h)
      | (Some buf, h) \<Rightarrow>
          let (ok, h) = os_malloc env h in
          if \<not> ok then (None, h)
          else let (buf, h) = wpabuf_put_data buf (replicate 20 0) h
               in (Some (radius_msg_set_hdr
                     \<lparr>rm_buf = buf, rm_attr_pos = [], rm_attr_size = RADIUS_DEFAULT_ATTR_COUNT\<rparr> code identifier), h))"

definition radius_msg_add_attr_to_array ::
  "env \<Rightarrow> radius_msg \<Rightarrow> nat \<Rightarrow> hist \<Rightarrow> int \<times> radius_msg \<times> hist" where
  "radius_msg_add_attr_to_array env msg pos h =
     (let (ok, msg, h) =
        (if rm_attr_size msg \<le> length (rm_attr_pos msg) then
           let (ok, h) = os_malloc env h
           in (ok, if ok then msg\<lparr>rm_attr_size := rm_attr_size msg * 2\<rparr> else msg, h)
         else (True, msg, h))
      in if \<not> ok then (- 1, msg, h) else (0, msg\<lparr>rm_attr_pos := rm_attr_pos msg @ [pos]\<rparr>, h))"

text \<open>The position of the new attribute, None for NULL.\<close>

definition radius_msg_add_attr ::
  "env \<Rightarrow> radius_msg \<Rightarrow> u8 \<Rightarrow> bytes \<Rightarrow> hist \<Rightarrow> nat option \<times> radius_msg \<times> hist" where
  "radius_msg_add_attr env msg type data h =
     (if RADIUS_MAX_ATTR_LEN < length data then (None, msg, h)
      else
        let buf_needed = 2 + length data;
            (r, buf, h) = (if wpabuf_tailroom (rm_buf msg) < buf_needed
                           then wpabuf_resize env (rm_buf msg) buf_needed h else (0, rm_buf msg, h));
            msg = msg\<lparr>rm_buf := buf\<rparr>
        in if r < 0 then (None, msg, h)
           else
             let pos = length (rm_data msg);
                 (buf, h) = wpabuf_put_data (rm_buf msg) [type, word_of_nat (2 + length data)] h;
                 (buf, h) = wpabuf_put_data buf data h;
                 (r, msg, h) = radius_msg_add_attr_to_array env (msg\<lparr>rm_buf := buf\<rparr>) pos h
             in (if r \<noteq> 0 then None else Some pos, msg, h))"

section \<open>Parsing\<close>

text \<open>The loop over the attributes; \<open>data\<close> are the bytes of the message, which it does not change.\<close>

function parse_attrs :: "env \<Rightarrow> bytes \<Rightarrow> radius_msg \<Rightarrow> nat \<Rightarrow> hist \<Rightarrow> radius_msg option \<times> hist" where
  "parse_attrs env data msg pos h =
     (if length data \<le> pos then (Some msg, h)
      else if length data - pos < 2 then (None, h)
      else
        let len = unat (data ! (pos + 1)) in
        if length data - pos < len \<or> len < 2 then (None, h)
        else
          let (r, msg, h) = radius_msg_add_attr_to_array env msg pos h
          in if r \<noteq> 0 then (None, h) else parse_attrs env data msg (pos + len) h)"
  by pat_completeness auto
termination
  by (relation "measure (\<lambda>(_, data, _, pos, _). length data - pos)") auto

declare parse_attrs.simps [simp del]

definition radius_msg_parse :: "env \<Rightarrow> bytes \<Rightarrow> hist \<Rightarrow> radius_msg option \<times> hist" where
  "radius_msg_parse env data h =
     (if length data < 20 then (None, h)
      else
        let msg_len = unat (get_be16 (drop 2 data)) in
        if msg_len < 20 \<or> length data < msg_len then (None, h)
        else
          let (ok, h) = os_malloc env h in
          if \<not> ok then (None, h)
          else case wpabuf_alloc_copy env (take msg_len data) h of
                 (None, h) \<Rightarrow> (None, h)
               | (Some buf, h) \<Rightarrow>
                   let (ok, h) = os_malloc env h in
                   if \<not> ok then (None, h)
                   else parse_attrs env (wb_data buf)
                          \<lparr>rm_buf = buf, rm_attr_pos = [], rm_attr_size = RADIUS_DEFAULT_ATTR_COUNT\<rparr> 20 h)"

section \<open>Reading attributes\<close>

definition find_attr :: "radius_msg \<Rightarrow> u8 \<Rightarrow> nat option" where
  "find_attr msg type = find (\<lambda>pos. attr_type msg pos = type) (rm_attr_pos msg)"

text \<open>The length of the value and as much of it as fits into the buffer of the caller.\<close>

definition radius_msg_get_attr :: "radius_msg \<Rightarrow> u8 \<Rightarrow> nat \<Rightarrow> int \<times> bytes" where
  "radius_msg_get_attr msg type len =
     (case find_attr msg type of
        None \<Rightarrow> (- 1, [])
      | Some pos \<Rightarrow>
          if attr_length msg pos < 2 then (- 1, [])
          else (int (attr_length msg pos - 2), take len (attr_value msg pos)))"

definition radius_msg_get_attr_int32 :: "radius_msg \<Rightarrow> u8 \<Rightarrow> u32 option" where
  "radius_msg_get_attr_int32 msg type =
     (let (res, val) = radius_msg_get_attr msg type 4 in if res \<noteq> 4 then None else Some (get_be32 val))"

text \<open>\<open>start\<close> is None for NULL: only attributes behind that position count.\<close>

definition radius_msg_get_attr_ptr :: "radius_msg \<Rightarrow> u8 \<Rightarrow> nat option \<Rightarrow> bytes option" where
  "radius_msg_get_attr_ptr msg type start =
     (case find (\<lambda>pos. attr_type msg pos = type \<and> (case start of None \<Rightarrow> True | Some s \<Rightarrow> s < pos)) (rm_attr_pos msg) of
        None \<Rightarrow> None
      | Some pos \<Rightarrow> if attr_length msg pos < 2 then None else Some (attr_value msg pos))"

definition radius_msg_count_attr :: "radius_msg \<Rightarrow> u8 \<Rightarrow> nat \<Rightarrow> nat" where
  "radius_msg_count_attr msg type min_len =
     length (filter (\<lambda>pos. attr_type msg pos = type \<and> 2 + min_len \<le> attr_length msg pos) (rm_attr_pos msg))"

fun copy_attrs ::
  "env \<Rightarrow> radius_msg \<Rightarrow> u8 \<Rightarrow> nat list \<Rightarrow> radius_msg \<Rightarrow> int \<Rightarrow> hist \<Rightarrow> int \<times> radius_msg \<times> hist" where
  "copy_attrs env src type [] dst count h = (count, dst, h)"
| "copy_attrs env src type (pos # ps) dst count h =
     (if attr_type src pos = type \<and> 2 \<le> attr_length src pos then
        case radius_msg_add_attr env dst type (attr_value src pos) h of
          (None, dst, h) \<Rightarrow> (- 1, dst, h)
        | (Some _, dst, h) \<Rightarrow> copy_attrs env src type ps dst (count + 1) h
      else copy_attrs env src type ps dst count h)"

definition radius_msg_copy_attr ::
  "env \<Rightarrow> radius_msg \<Rightarrow> radius_msg \<Rightarrow> u8 \<Rightarrow> hist \<Rightarrow> int \<times> radius_msg \<times> hist" where
  "radius_msg_copy_attr env dst src type h = copy_attrs env src type (rm_attr_pos src) dst 0 h"

function radius_msg_add_eap ::
  "env \<Rightarrow> radius_msg \<Rightarrow> bytes \<Rightarrow> hist \<Rightarrow> int \<times> radius_msg \<times> hist" where
  "radius_msg_add_eap env msg data h =
     (if data = [] then (1, msg, h)
      else case radius_msg_add_attr env msg RADIUS_ATTR_EAP_MESSAGE (take RADIUS_MAX_ATTR_LEN data) h of
             (None, msg, h) \<Rightarrow> (0, msg, h)
           | (Some _, msg, h) \<Rightarrow> radius_msg_add_eap env msg (drop RADIUS_MAX_ATTR_LEN data) h)"
  by pat_completeness auto
termination
  by (relation "measure (\<lambda>(_, _, data, _). length data)") (auto simp: RADIUS_MAX_ATTR_LEN_def)

declare radius_msg_add_eap.simps [simp del]

definition eap_parts :: "radius_msg \<Rightarrow> bytes list" where
  "eap_parts msg = map (attr_value msg)
     (filter (\<lambda>pos. attr_type msg pos = RADIUS_ATTR_EAP_MESSAGE \<and> 2 < attr_length msg pos) (rm_attr_pos msg))"

definition radius_msg_get_eap :: "env \<Rightarrow> radius_msg \<Rightarrow> hist \<Rightarrow> wpabuf option \<times> hist" where
  "radius_msg_get_eap env msg h =
     (let len = sum_list (map length (eap_parts msg)) in
      if len = 0 then (None, h)
      else case wpabuf_alloc env len h of
             (None, h) \<Rightarrow> (None, h)
           | (Some eap, h) \<Rightarrow>
               let (eap, h) = fold (\<lambda>d (eap, h). wpabuf_put_data eap d h) (eap_parts msg) (eap, h)
               in (Some eap, h))"

section \<open>Authenticators\<close>

text \<open>The positions of the Message-Authenticator attributes.\<close>

definition msg_auth_attrs :: "radius_msg \<Rightarrow> nat list" where
  "msg_auth_attrs msg =
     filter (\<lambda>pos. attr_type msg pos = RADIUS_ATTR_MESSAGE_AUTHENTICATOR) (rm_attr_pos msg)"

text \<open>
  \<open>radius_msg_verify_msg_auth\<close> returns 0 for a valid message.  The length of the attribute is not
  looked at: sixteen bytes behind its header are read, cleared and written back, also where the
  message ends before.
\<close>

definition radius_msg_verify_msg_auth ::
  "radius_msg \<Rightarrow> bytes \<Rightarrow> bytes option \<Rightarrow> hist \<Rightarrow> int \<times> hist" where
  "radius_msg_verify_msg_auth msg secret req_auth h =
     (case msg_auth_attrs msg of
        [pos] \<Rightarrow>
          let data = rm_data msg;
              h = (if length data < pos + 18 then E_ub Heap_Overrun # h else h);
              orig = take MD5_MAC_LEN (drop (pos + 2) data);
              cleared = take (length data) (poke (pos + 2) (replicate MD5_MAC_LEN 0) data);
              cleared = (case req_auth of None \<Rightarrow> cleared | Some a \<Rightarrow> poke 4 a cleared);
              auth = hmac_md5 secret cleared
          in (if orig = auth then 0 else 1, h)
      | _ \<Rightarrow> (1, h))"

text \<open>Code, identifier and length of the message, the authenticator of the request, the attributes.\<close>

definition response_auth :: "radius_msg \<Rightarrow> bytes \<Rightarrow> bytes \<Rightarrow> bytes" where
  "response_auth msg req_authenticator secret =
     md5_vector [take 4 (rm_data msg), req_authenticator, drop 20 (rm_data msg), secret]"

definition radius_msg_verify ::
  "radius_msg \<Rightarrow> bytes \<Rightarrow> radius_msg \<Rightarrow> bool \<Rightarrow> hist \<Rightarrow> int \<times> hist" where
  "radius_msg_verify msg secret sent_msg auth h =
     (let (r, h) = (if auth then radius_msg_verify_msg_auth msg secret (Some (hdr_authenticator sent_msg)) h
                    else (0, h))
      in if r \<noteq> 0 then (1, h)
         else (if response_auth msg (hdr_authenticator sent_msg) secret = hdr_authenticator msg then 0 else 1, h))"

definition put_length :: "radius_msg \<Rightarrow> radius_msg" where
  "put_length msg = set_data (poke 2 (put_be16 (word_of_nat (length (rm_data msg)))) (rm_data msg)) msg"

definition put_authenticator :: "bytes \<Rightarrow> radius_msg \<Rightarrow> radius_msg" where
  "put_authenticator a msg = set_data (poke 4 a (rm_data msg)) msg"

definition radius_msg_finish_srv ::
  "env \<Rightarrow> radius_msg \<Rightarrow> bytes \<Rightarrow> bytes \<Rightarrow> hist \<Rightarrow> int \<times> radius_msg \<times> hist" where
  "radius_msg_finish_srv env msg secret req_authenticator h =
     (case radius_msg_add_attr env msg RADIUS_ATTR_MESSAGE_AUTHENTICATOR (replicate MD5_MAC_LEN 0) h of
        (None, msg, h) \<Rightarrow> (- 1, msg, h)
      | (Some pos, msg, h) \<Rightarrow>
          let msg = put_authenticator req_authenticator (put_length msg);
              msg = set_data (poke (pos + 2) (hmac_md5 secret (rm_data msg)) (rm_data msg)) msg;
              msg = put_authenticator (response_auth msg req_authenticator secret) msg
          in (if 0xffff < length (rm_data msg) then - 1 else 0, msg, h))"

definition radius_msg_finish ::
  "env \<Rightarrow> radius_msg \<Rightarrow> bytes option \<Rightarrow> hist \<Rightarrow> int \<times> radius_msg \<times> hist" where
  "radius_msg_finish env msg secret h =
     (let (ok, msg, h) =
        (case secret of
           None \<Rightarrow> (True, put_length msg, h)
         | Some s \<Rightarrow>
             (case radius_msg_add_attr env msg RADIUS_ATTR_MESSAGE_AUTHENTICATOR (replicate MD5_MAC_LEN 0) h of
                (None, msg, h) \<Rightarrow> (False, msg, h)
              | (Some pos, msg, h) \<Rightarrow>
                  let msg = put_length msg
                  in (True, set_data (poke (pos + 2) (hmac_md5 s (rm_data msg)) (rm_data msg)) msg, h)))
      in if \<not> ok then (- 1, msg, h)
         else (if 0xffff < length (rm_data msg) then - 1 else 0, msg, h))"

definition radius_msg_finish_das_resp ::
  "env \<Rightarrow> radius_msg \<Rightarrow> bytes \<Rightarrow> bytes \<Rightarrow> hist \<Rightarrow> int \<times> radius_msg \<times> hist" where
  "radius_msg_finish_das_resp env msg secret req_authenticator h =
     (case radius_msg_add_attr env msg RADIUS_ATTR_MESSAGE_AUTHENTICATOR (replicate MD5_MAC_LEN 0) h of
        (None, msg, h) \<Rightarrow> (- 1, msg, h)
      | (Some pos, msg, h) \<Rightarrow>
          let msg = put_authenticator req_authenticator (put_length msg);
              msg = set_data (poke (pos + 2) (hmac_md5 secret (rm_data msg)) (rm_data msg)) msg;
              msg = put_authenticator (md5_vector [rm_data msg, secret]) msg
          in (if 0xffff < length (rm_data msg) then - 1 else 0, msg, h))"

definition radius_msg_finish_acct :: "radius_msg \<Rightarrow> bytes \<Rightarrow> radius_msg" where
  "radius_msg_finish_acct msg secret =
     (let msg = put_authenticator (replicate MD5_MAC_LEN 0) (put_length msg)
      in put_authenticator (md5_vector [rm_data msg, secret]) msg)"

definition radius_msg_finish_acct_resp :: "radius_msg \<Rightarrow> bytes \<Rightarrow> bytes \<Rightarrow> radius_msg" where
  "radius_msg_finish_acct_resp msg secret req_authenticator =
     (let msg = put_authenticator req_authenticator (put_length msg)
      in put_authenticator (md5_vector [rm_data msg, secret]) msg)"

definition radius_msg_verify_acct_req :: "radius_msg \<Rightarrow> bytes \<Rightarrow> bool" where
  "radius_msg_verify_acct_req msg secret \<longleftrightarrow>
     hdr_authenticator msg \<noteq>
       md5_vector [take 4 (rm_data msg), replicate MD5_MAC_LEN 0, drop 20 (rm_data msg), secret]"

definition radius_msg_verify_das_req :: "radius_msg \<Rightarrow> bytes \<Rightarrow> bool \<Rightarrow> hist \<Rightarrow> int \<times> hist" where
  "radius_msg_verify_das_req msg secret require_message_authenticator h =
     (if radius_msg_verify_acct_req msg secret then (1, h)
      else case msg_auth_attrs msg of
             [] \<Rightarrow> (if require_message_authenticator then 1 else 0, h)
           | [pos] \<Rightarrow> radius_msg_verify_msg_auth msg secret (Some (replicate 16 0)) h
           | _ \<Rightarrow> (1, h))"

section \<open>The bytes of a message\<close>

text \<open>An attribute as type and value, and the bytes it becomes.\<close>

definition enc_attr :: "u8 \<times> bytes \<Rightarrow> bytes" where
  "enc_attr a = fst a # word_of_nat (2 + length (snd a)) # snd a"

definition enc_attrs :: "(u8 \<times> bytes) list \<Rightarrow> bytes" where
  "enc_attrs as = concat (map enc_attr as)"

fun attr_offsets :: "nat \<Rightarrow> (u8 \<times> bytes) list \<Rightarrow> nat list" where
  "attr_offsets p [] = []"
| "attr_offsets p (a # as) = p # attr_offsets (p + 2 + length (snd a)) as"

text \<open>
  The message with the header \<open>hdr\<close> and the attributes \<open>as\<close>: its bytes, and the positions that
  are kept of the attributes.
\<close>

definition represents :: "radius_msg \<Rightarrow> bytes \<Rightarrow> (u8 \<times> bytes) list \<Rightarrow> bool" where
  "represents msg hdr as \<longleftrightarrow>
     length hdr = 20 \<and> rm_data msg = hdr @ enc_attrs as \<and> rm_attr_pos msg = attr_offsets 20 as \<and>
     (\<forall>a \<in> set as. length (snd a) \<le> RADIUS_MAX_ATTR_LEN)"

lemma unat_byte: "n < 256 \<Longrightarrow> unat (word_of_nat n :: u8) = n"
  by (simp add: unat_of_nat)

lemma length_enc_attr [simp]: "length (enc_attr a) = 2 + length (snd a)"
  by (simp add: enc_attr_def)

lemma enc_attrs_simps [simp]:
  "enc_attrs [] = []" "enc_attrs (a # as) = enc_attr a @ enc_attrs as"
  "enc_attrs (as @ bs) = enc_attrs as @ enc_attrs bs"
  by (simp_all add: enc_attrs_def)

lemma attr_offsets_append:
  "attr_offsets p (as @ bs) = attr_offsets p as @ attr_offsets (p + length (enc_attrs as)) bs"
  by (induction as arbitrary: p) (simp_all add: add.assoc)

lemma enc_attr_at:
  assumes "rm_data msg = pre @ enc_attr a @ rest" and "length (snd a) \<le> RADIUS_MAX_ATTR_LEN"
  shows "attr_type msg (length pre) = fst a" and "attr_length msg (length pre) = 2 + length (snd a)"
    and "attr_value msg (length pre) = snd a"
proof -
  have "unat (word_of_nat (2 + length (snd a)) :: u8) = 2 + length (snd a)"
    using assms(2) by (intro unat_byte) (simp add: RADIUS_MAX_ATTR_LEN_def)
  with assms(1) show "attr_type msg (length pre) = fst a"
    and len: "attr_length msg (length pre) = 2 + length (snd a)"
    by (simp_all add: attr_type_def attr_length_def nth_append enc_attr_def)
  show "attr_value msg (length pre) = snd a"
    by (simp add: attr_value_def len assms(1)) (simp add: enc_attr_def)
qed

text \<open>What the functions that walk over the attributes see.\<close>

lemma offsets_view:
  assumes "rm_data msg = pre @ enc_attrs as" and "\<forall>a \<in> set as. length (snd a) \<le> RADIUS_MAX_ATTR_LEN"
  shows "map (\<lambda>pos. (attr_type msg pos, attr_value msg pos)) (attr_offsets (length pre) as) = as"
    and "\<forall>pos \<in> set (attr_offsets (length pre) as). 2 \<le> attr_length msg pos \<and>
           attr_length msg pos = 2 + length (attr_value msg pos)"
  using assms
proof (induction as arbitrary: pre)
  case (Cons a as)
  {
    case 1
    then have data: "rm_data msg = pre @ enc_attr a @ enc_attrs as" and le: "length (snd a) \<le> RADIUS_MAX_ATTR_LEN"
      by simp_all
    from Cons.IH(1) [of "pre @ enc_attr a"] 1 show ?case
      using enc_attr_at [OF data le] by simp
  next
    case 2
    then have data: "rm_data msg = pre @ enc_attr a @ enc_attrs as" and le: "length (snd a) \<le> RADIUS_MAX_ATTR_LEN"
      by simp_all
    from Cons.IH(2) [of "pre @ enc_attr a"] 2 show ?case
      using enc_attr_at [OF data le] by simp
  }
qed simp_all

lemma represents_view:
  assumes "represents msg hdr as"
  shows "map (\<lambda>pos. (attr_type msg pos, attr_value msg pos)) (rm_attr_pos msg) = as"
    and "\<And>pos. pos \<in> set (rm_attr_pos msg) \<Longrightarrow> 2 \<le> attr_length msg pos \<and>
           attr_length msg pos = 2 + length (attr_value msg pos)"
  using offsets_view [of msg hdr as] assms by (auto simp: represents_def)

section \<open>Building messages\<close>

lemma add_attr_to_array_frame:
  assumes "radius_msg_add_attr_to_array env msg pos h = (r, msg', h')"
  shows "rm_buf msg' = rm_buf msg" and "r = 0 \<Longrightarrow> rm_attr_pos msg' = rm_attr_pos msg @ [pos]"
    and "\<exists>n. h' = replicate n E_malloc @ h" and "alloc_total env \<Longrightarrow> r = 0"
  using assms
  by (auto simp: radius_msg_add_attr_to_array_def os_malloc_def alloc_total_def Let_def split: if_splits
      intro: exI [of _ "Suc 0"] exI [of _ 0])

text \<open>
  Adding an attribute never overruns the buffer: it only allocates, and never calls \<open>abort\<close>.
\<close>

lemma wpabuf_put_data_fits:
  "length (wb_data buf) + length data \<le> wb_size buf \<Longrightarrow>
   wpabuf_put_data buf data h = (buf\<lparr>wb_data := wb_data buf @ data\<rparr>, h)"
  by (simp add: wpabuf_put_data_def Let_def)

definition msg_fits :: "radius_msg \<Rightarrow> bool" where
  "msg_fits msg \<longleftrightarrow> length (rm_data msg) \<le> wb_size (rm_buf msg)"

lemma make_room:
  assumes "(if wpabuf_tailroom buf < n then wpabuf_resize env buf n h else (0, buf, h)) = (r, buf', h')"
    and "length (wb_data buf) \<le> wb_size buf"
  shows "wb_data buf' = wb_data buf" and "wb_size buf \<le> wb_size buf'"
    and "\<not> r < 0 \<Longrightarrow> length (wb_data buf) + n \<le> wb_size buf'"
    and "\<exists>k. h' = replicate k E_malloc @ h" and "alloc_total env \<Longrightarrow> r = 0"
  using assms
  by (auto simp: wpabuf_tailroom_def wpabuf_resize_def os_malloc_def alloc_total_def Let_def split: if_splits
      intro: exI [of _ "Suc 0"] exI [of _ 0])

lemma radius_msg_add_attr_cases:
  assumes run: "radius_msg_add_attr env msg type data h = (r, msg', h')" and fits: "msg_fits msg"
  shows "msg_fits msg' \<and> (\<exists>n. h' = replicate n E_malloc @ h) \<and>
    (\<forall>pos. r = Some pos \<longrightarrow> length data \<le> RADIUS_MAX_ATTR_LEN \<and> pos = length (rm_data msg) \<and>
          rm_data msg' = rm_data msg @ enc_attr (type, data) \<and> rm_attr_pos msg' = rm_attr_pos msg @ [pos]) \<and>
    (alloc_total env \<longrightarrow> length data \<le> RADIUS_MAX_ATTR_LEN \<longrightarrow> r = Some (length (rm_data msg)))"
proof (cases "RADIUS_MAX_ATTR_LEN < length data")
  case True
  with run fits show ?thesis
    by (auto simp: radius_msg_add_attr_def intro: exI [of _ 0])
next
  case False
  obtain r1 buf h1 where room: "(if wpabuf_tailroom (rm_buf msg) < 2 + length data
      then wpabuf_resize env (rm_buf msg) (2 + length data) h else (0, rm_buf msg, h)) = (r1, buf, h1)"
    by (metis prod_cases3)
  note room' = make_room [OF room fits [unfolded msg_fits_def]]
  let ?b = "buf\<lparr>wb_data := wb_data buf @ enc_attr (type, data)\<rparr>"
  obtain r2 m2 h2 where arr:
    "radius_msg_add_attr_to_array env (msg\<lparr>rm_buf := ?b\<rparr>) (length (wb_data buf)) h1 = (r2, m2, h2)"
    by (metis prod_cases3)
  note arr' = add_attr_to_array_frame [OF arr]
  obtain k where k: "h1 = replicate k E_malloc @ h"
    using room'(4) by blast
  obtain l where l: "h2 = replicate l E_malloc @ h1"
    using arr'(3) by blast
  have grow: "\<exists>n. h2 = replicate n E_malloc @ h"
    by (rule exI [of _ "l + k"]) (simp add: l k replicate_add)
  have res: "(r, msg', h') = (if r1 < 0 then (None, msg\<lparr>rm_buf := buf\<rparr>, h1)
                              else (if r2 \<noteq> 0 then None else Some (length (rm_data msg)), m2, h2))"
  proof (cases "r1 < 0")
    case True
    with run [unfolded radius_msg_add_attr_def Let_def room prod.case] False show ?thesis
      by simp
  next
    case ok: False
    with room'(1,3) have "wpabuf_put_data buf [type, word_of_nat (2 + length data)] h1 =
        (buf\<lparr>wb_data := wb_data buf @ [type, word_of_nat (2 + length data)]\<rparr>, h1)"
      by (intro wpabuf_put_data_fits) simp
    moreover from ok room'(1,3) have "wpabuf_put_data (buf\<lparr>wb_data := wb_data buf @ [type, word_of_nat (2 + length data)]\<rparr>) data h1 =
        (?b, h1)"
      by (subst wpabuf_put_data_fits) (simp_all add: enc_attr_def)
    ultimately show ?thesis
      using run [unfolded radius_msg_add_attr_def Let_def room prod.case] False ok arr room'(1) by (auto split: if_splits)
  qed
  show ?thesis
    using res room' arr'(1,2,4) grow False fits
    by (auto simp: msg_fits_def split: if_splits)
qed

lemma radius_msg_add_attr_represents:
  assumes "radius_msg_add_attr env msg type data h = (Some pos, msg', h')" and "msg_fits msg"
    and "represents msg hdr as"
  shows "represents msg' hdr (as @ [(type, data)])" and "msg_fits msg'" and "pos = length (rm_data msg)"
  using radius_msg_add_attr_cases [OF assms(1,2)] assms(3)
  by (auto simp: represents_def attr_offsets_append)

lemma radius_msg_add_attr_total:
  assumes "alloc_total env" and "msg_fits msg" and "represents msg hdr as" and "length data \<le> RADIUS_MAX_ATTR_LEN"
  obtains msg' n where
    "radius_msg_add_attr env msg type data h = (Some (length (rm_data msg)), msg', replicate n E_malloc @ h)"
    "represents msg' hdr (as @ [(type, data)])" "msg_fits msg'"
proof -
  obtain r msg' h' where run: "radius_msg_add_attr env msg type data h = (r, msg', h')"
    by (metis prod_cases3)
  with radius_msg_add_attr_cases [OF run assms(2)] assms(1,4)
  have r: "r = Some (length (rm_data msg))"
    by blast
  obtain n where "h' = replicate n E_malloc @ h"
    using radius_msg_add_attr_cases [OF run assms(2)] by blast
  with that run r radius_msg_add_attr_represents [OF run [unfolded r] assms(2,3)] show ?thesis
    by blast
qed

lemma radius_msg_new_represents:
  assumes "radius_msg_new env code identifier h = (Some msg, h')"
  shows "represents msg (code # identifier # replicate 18 0) []" and "msg_fits msg"
    and "\<exists>n. h' = replicate n E_malloc @ h"
  using assms
  by (auto simp: radius_msg_new_def represents_def msg_fits_def wpabuf_alloc_def wpabuf_put_data_def os_malloc_def
      radius_msg_set_hdr_def set_data_def poke_def RADIUS_DEFAULT_MSG_SIZE_def Let_def numeral_eq_Suc
      split: if_splits intro!: exI [of _ "Suc (Suc (Suc 0))"])

lemma radius_msg_new_total:
  "alloc_total env \<Longrightarrow> \<exists>msg h'. radius_msg_new env code identifier h = (Some msg, h')"
  by (simp add: radius_msg_new_def wpabuf_alloc_def os_malloc_total)
    (simp add: wpabuf_put_data_def RADIUS_DEFAULT_MSG_SIZE_def Let_def)

section \<open>Parsing\<close>

lemma parse_attrs_enc:
  assumes "alloc_total env" and "\<forall>a \<in> set as. length (snd a) \<le> RADIUS_MAX_ATTR_LEN"
  shows "\<exists>msg' n. parse_attrs env (pre @ enc_attrs as) msg (length pre) h =
           (Some msg', replicate n E_malloc @ h) \<and> rm_buf msg' = rm_buf msg \<and>
         rm_attr_pos msg' = rm_attr_pos msg @ attr_offsets (length pre) as"
  using assms(2)
proof (induction as arbitrary: pre msg h)
  case Nil
  then show ?case
    by (subst parse_attrs.simps) (auto intro: exI [of _ 0])
next
  case (Cons a as)
  obtain r m1 h1 where arr: "radius_msg_add_attr_to_array env msg (length pre) h = (r, m1, h1)"
    by (metis prod_cases3)
  note arr' = add_attr_to_array_frame [OF arr]
  have r: "r = 0"
    using arr'(4) assms(1) by blast
  obtain k where k: "h1 = replicate k E_malloc @ h"
    using arr'(3) by blast
  from Cons.prems have "unat (word_of_nat (2 + length (snd a)) :: u8) = 2 + length (snd a)"
    by (intro unat_byte) (simp add: RADIUS_MAX_ATTR_LEN_def)
  then have len: "unat ((pre @ enc_attrs (a # as)) ! (length pre + 1)) = 2 + length (snd a)"
    by (simp add: nth_append enc_attr_def)
  have "parse_attrs env (pre @ enc_attrs (a # as)) msg (length pre) h =
        parse_attrs env ((pre @ enc_attr a) @ enc_attrs as) m1 (length (pre @ enc_attr a)) h1"
    by (subst parse_attrs.simps) (simp add: len [simplified] arr r Let_def)
  with Cons.IH [of "pre @ enc_attr a" m1 h1] Cons.prems arr'(1,2) r show ?case
    by (auto simp: k replicate_add [symmetric] simp flip: append_assoc)
qed

lemma enc_attr_split:
  assumes "2 \<le> length xs" and "unat (xs ! 1) \<le> length xs" and "2 \<le> unat (xs ! 1)"
  shows "xs = enc_attr (xs ! 0, take (unat (xs ! 1) - 2) (drop 2 xs)) @ drop (unat (xs ! 1)) xs"
proof -
  obtain t l ys where xs: "xs = t # l # ys"
    using assms(1) by (cases xs rule: remdups_adj.cases) auto
  define n where "n = unat l - 2"
  with assms(3) xs have n: "unat l = Suc (Suc n)"
    by simp
  have "word_of_nat (Suc (Suc n)) = l"
    by (simp flip: n del: of_nat_Suc)
  moreover have "n \<le> length ys"
    using assms(2) xs n by simp
  ultimately show ?thesis
    by (simp add: xs n enc_attr_def min_absorb2 del: of_nat_Suc)
qed

lemma parse_attrs_sound:
  assumes "parse_attrs env data msg pos h = (Some msg', h')" and "pos \<le> length data"
  shows "\<exists>as. drop pos data = enc_attrs as \<and> (\<forall>a \<in> set as. length (snd a) \<le> RADIUS_MAX_ATTR_LEN) \<and>
           rm_buf msg' = rm_buf msg \<and> rm_attr_pos msg' = rm_attr_pos msg @ attr_offsets pos as"
  using assms
proof (induction env data msg pos h arbitrary: msg' h' rule: parse_attrs.induct)
  case (1 env data msg pos h)
  show ?case
  proof (cases "length data \<le> pos")
    case True
    with "1.prems" show ?thesis
      by (subst (asm) parse_attrs.simps) (auto intro: exI [of _ "[]"])
  next
    case more: False
    let ?len = "unat (data ! (pos + 1))"
    obtain r m1 h1 where arr: "radius_msg_add_attr_to_array env msg pos h = (r, m1, h1)"
      by (metis prod_cases3)
    note arr' = add_attr_to_array_frame [OF arr]
    from "1.prems"(1) more have two: "2 \<le> length data - pos" and len: "?len \<le> length data - pos" "2 \<le> ?len"
      and r: "r = 0" and rest: "parse_attrs env data m1 (pos + ?len) h1 = (Some msg', h')"
      by (subst (asm) parse_attrs.simps, simp add: arr Let_def split: if_splits)+
    have fit: "pos + ?len \<le> length data"
      using len more by linarith
    have "\<not> length data - pos < 2" "\<not> (length data - pos < ?len \<or> ?len < 2)" "\<not> r \<noteq> 0"
      using two len r by simp_all
    from "1.IH" [OF more this(1) refl this(2) arr [symmetric] refl refl this(3) rest fit]
    obtain as where as: "drop (pos + ?len) data = enc_attrs as" "\<forall>a \<in> set as. length (snd a) \<le> RADIUS_MAX_ATTR_LEN"
      "rm_buf msg' = rm_buf m1" "rm_attr_pos msg' = rm_attr_pos m1 @ attr_offsets (pos + ?len) as"
      by blast
    let ?a = "(data ! pos, take (?len - 2) (drop (pos + 2) data))"
    have "drop pos data = enc_attr ?a @ drop (pos + ?len) data"
      using enc_attr_split [of "drop pos data"] two len more by (simp add: add.commute)
    moreover have "length (snd ?a) = ?len - 2"
      using len by simp
    moreover have "?len < 256"
      by (rule unat_u8_less)
    then have "?len - 2 \<le> RADIUS_MAX_ATTR_LEN"
      unfolding RADIUS_MAX_ATTR_LEN_def by linarith
    moreover have "pos + 2 + (?len - 2) = pos + ?len"
      using len by linarith
    ultimately have "drop pos data = enc_attrs (?a # as)"
      and "\<forall>a \<in> set (?a # as). length (snd a) \<le> RADIUS_MAX_ATTR_LEN"
      and "attr_offsets pos (?a # as) = pos # attr_offsets (pos + ?len) as"
      using as(2) by (simp_all only: as(1) enc_attrs_simps attr_offsets.simps ball_simps list.set insert_iff)
    with as(3,4) arr'(1,2) r show ?thesis
      by (intro exI [of _ "?a # as"]) simp
  qed
qed

text \<open>The bytes of a message: a header with the length of the whole, attributes, anything.\<close>

definition message_bytes :: "bytes \<Rightarrow> bytes \<Rightarrow> (u8 \<times> bytes) list \<Rightarrow> bytes \<Rightarrow> bool" where
  "message_bytes data hdr as rest \<longleftrightarrow>
     data = hdr @ enc_attrs as @ rest \<and> length hdr = 20 \<and>
     unat (get_be16 (drop 2 hdr)) = 20 + length (enc_attrs as) \<and>
     (\<forall>a \<in> set as. length (snd a) \<le> RADIUS_MAX_ATTR_LEN)"

lemma get_be16_prefix: "2 \<le> length xs \<Longrightarrow> get_be16 (xs @ ys) = get_be16 xs"
  by (cases xs) (auto simp: get_be16_def nth_append)

lemma radius_msg_parse_complete:
  assumes "alloc_total env" and "message_bytes data hdr as rest"
  shows "\<exists>msg n. radius_msg_parse env data h = (Some msg, replicate n E_malloc @ h) \<and>
           represents msg hdr as \<and> msg_fits msg"
proof -
  from assms(2) have data: "data = hdr @ enc_attrs as @ rest" "length hdr = 20"
    and len: "unat (get_be16 (drop 2 data)) = 20 + length (enc_attrs as)"
    and small: "\<forall>a \<in> set as. length (snd a) \<le> RADIUS_MAX_ATTR_LEN"
    by (simp_all add: message_bytes_def get_be16_prefix)
  let ?m = "\<lparr>rm_buf = \<lparr>wb_size = 20 + length (enc_attrs as), wb_data = hdr @ enc_attrs as\<rparr>,
             rm_attr_pos = [], rm_attr_size = RADIUS_DEFAULT_ATTR_COUNT\<rparr>"
  let ?h = "E_malloc # E_malloc # E_malloc # h"
  have tk: "take (20 + length (enc_attrs as)) data = hdr @ enc_attrs as" "\<not> length data < 20"
    "\<not> length data < 20 + length (enc_attrs as)"
    using data by simp_all
  have "radius_msg_parse env data h = parse_attrs env (hdr @ enc_attrs as) ?m (length hdr) ?h"
    using tk by (simp add: radius_msg_parse_def len os_malloc_total [OF assms(1)] wpabuf_alloc_copy_def
        wpabuf_alloc_def wpabuf_put_data_def data(2) Let_def)
  moreover obtain msg n where p: "parse_attrs env (hdr @ enc_attrs as) ?m (length hdr) ?h =
      (Some msg, replicate n E_malloc @ ?h)" "rm_buf msg = rm_buf ?m" "rm_attr_pos msg = attr_offsets (length hdr) as"
    using parse_attrs_enc [OF assms(1) small, of hdr ?m ?h] by auto
  moreover have "replicate n E_malloc @ ?h = replicate (n + 3) E_malloc @ h"
    by (simp add: numeral_3_eq_3 replicate_app_Cons_same)
  ultimately show ?thesis
    using data small by (auto simp: represents_def msg_fits_def)
qed

lemma radius_msg_parse_sound:
  assumes "radius_msg_parse env data h = (Some msg, h')"
  shows "\<exists>hdr as rest. message_bytes data hdr as rest \<and> represents msg hdr as"
proof -
  let ?n = "unat (get_be16 (drop 2 data))"
  from assms have n: "20 \<le> length data" "20 \<le> ?n" "?n \<le> length data"
    by (auto simp: radius_msg_parse_def Let_def split: if_splits)
  then have tk: "length (take ?n data) = ?n"
    by simp
  from assms n obtain buf h1 h2 where alloc: "wpabuf_alloc_copy env (take ?n data) h1 = (Some buf, h2)"
    and parse: "\<exists>h3. parse_attrs env (wb_data buf)
      \<lparr>rm_buf = buf, rm_attr_pos = [], rm_attr_size = RADIUS_DEFAULT_ATTR_COUNT\<rparr> 20 h3 = (Some msg, h')"
    by (auto simp: radius_msg_parse_def Let_def split: if_splits prod.splits option.splits)
  from alloc have buf: "wb_data buf = take ?n data"
    by (auto simp: wpabuf_alloc_copy_def wpabuf_alloc_def wpabuf_put_data_def Let_def
        split: if_splits prod.splits option.splits)
  from parse obtain h3 where "parse_attrs env (take ?n data)
      \<lparr>rm_buf = buf, rm_attr_pos = [], rm_attr_size = RADIUS_DEFAULT_ATTR_COUNT\<rparr> 20 h3 = (Some msg, h')"
    unfolding buf by blast
  from parse_attrs_sound [OF this] n obtain as where as: "drop 20 (take ?n data) = enc_attrs as"
    "\<forall>a \<in> set as. length (snd a) \<le> RADIUS_MAX_ATTR_LEN" "rm_buf msg = buf" "rm_attr_pos msg = attr_offsets 20 as"
    by auto
  have split: "take ?n data = take 20 data @ enc_attrs as"
    using n append_take_drop_id [of 20 "take ?n data"] by (simp add: as(1) min_absorb1)
  have "represents msg (take 20 data) as"
    using as n buf split by (simp add: represents_def)
  moreover have "data = take 20 data @ enc_attrs as @ drop ?n data"
    using split append_take_drop_id [of ?n data] by (metis append_assoc)
  moreover have "?n = 20 + length (enc_attrs as)"
    using arg_cong [OF as(1), of length] n by simp
  moreover have "get_be16 (drop 2 (take 20 data)) = get_be16 (drop 2 data)"
    using n by (simp add: get_be16_def)
  ultimately show ?thesis
    using n as(2) by (intro exI [of _ "take 20 data"] exI [of _ as] exI [of _ "drop ?n data"])
      (simp add: message_bytes_def)
qed

text \<open>
  C9: \<open>radius_msg_parse\<close> accepts exactly the byte strings that start with a message: a header
  whose length field gives the length of the header and the attributes, and attributes each with
  the length of its own bytes.  The message that is returned has that header and these attributes.
\<close>

theorem radius_msg_parse_wellformed:
  assumes "alloc_total env"
  shows "case fst (radius_msg_parse env data h) of
           Some msg \<Rightarrow> \<exists>hdr as rest. message_bytes data hdr as rest \<and> represents msg hdr as
         | None \<Rightarrow> \<not> (\<exists>hdr as rest. message_bytes data hdr as rest)"
proof (cases "radius_msg_parse env data h")
  case (Pair r h')
  show ?thesis
  proof (cases r)
    case None
    with Pair radius_msg_parse_complete [OF assms, of data _ _ _ h] show ?thesis
      by auto
  next
    case (Some msg)
    with Pair radius_msg_parse_sound [of env data h msg h'] show ?thesis
      by simp
  qed
qed

theorem radius_msg_parse_wellformed_witness:
  "\<exists>hdr as rest. message_bytes ([1, 5, 0, 23] @ replicate 16 9 @ [1, 3, 65]) hdr as rest"
proof -
  let ?d = "[1, 5, 0, 23] @ replicate 16 9 @ [1, 3, 65]"
  have "case fst (radius_msg_parse ideal_env ?d []) of None \<Rightarrow> False | Some _ \<Rightarrow> True"
    by code_simp
  then show ?thesis
    using radius_msg_parse_wellformed [OF ideal_alloc, of ?d "[]"] by (auto split: option.splits)
qed

section \<open>Signing and verifying\<close>

lemma poke_middle:
  "length pre = n \<Longrightarrow> length old = length new \<Longrightarrow> poke n new (pre @ old @ post) = pre @ new @ post"
  by (simp add: poke_def)

text \<open>
  The message that \<open>radius_msg_finish_srv\<close> makes of a code, an identifier and attributes: header
  and attributes.
\<close>

definition signed_hdr :: "u8 \<Rightarrow> u8 \<Rightarrow> (u8 \<times> bytes) list \<Rightarrow> bytes" where
  "signed_hdr c i as = [c, i] @ put_be16 (word_of_nat (38 + length (enc_attrs as)))"

definition msg_auth :: "bytes \<Rightarrow> bytes \<Rightarrow> u8 \<Rightarrow> u8 \<Rightarrow> (u8 \<times> bytes) list \<Rightarrow> bytes" where
  "msg_auth secret req_auth c i as =
     hmac_md5 secret (signed_hdr c i as @ req_auth @
       enc_attrs (as @ [(RADIUS_ATTR_MESSAGE_AUTHENTICATOR, replicate 16 0)]))"

definition signed_attrs :: "bytes \<Rightarrow> bytes \<Rightarrow> u8 \<Rightarrow> u8 \<Rightarrow> (u8 \<times> bytes) list \<Rightarrow> (u8 \<times> bytes) list" where
  "signed_attrs secret req_auth c i as =
     as @ [(RADIUS_ATTR_MESSAGE_AUTHENTICATOR, msg_auth secret req_auth c i as)]"

definition reply_auth :: "bytes \<Rightarrow> bytes \<Rightarrow> u8 \<Rightarrow> u8 \<Rightarrow> (u8 \<times> bytes) list \<Rightarrow> bytes" where
  "reply_auth secret req_auth c i as =
     md5_vector [signed_hdr c i as, req_auth, enc_attrs (signed_attrs secret req_auth c i as), secret]"

lemma length_signed_hdr [simp]: "length (signed_hdr c i as) = 4"
  by (simp add: signed_hdr_def put_be16_def)

lemma length_msg_auth [simp]: "length (msg_auth secret req_auth c i as) = 16"
  by (simp add: msg_auth_def)

lemma length_reply_auth [simp]: "length (reply_auth secret req_auth c i as) = 16"
  by (simp add: reply_auth_def)

lemma length_signed_attrs [simp]:
  "length (enc_attrs (signed_attrs secret req_auth c i as)) = 18 + length (enc_attrs as)"
  by (simp add: signed_attrs_def)

lemma set_data_simps [simp]:
  "rm_data (set_data xs msg) = xs" "rm_attr_pos (set_data xs msg) = rm_attr_pos msg"
  by (simp_all add: set_data_def)

lemma radius_msg_finish_srv_signs:
  assumes "alloc_total env" and "represents msg ([c, i] @ hdr) as" and "msg_fits msg"
    and auth: "length req_auth = 16"
  shows "\<exists>msg' n. radius_msg_finish_srv env msg secret req_auth h =
           (if 0xffff < 38 + length (enc_attrs as) then - 1 else 0, msg', replicate n E_malloc @ h) \<and>
         represents msg' (signed_hdr c i as @ reply_auth secret req_auth c i as) (signed_attrs secret req_auth c i as)"
proof -
  let ?A = RADIUS_ATTR_MESSAGE_AUTHENTICATOR and ?z = "replicate 16 0 :: bytes"
  from assms(2) have hdr: "length hdr = 18" and data: "rm_data msg = [c, i] @ hdr @ enc_attrs as"
    by (simp_all add: represents_def)
  obtain m1 n where add: "radius_msg_add_attr env msg ?A ?z h = (Some (length (rm_data msg)), m1, replicate n E_malloc @ h)"
    and m1: "represents m1 ([c, i] @ hdr) (as @ [(?A, ?z)])"
    by (rule radius_msg_add_attr_total [OF assms(1,3,2), of ?z ?A h]) (simp add: RADIUS_MAX_ATTR_LEN_def)
  define h1 h2 where "h1 = take 2 hdr" and "h2 = drop 2 hdr"
  then have parts: "hdr = h1 @ h2" "length h1 = 2" "length h2 = 16"
    using hdr by simp_all
  have enc: "enc_attr (?A, v) = [?A, 18] @ v" if "length v = 16" for v
    by (simp add: enc_attr_def that)
  define E where "E = enc_attrs as"
  define S where "S = signed_hdr c i as"
  define mac where "mac = msg_auth secret req_auth c i as"
  have m1_data: "rm_data m1 = [c, i] @ h1 @ h2 @ E @ [?A, 18] @ ?z"
    using m1 by (simp add: represents_def enc E_def parts)
  then have "rm_data (put_length m1) = S @ h2 @ E @ [?A, 18] @ ?z"
    using poke_middle [of "[c, i]" 2 h1 "put_be16 (word_of_nat (38 + length E))" "h2 @ E @ [?A, 18] @ ?z"] parts
    by (simp add: put_length_def S_def signed_hdr_def put_be16_def E_def)
  then have D: "rm_data (put_authenticator req_auth (put_length m1)) = S @ req_auth @ E @ [?A, 18] @ ?z"
    using poke_middle [of S 4 h2 req_auth] parts auth by (simp add: put_authenticator_def S_def)
  have mac: "hmac_md5 secret (S @ req_auth @ E @ [?A, 18] @ ?z) = mac"
    by (simp add: mac_def msg_auth_def S_def E_def enc)
  have M: "poke (length (rm_data msg) + 2) mac (S @ req_auth @ E @ [?A, 18] @ ?z) = S @ req_auth @ E @ [?A, 18] @ mac"
    using poke_middle [of "S @ req_auth @ E @ [?A, 18]" "length (rm_data msg) + 2" ?z mac "[]"] auth
    by (simp add: data hdr S_def E_def mac_def)
  have body: "E @ [?A, 18] @ mac = enc_attrs (signed_attrs secret req_auth c i as)"
    by (simp add: E_def mac_def signed_attrs_def enc)
  have resp: "response_auth m req_auth secret = reply_auth secret req_auth c i as"
    if "rm_data m = S @ req_auth @ E @ [?A, 18] @ mac" for m
    using that auth by (simp add: response_auth_def reply_auth_def S_def flip: body)
  let ?R = "reply_auth secret req_auth c i as"
  let ?m = "put_authenticator ?R (set_data (S @ req_auth @ E @ [?A, 18] @ mac) (put_authenticator req_auth (put_length m1)))"
  have final: "rm_data ?m = S @ ?R @ E @ [?A, 18] @ mac"
    using poke_middle [of S 4 req_auth ?R] auth by (simp add: put_authenticator_def S_def)
  have "radius_msg_finish_srv env msg secret req_auth h =
      (if 0xffff < length (rm_data ?m) then - 1 else 0, ?m, replicate n E_malloc @ h)"
    by (simp only: radius_msg_finish_srv_def MD5_MAC_LEN_def add prod.case option.case Let_def D mac M
        resp [OF set_data_simps(1)])
  moreover have "length (rm_data ?m) = 38 + length (enc_attrs as)"
    by (simp only: final) (simp add: S_def E_def mac_def)
  moreover have "rm_attr_pos ?m = attr_offsets 20 (signed_attrs secret req_auth c i as)"
    using m1 by (simp add: represents_def put_authenticator_def put_length_def signed_attrs_def attr_offsets_append)
  then have "represents ?m (S @ ?R) (signed_attrs secret req_auth c i as)"
    using m1 final body by (auto simp: represents_def signed_attrs_def S_def RADIUS_MAX_ATTR_LEN_def)
  ultimately show ?thesis
    by (intro exI [of _ ?m] exI [of _ n]) (simp only: simp_thms S_def)
qed

lemma length_attr_offsets [simp]: "length (attr_offsets p as) = length as"
  by (induction as arbitrary: p) simp_all

lemma msg_auth_attrs_last:
  assumes "represents msg hdr (as @ [(RADIUS_ATTR_MESSAGE_AUTHENTICATOR, v)])"
    and "\<forall>a \<in> set as. fst a \<noteq> RADIUS_ATTR_MESSAGE_AUTHENTICATOR"
  shows "msg_auth_attrs msg = [20 + length (enc_attrs as)]"
proof -
  let ?view = "\<lambda>pos. (attr_type msg pos, attr_value msg pos)"
  have pos: "rm_attr_pos msg = attr_offsets 20 as @ [20 + length (enc_attrs as)]"
    using assms(1) by (simp add: represents_def attr_offsets_append)
  with represents_view(1) [OF assms(1)]
  have "map ?view (attr_offsets 20 as) = as" and last: "attr_type msg (20 + length (enc_attrs as)) = RADIUS_ATTR_MESSAGE_AUTHENTICATOR"
    by simp_all
  then have "attr_type msg p \<noteq> RADIUS_ATTR_MESSAGE_AUTHENTICATOR" if "p \<in> set (attr_offsets 20 as)" for p
    using assms(2) that by (metis (mono_tags, lifting) fst_conv image_eqI list.set_map)
  then show ?thesis
    by (simp add: msg_auth_attrs_def pos last)
qed

lemma radius_msg_verify_signed:
  assumes rep: "represents msg (signed_hdr c i as @ reply_auth secret req_auth c i as) (signed_attrs secret req_auth c i as)"
    and sent: "hdr_authenticator sent = req_auth" and auth: "length req_auth = 16"
    and none: "\<forall>a \<in> set as. fst a \<noteq> RADIUS_ATTR_MESSAGE_AUTHENTICATOR"
  shows "radius_msg_verify msg secret sent True h = (0, h)"
proof -
  let ?A = RADIUS_ATTR_MESSAGE_AUTHENTICATOR and ?z = "replicate 16 0 :: bytes"
  define E where "E = enc_attrs as"
  define S where "S = signed_hdr c i as"
  define R where "R = reply_auth secret req_auth c i as"
  define mac where "mac = msg_auth secret req_auth c i as"
  have len: "length S = 4" "length R = 16" "length mac = 16"
    by (simp_all add: S_def R_def mac_def)
  have enc: "enc_attr (?A, v) = [?A, 18] @ v" if "length v = 16" for v
    by (simp add: enc_attr_def that)
  have data: "rm_data msg = S @ R @ E @ [?A, 18] @ mac"
    using rep by (simp add: represents_def signed_attrs_def enc E_def S_def R_def mac_def)
  have pos: "msg_auth_attrs msg = [20 + length E]"
    unfolding E_def by (rule msg_auth_attrs_last [OF rep [unfolded signed_attrs_def] none])
  have "poke (20 + length E + 2) ?z (rm_data msg) = S @ R @ E @ [?A, 18] @ ?z"
    using poke_middle [of "S @ R @ E @ [?A, 18]" "20 + length E + 2" mac ?z "[]"] len by (simp add: data)
  then have cleared: "poke 4 req_auth (take (length (rm_data msg)) (poke (20 + length E + 2) ?z (rm_data msg))) =
      S @ req_auth @ E @ [?A, 18] @ ?z"
    using poke_middle [of S 4 R req_auth] len auth by (simp add: data)
  have "hmac_md5 secret (S @ req_auth @ E @ [?A, 18] @ ?z) = mac"
    by (simp add: mac_def msg_auth_def S_def E_def enc)
  then have "radius_msg_verify_msg_auth msg secret (Some req_auth) h = (0, h)"
    using len cleared by (simp add: radius_msg_verify_msg_auth_def pos MD5_MAC_LEN_def data Let_def)
  moreover have "response_auth msg req_auth secret = hdr_authenticator msg"
    using len by (simp add: response_auth_def hdr_authenticator_def data)
      (simp add: R_def reply_auth_def S_def E_def signed_attrs_def enc mac_def)
  ultimately show ?thesis
    by (simp add: radius_msg_verify_def sent)
qed

section \<open>Copying attributes\<close>

lemma copy_attrs_represents:
  assumes "alloc_total env" and "\<And>pos. pos \<in> set ps \<Longrightarrow> 2 \<le> attr_length src pos \<and> length (attr_value src pos) \<le> RADIUS_MAX_ATTR_LEN"
    and "represents dst hdr das" and "msg_fits dst"
  shows "\<exists>k dst' n. copy_attrs env src type ps dst count h = (count + int k, dst', replicate n E_malloc @ h) \<and>
    represents dst' hdr (das @ filter (\<lambda>a. fst a = type) (map (\<lambda>pos. (attr_type src pos, attr_value src pos)) ps)) \<and>
    msg_fits dst'"
  using assms(2-)
proof (induction ps arbitrary: dst das count h)
  case Nil
  then show ?case
    by (auto intro: exI [of _ 0])
next
  case (Cons pos ps)
  show ?case
  proof (cases "attr_type src pos = type")
    case False
    with Cons.IH [OF Cons.prems(1-3)] Cons.prems show ?thesis
      by simp
  next
    case True
    obtain d n where add: "radius_msg_add_attr env dst type (attr_value src pos) h =
        (Some (length (rm_data dst)), d, replicate n E_malloc @ h)"
      and d: "represents d hdr (das @ [(type, attr_value src pos)])" "msg_fits d"
      by (rule radius_msg_add_attr_total [OF assms(1) Cons.prems(3,2), of "attr_value src pos" type h])
        (use Cons.prems(1) in simp)
    from Cons.IH [OF Cons.prems(1) d, of "count + 1" "replicate n E_malloc @ h"]
    obtain k d' l where "copy_attrs env src type ps d (count + 1) (replicate n E_malloc @ h) =
        (count + 1 + int k, d', replicate l E_malloc @ replicate n E_malloc @ h)"
      "represents d' hdr ((das @ [(type, attr_value src pos)]) @
         filter (\<lambda>a. fst a = type) (map (\<lambda>pos. (attr_type src pos, attr_value src pos)) ps))" "msg_fits d'"
      by auto
    with True Cons.prems(1) add show ?thesis
      by (intro exI [of _ "Suc k"] exI [of _ d'] exI [of _ "l + n"]) (simp add: replicate_add)
  qed
qed

lemma radius_msg_copy_attr_represents:
  assumes "alloc_total env" and "represents src shdr sas" and "represents dst hdr das" and "msg_fits dst"
  obtains k dst' n where "radius_msg_copy_attr env dst src type h = (int k, dst', replicate n E_malloc @ h)"
    "represents dst' hdr (das @ filter (\<lambda>a. fst a = type) sas)" "msg_fits dst'"
proof -
  let ?view = "\<lambda>pos. (attr_type src pos, attr_value src pos)"
  have view: "map ?view (rm_attr_pos src) = sas"
    by (rule represents_view(1) [OF assms(2)])
  have "2 \<le> attr_length src pos \<and> length (attr_value src pos) \<le> RADIUS_MAX_ATTR_LEN"
    if "pos \<in> set (rm_attr_pos src)" for pos
  proof -
    have "?view pos \<in> set sas"
      using that by (simp flip: view)
    with assms(2) represents_view(2) [OF assms(2) that] show ?thesis
      by (auto simp: represents_def)
  qed
  from copy_attrs_represents [OF assms(1) this assms(3,4), of "rm_attr_pos src" type 0 h] that show ?thesis
    by (auto simp: radius_msg_copy_attr_def view)
qed

section \<open>EAP messages\<close>

function eap_chunks :: "bytes \<Rightarrow> bytes list" where
  "eap_chunks data = (if data = [] then [] else take RADIUS_MAX_ATTR_LEN data # eap_chunks (drop RADIUS_MAX_ATTR_LEN data))"
  by pat_completeness auto
termination
  by (relation "measure length") (auto simp: RADIUS_MAX_ATTR_LEN_def)

declare eap_chunks.simps [simp del]

lemma concat_eap_chunks: "concat (eap_chunks data) = data"
  by (induction data rule: eap_chunks.induct) (subst eap_chunks.simps, simp)

lemma eap_chunks_nonempty: "d \<in> set (eap_chunks data) \<Longrightarrow> d \<noteq> []"
  by (induction data rule: eap_chunks.induct)
    (subst (asm) (2) eap_chunks.simps, auto simp: RADIUS_MAX_ATTR_LEN_def split: if_splits)

lemma radius_msg_add_eap_represents:
  assumes "alloc_total env" and "represents msg hdr as" and "msg_fits msg"
  shows "\<exists>msg' n. radius_msg_add_eap env msg data h = (1, msg', replicate n E_malloc @ h) \<and>
    represents msg' hdr (as @ map (Pair RADIUS_ATTR_EAP_MESSAGE) (eap_chunks data)) \<and> msg_fits msg'"
  using assms(2,3)
proof (induction data arbitrary: msg as h rule: eap_chunks.induct)
  case (1 data)
  show ?case
  proof (cases "data = []")
    case True
    with "1.prems" show ?thesis
      by (subst radius_msg_add_eap.simps, subst eap_chunks.simps) (auto intro: exI [of _ 0])
  next
    case False
    let ?c = "take RADIUS_MAX_ATTR_LEN data"
    obtain m n where add: "radius_msg_add_attr env msg RADIUS_ATTR_EAP_MESSAGE ?c h =
        (Some (length (rm_data msg)), m, replicate n E_malloc @ h)"
      and m: "represents m hdr (as @ [(RADIUS_ATTR_EAP_MESSAGE, ?c)])" "msg_fits m"
      by (rule radius_msg_add_attr_total [OF assms(1) "1.prems"(2,1), of ?c RADIUS_ATTR_EAP_MESSAGE h]) simp
    from "1.IH" [OF False m, of "replicate n E_malloc @ h"]
    obtain m' l where rest: "radius_msg_add_eap env m (drop RADIUS_MAX_ATTR_LEN data) (replicate n E_malloc @ h) =
        (1, m', replicate l E_malloc @ replicate n E_malloc @ h)"
      "represents m' hdr ((as @ [(RADIUS_ATTR_EAP_MESSAGE, ?c)]) @
         map (Pair RADIUS_ATTR_EAP_MESSAGE) (eap_chunks (drop RADIUS_MAX_ATTR_LEN data)))" "msg_fits m'"
      by auto
    have "radius_msg_add_eap env msg data h = (1, m', replicate (l + n) E_malloc @ h)"
      by (subst radius_msg_add_eap.simps) (simp add: False add rest(1) replicate_add)
    moreover have "eap_chunks data = ?c # eap_chunks (drop RADIUS_MAX_ATTR_LEN data)"
      by (subst eap_chunks.simps) (simp add: False)
    ultimately show ?thesis
      using rest(2,3) by auto
  qed
qed

lemma eap_parts_represents:
  assumes "represents msg hdr as"
  shows "eap_parts msg = map snd (filter (\<lambda>a. fst a = RADIUS_ATTR_EAP_MESSAGE \<and> snd a \<noteq> []) as)"
proof -
  let ?view = "\<lambda>pos. (attr_type msg pos, attr_value msg pos)"
  have "filter (\<lambda>pos. attr_type msg pos = RADIUS_ATTR_EAP_MESSAGE \<and> 2 < attr_length msg pos) (rm_attr_pos msg) =
        filter ((\<lambda>a. fst a = RADIUS_ATTR_EAP_MESSAGE \<and> snd a \<noteq> []) \<circ> ?view) (rm_attr_pos msg)"
    using represents_view(2) [OF assms] by (intro filter_cong) auto
  then show ?thesis
    by (subst represents_view(1) [OF assms, symmetric]) (simp add: eap_parts_def filter_map comp_def)
qed

lemma put_parts:
  "length (wb_data buf) + sum_list (map length ds) \<le> wb_size buf \<Longrightarrow>
   fold (\<lambda>d (eap, h). wpabuf_put_data eap d h) ds (buf, h) = (buf\<lparr>wb_data := wb_data buf @ concat ds\<rparr>, h)"
  by (induction ds arbitrary: buf) (simp_all add: wpabuf_put_data_fits)

text \<open>
  C22: an EAP message of any length that is split over EAP-Message attributes by
  \<open>radius_msg_add_eap\<close> is what \<open>radius_msg_get_eap\<close> puts together again, and neither overruns a
  buffer.
\<close>

theorem eap_message_roundtrip:
  assumes "alloc_total env" and "represents msg hdr as" and "msg_fits msg"
    and "\<forall>a \<in> set as. fst a \<noteq> RADIUS_ATTR_EAP_MESSAGE" and "data \<noteq> []"
  shows "\<exists>msg' m n. radius_msg_add_eap env msg data h = (1, msg', replicate n E_malloc @ h) \<and>
    radius_msg_get_eap env msg' h' = (Some \<lparr>wb_size = length data, wb_data = data\<rparr>, replicate m E_malloc @ h')"
proof -
  obtain msg' n where add: "radius_msg_add_eap env msg data h = (1, msg', replicate n E_malloc @ h)"
    and rep: "represents msg' hdr (as @ map (Pair RADIUS_ATTR_EAP_MESSAGE) (eap_chunks data))"
    using radius_msg_add_eap_represents [OF assms(1-3), of data h] by blast
  have "filter (\<lambda>a. fst a = RADIUS_ATTR_EAP_MESSAGE \<and> snd a \<noteq> []) as = []"
    using assms(4) by (simp add: filter_empty_conv)
  then have parts: "eap_parts msg' = eap_chunks data"
    using eap_chunks_nonempty [of _ data] by (simp add: eap_parts_represents [OF rep] filter_map comp_def filter_id_conv)
  have len: "sum_list (map length (eap_chunks data)) = length data"
    by (simp add: concat_eap_chunks flip: length_concat)
  have "radius_msg_get_eap env msg' h' = (Some \<lparr>wb_size = length data, wb_data = data\<rparr>, replicate 1 E_malloc @ h')"
    by (simp add: radius_msg_get_eap_def parts len assms(5) wpabuf_alloc_def os_malloc_total [OF assms(1)] put_parts
        concat_eap_chunks Let_def)
  with add show ?thesis
    by blast
qed

theorem eap_message_roundtrip_witness:
  "\<exists>msg msg' m n. fst (radius_msg_new ideal_env 1 7 []) = Some msg \<and>
     radius_msg_add_eap ideal_env msg (replicate 300 5) [] = (1, msg', replicate n E_malloc) \<and>
     radius_msg_get_eap ideal_env msg' [] = (Some \<lparr>wb_size = 300, wb_data = replicate 300 5\<rparr>, replicate m E_malloc)"
proof -
  obtain msg h where new: "radius_msg_new ideal_env 1 7 [] = (Some msg, h)"
    using radius_msg_new_total [OF ideal_alloc] by blast
  have "replicate 300 (5 :: u8) \<noteq> []"
    by simp
  from eap_message_roundtrip [OF ideal_alloc radius_msg_new_represents(1,2) [OF new] _ this, of "[]" "[]"] new
  show ?thesis
    by simp
qed

end
