(* ===== verification/Net_Utils.thy ===== *)
theory Net_Utils
  imports Os_Utils
begin

text \<open>
  utils/net.c: textual IPv4 and MAC addresses.  \<open>inet_pton\<close> and \<open>inet_network\<close> are the
  functions of the C library; \<open>in_addr_t\<close> values of \<open>inet_network\<close> are in host order.
\<close>

unbundle bit_operations_syntax

definition OS_INET_ADDRSTRLEN :: nat where
  "OS_INET_ADDRSTRLEN = 22"

section \<open>Library functions\<close>

text \<open>An octet of a dotted quad for \<open>inet_pton\<close>: no leading zero, at most 255.\<close>

definition pton_octet :: "string \<Rightarrow> bool" where
  "pton_octet s \<longleftrightarrow> s \<noteq> [] \<and> list_all c_isdigit s \<and> length s \<le> 3 \<and>
     (length s = 1 \<or> hd s \<noteq> CHR ''0'') \<and> digits_val s \<le> 255"

definition inet_pton4 :: "string \<Rightarrow> bytes option" where
  "inet_pton4 s =
     (let ps = split_pieces CHR ''.'' s in
      if length ps = 4 \<and> list_all pton_octet ps
      then Some (map (\<lambda>p. of_nat (digits_val p)) ps) else None)"

text \<open>
  One part of the argument of \<open>inet_network\<close>: a leading 0 selects octal, an x or X then
  selects hexadecimal; the value is accumulated in 32 bits.  The result is the value and the
  rest of the string.
\<close>

definition c_isxdigit :: "char \<Rightarrow> bool" where
  "c_isxdigit c \<longleftrightarrow> 0 \<le> hex2num c"

definition inet_network_part :: "string \<Rightarrow> (u32 \<times> string) option" where
  "inet_network_part s =
     (let (dig1, base1, s1) =
            (if s \<noteq> [] \<and> hd s = CHR ''0'' then (True, 8, tl s) else (False, 10 :: nat, s));
          (dig2, base2, s2) =
            (if s1 \<noteq> [] \<and> (hd s1 = CHR ''x'' \<or> hd s1 = CHR ''X'') then (False, 16, tl s1)
             else (dig1, base1, s1));
          ok = (if base2 = 16 then c_isxdigit else c_isdigit);
          ds = takeWhile ok s2;
          val = foldl (\<lambda>v c. v * of_nat base2 + word_of_int (hex2num c)) (0 :: u32) ds
      in if base2 = 8 \<and> \<not> list_all (\<lambda>c. ord c < 56) ds then None
         else if \<not> dig2 \<and> ds = [] then None
         else Some (val, dropWhile ok s2))"

fun inet_network_parts :: "nat \<Rightarrow> u32 list \<Rightarrow> string \<Rightarrow> u32 option" where
  "inet_network_parts 0 parts s = None"
| "inet_network_parts (Suc n) parts s =
     (case inet_network_part s of
        None \<Rightarrow> None
      | Some (val, rest) \<Rightarrow>
          if 255 < val then None
          else if rest \<noteq> [] \<and> hd rest = CHR ''.'' then
            inet_network_parts n (parts @ [val]) (tl rest)
          else if dropWhile c_isspace rest \<noteq> [] then None
          else Some (foldl (\<lambda>v p. push_bit 8 v OR (p AND 255)) 0 (parts @ [val])))"

definition INADDR_NONE :: u32 where
  "INADDR_NONE = 0xffffffff"

definition inet_network :: "string \<Rightarrow> u32" where
  "inet_network s = (case inet_network_parts 4 [] s of None \<Rightarrow> INADDR_NONE | Some v \<Rightarrow> v)"

section \<open>Validation\<close>

text \<open>
  \<open>validate_ipv4_string\<close> copies the part before a slash with the length of that part as the
  bound, into a buffer of \<open>OS_INET_ADDRSTRLEN\<close> bytes.  \<open>validate_ipv4_overrun\<close> says when this
  writes past the buffer; the result is computed as if the bytes past its end were harmless.
\<close>

definition validate_ipv4_overrun :: "string \<Rightarrow> bool" where
  "validate_ipv4_overrun ip \<longleftrightarrow>
     CHR ''/'' \<in> set ip \<and>
     OS_INET_ADDRSTRLEN < length (takeWhile (\<lambda>c. c \<noteq> CHR ''/'') ip) + 1"

definition validate_ipv4_string :: "string \<Rightarrow> bool" where
  "validate_ipv4_string ip =
     (if CHR ''/'' \<in> set ip then
        let ip_part = takeWhile (\<lambda>c. c \<noteq> CHR ''/'') ip;
            mask = tl (dropWhile (\<lambda>c. c \<noteq> CHR ''/'') ip);
            proc_ip = strlcpy ip (length ip_part + 1)
        in if 2 < length mask \<or> length mask < 1 then False
           else if \<not> is_number mask then False
           else if 32 < fst (strtol10 mask) then False
           else inet_pton4 proc_ip \<noteq> None
      else inet_pton4 (strlcpy ip OS_INET_ADDRSTRLEN) \<noteq> None)"

definition ip_2_nbo :: "string \<Rightarrow> string \<Rightarrow> u32 option" where
  "ip_2_nbo ip subnet_mask =
     (let subnet = inet_network subnet_mask in
      if subnet = INADDR_NONE then None
      else let addr = inet_network ip in
        if addr = INADDR_NONE then None else Some (addr AND subnet))"

text \<open>
  \<open>ip4_2_buf\<close> tests \<open>inet_pton(...) < 0\<close>, which does not catch the result 0 for text that is
  not an address; the buffer then gets what was on the stack, the argument \<open>junk\<close>.
\<close>

definition ip4_2_buf :: "bytes \<Rightarrow> string option \<Rightarrow> bytes option" where
  "ip4_2_buf junk ip =
     (case ip of
        None \<Rightarrow> None
      | Some ip \<Rightarrow>
          if \<not> validate_ipv4_string ip then None
          else case inet_pton4 ip of None \<Rightarrow> Some junk | Some bs \<Rightarrow> Some bs)"

definition get_short_subnet :: "string \<Rightarrow> u8" where
  "get_short_subnet subnet_mask =
     (let addr = inet_network subnet_mask in
      if addr = INADDR_NONE then - 1
      else foldl (\<lambda>short_mask i. if addr AND (push_bit (31 - i) 1) \<noteq> 0
                                 then short_mask + 1 else short_mask) 0 [0..<31])"

definition be32 :: "bytes \<Rightarrow> u32" where
  "be32 b = push_bit 24 (ucast (b ! 0)) + push_bit 16 (ucast (b ! 1)) +
            push_bit 8 (ucast (b ! 2)) + ucast (b ! 3)"

definition get_ip_host :: "bytes \<Rightarrow> string \<Rightarrow> string \<Rightarrow> u32 option" where
  "get_ip_host junk ip subnet_mask =
     (case ip4_2_buf junk (Some ip) of
        None \<Rightarrow> None
      | Some ipbuf \<Rightarrow>
          (case ip4_2_buf junk (Some subnet_mask) of
             None \<Rightarrow> None
           | Some mbuf \<Rightarrow> Some (be32 ipbuf AND NOT (be32 mbuf))))"

section \<open>MAC addresses\<close>

definition is_mac_sep :: "char \<Rightarrow> bool" where
  "is_mac_sep c \<longleftrightarrow> c = CHR '':'' \<or> c = CHR ''.'' \<or> c = CHR ''-''"

fun hwaddr_loop :: "nat \<Rightarrow> string \<Rightarrow> (bytes \<times> string) option" where
  "hwaddr_loop 0 pos = Some ([], pos)"
| "hwaddr_loop (Suc n) pos =
     (let pos = dropWhile is_mac_sep pos;
          a = hex2num (c_at pos)
      in if a < 0 then None
         else let b = hex2num (c_at (tl pos)) in
           if b < 0 then None
           else map_option (\<lambda>(bs, r). (word_of_int (16 * a + b) # bs, r))
                  (hwaddr_loop n (drop 2 pos)))"

text \<open>\<open>edge_hwaddr_aton2\<close>: the address and the number of characters used, or failure.\<close>

definition edge_hwaddr_aton2 :: "string \<Rightarrow> (mac \<times> nat) option" where
  "edge_hwaddr_aton2 txt =
     map_option (\<lambda>(bs, rest). (bs, length txt - length rest)) (hwaddr_loop 6 txt)"

abbreviation hwaddr_aton2 :: "string \<Rightarrow> mac option" where
  "hwaddr_aton2 txt \<equiv> map_option fst (edge_hwaddr_aton2 txt)"

text \<open>The format \<open>MACSTR\<close>.\<close>

fun mac2str :: "mac \<Rightarrow> string" where
  "mac2str [] = []"
| "mac2str [b] = show_02x b"
| "mac2str (b # c # bs) = show_02x b @ '':'' @ mac2str (c # bs)"

lemma hwaddr_loop_length: "hwaddr_loop n pos = Some (bs, r) \<Longrightarrow> length bs = n"
  by (induction n arbitrary: pos bs) (auto simp: Let_def split: if_splits)

lemma hwaddr_loop_rest:
  "hwaddr_loop n pos = Some (bs, r) \<Longrightarrow> suffix r pos"
proof (induction n arbitrary: pos bs)
  case 0
  then show ?case by simp
next
  case (Suc n)
  let ?p = "dropWhile is_mac_sep pos"
  from Suc.prems obtain bs' where "hwaddr_loop n (drop 2 ?p) = Some (bs', r)"
    by (auto simp: Let_def split: if_splits)
  then have "suffix r (drop 2 ?p)"
    by (rule Suc.IH)
  also have "suffix (drop 2 ?p) ?p"
    by (rule suffix_drop)
  also have "suffix ?p pos"
    by (rule suffix_dropWhile)
  finally show ?case .
qed

lemma hwaddr_aton2_length: "hwaddr_aton2 txt = Some m \<Longrightarrow> length m = 6"
  by (auto simp: edge_hwaddr_aton2_def dest: hwaddr_loop_length)

lemma hex_digit_not_sep: "n < 16 \<Longrightarrow> \<not> is_mac_sep (hex_digit n)"
  using hex2num_hex_digit [of n] by (auto simp: is_mac_sep_def hex2num_def)

lemma hwaddr_loop_byte:
  "hwaddr_loop (Suc n) (show_02x b @ s) =
     map_option (\<lambda>(bs, r). (b # bs, r)) (hwaddr_loop n s)"
proof -
  have d: "unat b div 16 < 16"
    by (rule less_mult_imp_div_less) simp
  have e: "hex2byte (show_02x b @ s) = uint b"
    by (rule hex2byte_show_02x)
  have f: "dropWhile is_mac_sep (show_02x b @ s) = show_02x b @ s"
    using hex_digit_not_sep [OF d] by (simp add: show_02x_def)
  have g: "16 * hex2num (hex_digit (unat b div 16)) + hex2num (hex_digit (unat b mod 16)) = uint b"
    using e hex2num_hex_digit [OF d] hex2num_hex_digit [of "unat b mod 16"]
    by (simp add: hex2byte_def show_02x_def c_at_def)
  show ?thesis
    using f g hex2num_hex_digit [OF d] hex2num_hex_digit [of "unat b mod 16"]
    by (simp add: show_02x_def c_at_def)
qed

lemma hwaddr_loop_sep: "hwaddr_loop (Suc n) (CHR '':'' # s) = hwaddr_loop (Suc n) s"
  by (simp add: is_mac_sep_def)

lemma hwaddr_loop_mac2str:
  "hwaddr_loop (length m) (mac2str m @ s) = Some (m, s)"
proof (induction m rule: mac2str.induct)
  case 1
  show ?case by simp
next
  case (2 b)
  show ?case by (simp add: hwaddr_loop_byte del: hwaddr_loop.simps(2))
next
  case (3 b c bs)
  then show ?case
    by (simp add: hwaddr_loop_byte hwaddr_loop_sep del: hwaddr_loop.simps(2))
qed

lemma length_mac2str: "m \<noteq> [] \<Longrightarrow> length (mac2str m) = 3 * length m - 1"
  by (induction m rule: mac2str.induct) (auto simp: show_02x_def)

end
