(* ===== verification/Sockctl.thy ===== *)
theory Sockctl
  imports Net_Utils
begin

text \<open>
  utils/sockctl.c: datagrams on domain and UDP sockets.  Creating, binding and closing a socket
  and waiting for it are effects with an outcome of the environment; what is modelled is how
  the code sequences them, and what it does with what it reads.
\<close>

definition string_of_bytes :: "bytes \<Rightarrow> string" where
  "string_of_bytes bs = map (\<lambda>b. char_of (unat b)) bs"

definition bytes_of_string :: "string \<Rightarrow> bytes" where
  "bytes_of_string s = map (\<lambda>c. of_nat (ord c)) s"

text \<open>The C string that starts a buffer.\<close>

definition c_str :: "string \<Rightarrow> string" where
  "c_str s = takeWhile (\<lambda>c. c \<noteq> CHR 0x00) s"

lemma bytes_of_string_of_bytes [simp]: "bytes_of_string (string_of_bytes bs) = bs"
  by (simp add: bytes_of_string_def string_of_bytes_def comp_def)

lemma length_string_of_bytes [simp]: "length (string_of_bytes bs) = length bs"
  by (simp add: string_of_bytes_def)

lemma char_byte_0: "char_of (unat b) = CHR 0x00 \<longleftrightarrow> b = (0 :: u8)"
proof
  assume "char_of (unat b) = CHR 0x00"
  then have "ord (char_of (unat b)) = 0"
    by simp
  then show "b = 0"
    by (simp add: unat_eq_0)
qed (simp add: char_of_def)

lemma c_str_bytes:
  "c_str (string_of_bytes bs) = string_of_bytes (takeWhile (\<lambda>b. b \<noteq> 0) bs)"
  by (simp add: c_str_def string_of_bytes_def takeWhile_map comp_def char_byte_0)

definition SUN_PATH_LEN :: nat where
  "SUN_PATH_LEN = 108"

definition SOCKADDR_UN_LEN :: int where
  "SOCKADDR_UN_LEN = 110"

definition SOCKADDR_IN_LEN :: int where
  "SOCKADDR_IN_LEN = 16"

text \<open>\<open>init_domain_addr\<close>: the structure is zeroed and the path copied, so it is cut at 107 bytes.\<close>

definition init_domain_addr :: "string \<Rightarrow> bytes" where
  "init_domain_addr addr =
     (let p = bytes_of_string (strlcpy addr SUN_PATH_LEN)
      in p @ replicate (SUN_PATH_LEN - length p) 0)"

section \<open>Sending\<close>

definition write_socket_domain ::
  "env \<Rightarrow> int \<Rightarrow> string \<Rightarrow> client_address \<Rightarrow> hist \<Rightarrow> int \<times> hist" where
  "write_socket_domain env sock data addr h =
     (let h' = E_sendto sock data addr # h; sent = env_sendto env h'
      in (if sent < 0 then - 1 else sent, h'))"

definition write_socket_udp ::
  "env \<Rightarrow> int \<Rightarrow> string \<Rightarrow> client_address \<Rightarrow> hist \<Rightarrow> int \<times> hist" where
  "write_socket_udp env sock data addr h =
     (if \<not> env_ntop env h then (- 1, h)
      else let h' = E_sendto sock data addr # h; sent = env_sendto env h'
           in (if sent < 0 then - 1 else sent, h'))"

definition write_socket_data ::
  "env \<Rightarrow> int \<Rightarrow> string \<Rightarrow> client_address \<Rightarrow> hist \<Rightarrow> int \<times> hist" where
  "write_socket_data env sock data addr h =
     (case ca_type addr of
        SOCKET_TYPE_DOMAIN \<Rightarrow> write_socket_domain env sock data addr h
      | SOCKET_TYPE_UDP \<Rightarrow> write_socket_udp env sock data addr h
      | SOCKET_TYPE_NONE \<Rightarrow> (- 1, h))"

definition write_domain_data_s :: "env \<Rightarrow> int \<Rightarrow> string \<Rightarrow> string \<Rightarrow> hist \<Rightarrow> int \<times> hist" where
  "write_domain_data_s env sock data addr h =
     write_socket_data env sock data
       \<lparr>sun_path = init_domain_addr addr, sin_port = 0, sin_addr = 0,
        ca_len = SOCKADDR_UN_LEN, ca_type = SOCKET_TYPE_DOMAIN\<rparr> h"

section \<open>Receiving\<close>

text \<open>
  \<open>recvfrom\<close> gives at most \<open>data_len\<close> bytes of the datagram and writes the sender over the
  address; the type stays what the caller set.  The result is the number of bytes, the bytes
  and the address.
\<close>

definition recv_from ::
  "env \<Rightarrow> int \<Rightarrow> nat \<Rightarrow> client_address \<Rightarrow> hist \<Rightarrow> int \<times> string \<times> client_address \<times> hist" where
  "recv_from env sock data_len addr h =
     (let h' = E_recv sock data_len # h in
      case env_recv env h' of
        None \<Rightarrow> (- 1, [], addr, h')
      | Some (data, from) \<Rightarrow>
          (int (length (take data_len data)), take data_len data, from\<lparr>ca_type := ca_type addr\<rparr>, h'))"

definition read_socket_domain ::
  "env \<Rightarrow> int \<Rightarrow> nat \<Rightarrow> client_address \<Rightarrow> hist \<Rightarrow> int \<times> string \<times> client_address \<times> hist" where
  "read_socket_domain env sock data_len addr h =
     recv_from env sock data_len (addr\<lparr>ca_len := SOCKADDR_UN_LEN\<rparr>) h"

definition read_socket_udp ::
  "env \<Rightarrow> int \<Rightarrow> nat \<Rightarrow> client_address \<Rightarrow> hist \<Rightarrow> int \<times> string \<times> client_address \<times> hist" where
  "read_socket_udp env sock data_len addr h =
     recv_from env sock data_len (addr\<lparr>ca_len := SOCKADDR_IN_LEN\<rparr>) h"

definition read_socket_data ::
  "env \<Rightarrow> int \<Rightarrow> nat \<Rightarrow> client_address \<Rightarrow> hist \<Rightarrow> int \<times> string \<times> client_address \<times> hist" where
  "read_socket_data env sock data_len addr h =
     (case ca_type addr of
        SOCKET_TYPE_DOMAIN \<Rightarrow> read_socket_domain env sock data_len addr h
      | SOCKET_TYPE_UDP \<Rightarrow> read_socket_udp env sock data_len addr h
      | SOCKET_TYPE_NONE \<Rightarrow> (- 1, [], addr, h))"

text \<open>
  \<open>read_domain_data_s\<close> copies the path of the sender over its argument \<open>addr\<close>, also when nothing
  was received; the path is then whatever the stack held.  The result has the new path.
\<close>

definition blank_address :: "SOCKET_TYPE \<Rightarrow> client_address" where
  "blank_address ty = \<lparr>sun_path = [], sin_port = 0, sin_addr = 0, ca_len = 0, ca_type = ty\<rparr>"

definition read_domain_data_s ::
  "env \<Rightarrow> int \<Rightarrow> nat \<Rightarrow> string \<Rightarrow> hist \<Rightarrow> int \<times> string \<times> string \<times> hist" where
  "read_domain_data_s env sock data_len addr h =
     (let (num_bytes, data, claddr, h') =
            read_socket_data env sock data_len (blank_address SOCKET_TYPE_DOMAIN) h
      in if num_bytes < 0 then (num_bytes, data, addr, E_ub Uninit_Read # h')
         else (num_bytes, data, c_str (string_of_bytes (sun_path claddr)), h'))"

section \<open>A request and its reply\<close>

text \<open>
  \<open>writeread_domain_data_str\<close>: the return code, the reply, what \<open>socket_path\<close> holds afterwards,
  and the history.  Every exit after the socket was made closes it.
\<close>

definition writeread_domain_data_str ::
  "env \<Rightarrow> string \<Rightarrow> string \<Rightarrow> hist \<Rightarrow> int \<times> string \<times> string \<times> hist" where
  "writeread_domain_data_str env socket_path write_str h =
     (let h = E_socket # h; sfd = env_socket env h in
      if sfd = - 1 then (- 1, [], socket_path, h)
      else let (send_count, h) = write_domain_data_s env sfd write_str socket_path h in
      if send_count < 0 \<or> send_count \<noteq> int (length write_str)
      then (- 1, [], socket_path, E_close sfd # h)
      else let h = E_select sfd # h; (sel, isset) = env_select env h in
      if sel < 0 \<or> \<not> isset then (- 1, [], socket_path, E_close sfd # h)
      else let h = E_fionread sfd # h in
      (case env_fionread env h of
         None \<Rightarrow> (- 1, [], socket_path, E_close sfd # h)
       | Some bytes_available \<Rightarrow>
           let (ok, h) = os_malloc env h in
           if \<not> ok then (- 1, [], socket_path, E_close sfd # h)
           else let (rec_count, data, path', h) =
                      read_domain_data_s env sfd bytes_available socket_path h in
           if rec_count < 0 then (- 1, [], path', E_close sfd # h)
           else let (ok, h) = os_malloc env h in
           if \<not> ok then (- 1, [], path', E_close sfd # h)
           else (0, rtrim (c_str data), path', E_close sfd # h)))"

text \<open>Where everything works the peer answers OK.\<close>

lemma writeread_ideal:
  "\<exists>path' h'. writeread_domain_data_str ideal_env path s h = (0, ''OK'', path', h')"
proof -
  have "rtrim (c_str [CHR ''O'', CHR ''K'', CHR 0x0A]) = ''OK''"
    by code_simp
  then show ?thesis
    by (simp add: writeread_domain_data_str_def write_domain_data_s_def write_socket_data_def
        write_socket_domain_def read_domain_data_s_def read_socket_data_def blank_address_def
        read_socket_domain_def recv_from_def os_malloc_def ideal_env_def Let_def)
qed

end
