(* ===== verification/Radius_Keys.thy ===== *)
theory Radius_Keys
  imports Radius_Msg Sockctl
begin

text \<open>
  radius/radius.c: the attributes with an encrypted or structured value: vendor specific
  attributes, MS-MPPE keys, User-Password, Tunnel-Password and the VLAN attributes, with the
  functions that build them and those with which a client reads them.
\<close>

unbundle bit_operations_syntax

definition RADIUS_TUNNEL_TAGS :: nat where "RADIUS_TUNNEL_TAGS = 32"
definition RADIUS_TUNNEL_TYPE_VLAN :: int where "RADIUS_TUNNEL_TYPE_VLAN = 13"
definition RADIUS_TUNNEL_MEDIUM_TYPE_802 :: int where "RADIUS_TUNNEL_MEDIUM_TYPE_802 = 6"
definition RADIUS_VENDOR_ID_CISCO :: u32 where "RADIUS_VENDOR_ID_CISCO = 9"
definition RADIUS_CISCO_AV_PAIR :: u8 where "RADIUS_CISCO_AV_PAIR = 1"
definition RADIUS_VENDOR_ID_MICROSOFT :: u32 where "RADIUS_VENDOR_ID_MICROSOFT = 311"
definition RADIUS_VENDOR_ATTR_MS_MPPE_SEND_KEY :: u8 where "RADIUS_VENDOR_ATTR_MS_MPPE_SEND_KEY = 16"
definition RADIUS_VENDOR_ATTR_MS_MPPE_RECV_KEY :: u8 where "RADIUS_VENDOR_ATTR_MS_MPPE_RECV_KEY = 17"
definition RADIUS_VENDOR_ID_WFA :: u32 where "RADIUS_VENDOR_ID_WFA = 40808"

definition radius_msg_make_authenticator :: "env \<Rightarrow> radius_msg \<Rightarrow> hist \<Rightarrow> int \<times> radius_msg \<times> hist" where
  "radius_msg_make_authenticator env msg h =
     (case os_get_random env 16 h of
        (None, h) \<Rightarrow> (- 1, msg, h)
      | (Some a, h) \<Rightarrow> (0, put_authenticator a msg, h))"

section \<open>Vendor specific attributes\<close>

function find_vendor_attr :: "u8 \<Rightarrow> bytes \<Rightarrow> bytes option" where
  "find_vendor_attr subtype b =
     (if length b < 2 then None
      else
        let vlen = unat (b ! 1) in
        if length b < vlen \<or> vlen < 2 then None
        else if b ! 0 \<noteq> subtype then find_vendor_attr subtype (drop vlen b)
        else Some (take (vlen - 2) (drop 2 b)))"
  by pat_completeness auto
termination
  by (relation "measure (\<lambda>(_, b). length b)") auto

declare find_vendor_attr.simps [simp del]

fun vendor_attr_loop ::
  "env \<Rightarrow> radius_msg \<Rightarrow> u32 \<Rightarrow> u8 \<Rightarrow> nat list \<Rightarrow> hist \<Rightarrow> bytes option \<times> hist" where
  "vendor_attr_loop env msg vendor subtype [] h = (None, h)"
| "vendor_attr_loop env msg vendor subtype (pos # ps) h =
     (if attr_type msg pos \<noteq> RADIUS_ATTR_VENDOR_SPECIFIC \<or> attr_length msg pos < 2 + 4 \<or>
         get_be32 (attr_value msg pos) \<noteq> vendor
      then vendor_attr_loop env msg vendor subtype ps h
      else case find_vendor_attr subtype (drop 4 (attr_value msg pos)) of
             None \<Rightarrow> vendor_attr_loop env msg vendor subtype ps h
           | Some data \<Rightarrow> let (ok, h) = os_malloc env h in (if ok then Some data else None, h))"

definition radius_msg_get_vendor_attr ::
  "env \<Rightarrow> radius_msg \<Rightarrow> u32 \<Rightarrow> u8 \<Rightarrow> hist \<Rightarrow> bytes option \<times> hist" where
  "radius_msg_get_vendor_attr env msg vendor subtype h =
     vendor_attr_loop env msg vendor subtype (rm_attr_pos msg) h"

section \<open>Hiding values\<close>

definition xor_bytes :: "bytes \<Rightarrow> bytes \<Rightarrow> bytes" where
  "xor_bytes xs ys = map2 (XOR) xs ys"

text \<open>
  Blocks of 16 bytes.  The pad of a block is the MD5 of the secret with \<open>seed\<close>: the
  authenticator and the salt for the first block, the encrypted block before it for the others.
\<close>

function encrypt_blocks :: "bytes \<Rightarrow> bytes list \<Rightarrow> bytes \<Rightarrow> bytes" where
  "encrypt_blocks secret seed buf =
     (if buf = [] then []
      else let c = xor_bytes (take MD5_MAC_LEN buf) (md5_vector (secret # seed))
           in c @ encrypt_blocks secret [c] (drop MD5_MAC_LEN buf))"
  by pat_completeness auto
termination
  by (relation "measure (\<lambda>(_, _, buf). length buf)") (auto simp: MD5_MAC_LEN_def)

function decrypt_blocks :: "bytes \<Rightarrow> bytes list \<Rightarrow> bytes \<Rightarrow> bytes" where
  "decrypt_blocks secret seed buf =
     (if buf = [] then []
      else xor_bytes (take MD5_MAC_LEN buf) (md5_vector (secret # seed)) @
           decrypt_blocks secret [take MD5_MAC_LEN buf] (drop MD5_MAC_LEN buf))"
  by pat_completeness auto
termination
  by (relation "measure (\<lambda>(_, _, buf). length buf)") (auto simp: MD5_MAC_LEN_def)

declare encrypt_blocks.simps [simp del] decrypt_blocks.simps [simp del]

text \<open>
  \<open>len & 0x0f\<close> is \<open>len mod 16\<close> and \<open>len & 0xf0\<close> keeps four bits only: the length is wrong for a
  key of more than 254 bytes.
\<close>

definition ms_key_len :: "nat \<Rightarrow> nat" where
  "ms_key_len key_len =
     (let len = 1 + key_len in if len mod 16 \<noteq> 0 then 16 * (len div 16 mod 16) + 16 else len)"

text \<open>The first \<open>*elen\<close> bytes of \<open>ebuf\<close>.\<close>

definition encrypt_ms_key :: "bytes \<Rightarrow> u16 \<Rightarrow> bytes \<Rightarrow> bytes \<Rightarrow> bytes" where
  "encrypt_ms_key key salt req_authenticator secret =
     (let len = ms_key_len (length key);
          ebuf = take len (poke 1 key (poke 0 [word_of_nat (length key)] (replicate len 0)))
      in encrypt_blocks secret [req_authenticator, put_be16 salt] ebuf)"

definition decrypt_ms_key :: "env \<Rightarrow> bytes \<Rightarrow> bytes \<Rightarrow> bytes \<Rightarrow> hist \<Rightarrow> bytes option \<times> hist" where
  "decrypt_ms_key env key req_authenticator secret h =
     (if length key < 2 + 16 then (None, h)
      else
        let plen = length key - 2 in
        if plen mod 16 \<noteq> 0 then (None, h)
        else
          let (ok, h) = os_malloc env h in
          if \<not> ok then (None, h)
          else
            let plain = decrypt_blocks secret [req_authenticator, take 2 key] (drop 2 key) in
            if plain ! 0 = 0 \<or> plen - 1 < unat (plain ! 0) then (None, h)
            else let (ok, h) = os_malloc env h
                 in (if ok then Some (take (unat (plain ! 0)) (drop 1 plain)) else None, h))"

record radius_ms_mppe_keys =
  mppe_send :: "bytes option"
  mppe_recv :: "bytes option"

definition get_mppe_key ::
  "env \<Rightarrow> radius_msg \<Rightarrow> radius_msg \<Rightarrow> bytes \<Rightarrow> u8 \<Rightarrow> hist \<Rightarrow> bytes option \<times> hist" where
  "get_mppe_key env msg sent_msg secret subtype h =
     (case radius_msg_get_vendor_attr env msg RADIUS_VENDOR_ID_MICROSOFT subtype h of
        (None, h) \<Rightarrow> (None, h)
      | (Some key, h) \<Rightarrow> decrypt_ms_key env key (hdr_authenticator sent_msg) secret h)"

definition radius_msg_get_ms_keys ::
  "env \<Rightarrow> radius_msg \<Rightarrow> radius_msg \<Rightarrow> bytes \<Rightarrow> hist \<Rightarrow> radius_ms_mppe_keys option \<times> hist" where
  "radius_msg_get_ms_keys env msg sent_msg secret h =
     (let (ok, h) = os_malloc env h in
      if \<not> ok then (None, h)
      else
        let (snd_key, h) = get_mppe_key env msg sent_msg secret RADIUS_VENDOR_ATTR_MS_MPPE_SEND_KEY h;
            (rcv_key, h) = get_mppe_key env msg sent_msg secret RADIUS_VENDOR_ATTR_MS_MPPE_RECV_KEY h
        in (Some \<lparr>mppe_send = snd_key, mppe_recv = rcv_key\<rparr>, h))"

definition radius_msg_get_cisco_keys ::
  "env \<Rightarrow> radius_msg \<Rightarrow> radius_msg \<Rightarrow> bytes \<Rightarrow> hist \<Rightarrow> radius_ms_mppe_keys option \<times> hist" where
  "radius_msg_get_cisco_keys env msg sent_msg secret h =
     (let (ok, h) = os_malloc env h in
      if \<not> ok then (None, h)
      else
        let (rcv_key, h) =
          (case radius_msg_get_vendor_attr env msg RADIUS_VENDOR_ID_CISCO RADIUS_CISCO_AV_PAIR h of
             (None, h) \<Rightarrow> (None, h)
           | (Some key, h) \<Rightarrow>
               if length key = 51 \<and> take 17 key = bytes_of_string ''leap:session-key=''
               then decrypt_ms_key env (drop 17 key) (hdr_authenticator sent_msg) secret h
               else (None, h))
        in (Some \<lparr>mppe_send = None, mppe_recv = rcv_key\<rparr>, h))"

text \<open>Two random bytes as the little-endian \<open>u16\<close> they are stored in, with the top bit set.\<close>

definition random_salt :: "bytes \<Rightarrow> u16" where
  "random_salt bs = (push_bit 8 (ucast (bs ! 1)) OR ucast (bs ! 0)) OR 0x8000"

text \<open>Vendor, type, length, salt and encrypted key.\<close>

definition mppe_attr :: "u8 \<Rightarrow> bytes \<Rightarrow> u16 \<Rightarrow> bytes \<Rightarrow> bytes \<Rightarrow> bytes" where
  "mppe_attr vendor_type key salt req_authenticator secret =
     (let e = encrypt_ms_key key salt req_authenticator secret
      in put_be32 RADIUS_VENDOR_ID_MICROSOFT @ [vendor_type, word_of_nat (8 + length e - 4)] @ put_be16 salt @ e)"

definition radius_msg_add_mppe_keys ::
  "env \<Rightarrow> radius_msg \<Rightarrow> bytes \<Rightarrow> bytes \<Rightarrow> bytes \<Rightarrow> bytes \<Rightarrow> hist \<Rightarrow> int \<times> radius_msg \<times> hist" where
  "radius_msg_add_mppe_keys env msg req_authenticator secret send_key recv_key h =
     (let (ok, h) = os_malloc env h in
      if \<not> ok then (0, msg, h)
      else case os_get_random env 2 h of
        (None, h) \<Rightarrow> (0, msg, h)
      | (Some bs, h) \<Rightarrow>
          let salt = random_salt bs in
          (case radius_msg_add_attr env msg RADIUS_ATTR_VENDOR_SPECIFIC
                  (mppe_attr RADIUS_VENDOR_ATTR_MS_MPPE_SEND_KEY send_key salt req_authenticator secret) h of
             (None, msg, h) \<Rightarrow> (0, msg, h)
           | (Some _, msg, h) \<Rightarrow>
               let (ok, h) = os_malloc env h in
               if \<not> ok then (0, msg, h)
               else
                 let salt = salt XOR 1 in
                 (case radius_msg_add_attr env msg RADIUS_ATTR_VENDOR_SPECIFIC
                         (mppe_attr RADIUS_VENDOR_ATTR_MS_MPPE_RECV_KEY recv_key salt req_authenticator secret) h of
                    (None, msg, h) \<Rightarrow> (0, msg, h)
                  | (Some _, msg, h) \<Rightarrow> (1, msg, h))))"

definition radius_msg_add_wfa ::
  "env \<Rightarrow> radius_msg \<Rightarrow> u8 \<Rightarrow> bytes \<Rightarrow> hist \<Rightarrow> int \<times> radius_msg \<times> hist" where
  "radius_msg_add_wfa env msg subtype data h =
     (let (ok, h) = os_malloc env h in
      if \<not> ok then (0, msg, h)
      else case radius_msg_add_attr env msg RADIUS_ATTR_VENDOR_SPECIFIC
                  (put_be32 RADIUS_VENDOR_ID_WFA @ [subtype, word_of_nat (2 + length data)] @ data) h of
             (None, msg, h) \<Rightarrow> (0, msg, h)
           | (Some _, msg, h) \<Rightarrow> (1, msg, h))"

section \<open>User-Password\<close>

definition radius_user_password_hide :: "radius_msg \<Rightarrow> bytes \<Rightarrow> bytes \<Rightarrow> nat \<Rightarrow> bytes option" where
  "radius_user_password_hide msg data secret buf_len =
     (if buf_len < length data + 16 then None
      else
        let padlen = length data mod 16;
            padlen = (if padlen \<noteq> 0 \<and> length data < buf_len then 16 - padlen else 0)
        in Some (encrypt_blocks secret [hdr_authenticator msg] (data @ replicate padlen 0)))"

definition radius_msg_add_attr_user_password ::
  "env \<Rightarrow> radius_msg \<Rightarrow> bytes \<Rightarrow> bytes \<Rightarrow> hist \<Rightarrow> nat option \<times> radius_msg \<times> hist" where
  "radius_msg_add_attr_user_password env msg data secret h =
     (case radius_user_password_hide msg data secret 128 of
        None \<Rightarrow> (None, msg, h)
      | Some buf \<Rightarrow> radius_msg_add_attr env msg RADIUS_ATTR_USER_PASSWORD buf h)"

section \<open>The VLAN of a message\<close>

definition c_atoi :: "string \<Rightarrow> int" where
  "c_atoi s = to_int32 (word_of_int (fst (strtol10 s)))"

record radius_tunnel_attrs =
  tag_used :: nat
  tun_type :: int
  medium_type :: int
  tun_vlanid :: int

type_synonym vlan_scan = "radius_tunnel_attrs list \<times> int \<times> int list"

definition scan_vlan_attr :: "nat \<Rightarrow> u8 \<Rightarrow> bytes \<Rightarrow> vlan_scan \<Rightarrow> vlan_scan" where
  "scan_vlan_attr numtagged type data st =
     (case st of (tunnel, untagged, tagged) \<Rightarrow>
        if data = [] then st
        else
          let tag = unat (data ! 0);
              i = (if RADIUS_TUNNEL_TAGS \<le> tag then 0 else tag);
              tun = tunnel ! i;
              tun = tun\<lparr>tag_used := tag_used tun + 1\<rparr>
          in if type = RADIUS_ATTR_TUNNEL_TYPE then
               if length data \<noteq> 4 then st
               else (tunnel[i := tun\<lparr>tun_type := uint (get_be24 (drop 1 data))\<rparr>], untagged, tagged)
             else if type = RADIUS_ATTR_TUNNEL_MEDIUM_TYPE then
               if length data \<noteq> 4 then st
               else (tunnel[i := tun\<lparr>medium_type := uint (get_be24 (drop 1 data))\<rparr>], untagged, tagged)
             else if type = RADIUS_ATTR_TUNNEL_PRIVATE_GROUP_ID then
               let data = (if tag < RADIUS_TUNNEL_TAGS then drop 1 data else data) in
               if 10 \<le> length data then st
               else
                 let vlan_id = c_atoi (string_of_bytes data) in
                 if vlan_id \<le> 0 then st else (tunnel[i := tun\<lparr>tun_vlanid := vlan_id\<rparr>], untagged, tagged)
             else if type = RADIUS_ATTR_EGRESS_VLANID then
               if length data \<noteq> 4 then st
               else
                 let vlan_id = uint (get_be24 (drop 1 data)) in
                 if vlan_id \<le> 0 then st
                 else if data ! 0 = 0x32 then (tunnel, vlan_id, tagged)
                 else if data ! 0 = 0x31 \<and> length tagged < numtagged then (tunnel, untagged, tagged @ [vlan_id])
                 else st
             else st)"

text \<open>
  The result, the untagged VLAN and the tagged ones found, sorted.  An attribute whose length is
  less than that of its header ends the scan with -1.
\<close>

definition radius_msg_get_vlanid :: "radius_msg \<Rightarrow> nat \<Rightarrow> int \<times> int \<times> int list" where
  "radius_msg_get_vlanid msg numtagged =
     (let scanned = takeWhile (\<lambda>pos. 2 \<le> attr_length msg pos) (rm_attr_pos msg);
          start = (replicate RADIUS_TUNNEL_TAGS
                     \<lparr>tag_used = 0, tun_type = 0, medium_type = 0, tun_vlanid = 0\<rparr>, 0, []);
          (tunnel, untagged, tagged) =
            fold (\<lambda>pos. scan_vlan_attr numtagged (attr_type msg pos) (attr_value msg pos)) scanned start
      in if length scanned < length (rm_attr_pos msg) then (- 1, untagged, tagged)
         else
           let untagged =
             (case find (\<lambda>tun. tag_used tun \<noteq> 0 \<and> tun_type tun = RADIUS_TUNNEL_TYPE_VLAN \<and>
                               medium_type tun = RADIUS_TUNNEL_MEDIUM_TYPE_802 \<and> 0 < tun_vlanid tun) tunnel of
                Some tun \<Rightarrow> tun_vlanid tun
              | None \<Rightarrow> untagged)
           in (if 0 < untagged \<or> tagged \<noteq> [] then 1 else 0, untagged, sort tagged))"

section \<open>Tunnel-Password\<close>

definition tunnel_passwords :: "radius_msg \<Rightarrow> bytes list" where
  "tunnel_passwords msg =
     filter (\<lambda>data. 3 < length data \<and> length data mod 16 = 3)
       (map (attr_value msg)
         (filter (\<lambda>pos. attr_type msg pos = RADIUS_ATTR_TUNNEL_PASSWORD \<and> 5 < attr_length msg pos) (rm_attr_pos msg)))"

text \<open>Blocks \<open>k\<close>, \<open>k - 1\<close>, ..., 1 are decrypted in place, the last one first.\<close>

fun unhide_blocks :: "bytes \<Rightarrow> nat \<Rightarrow> bytes \<Rightarrow> bytes" where
  "unhide_blocks secret 0 str = str"
| "unhide_blocks secret (Suc k) str =
     (let pos = 16 * Suc k;
          hash = md5_vector [secret, take 16 (drop (pos - 16) str)]
      in unhide_blocks secret k (poke pos (xor_bytes (take 16 (drop pos str)) hash) str))"

text \<open>
  The \<open>n\<close>-th password of the message.  The comparison of \<open>str\<close> and \<open>pos\<close> in the source never
  fails, since the length of the value is 3 modulo 16.
\<close>

definition radius_msg_get_tunnel_password ::
  "env \<Rightarrow> radius_msg \<Rightarrow> bytes \<Rightarrow> radius_msg \<Rightarrow> nat \<Rightarrow> hist \<Rightarrow> bytes option \<times> hist" where
  "radius_msg_get_tunnel_password env msg secret sent_msg n h =
     (if length (tunnel_passwords msg) \<le> n then (None, h)
      else
        let (ok, h) = os_malloc env h in
        if \<not> ok then (None, h)
        else
          let buf = tunnel_passwords msg ! n;
              salt = take 2 (drop 1 buf);
              str = unhide_blocks secret ((length buf - 3) div 16 - 1) (drop 3 buf);
              hash = md5_vector [secret, hdr_authenticator sent_msg, salt];
              str = poke 0 (xor_bytes (take 16 str) hash) str;
              keylen = unat (str ! 0)
          in if length buf \<le> 3 + keylen \<or> keylen = 0 then (None, h)
             else let (ok, h) = os_malloc env h
                  in (if ok then Some (take keylen (drop 1 str)) else None, h))"

section \<open>Classes and attribute lists\<close>

fun copy_class_attrs :: "env \<Rightarrow> bytes list \<Rightarrow> hist \<Rightarrow> bytes list \<times> hist" where
  "copy_class_attrs env [] h = ([], h)"
| "copy_class_attrs env (d # ds) h =
     (let (ok, h) = os_malloc env h in
      if \<not> ok then ([], h) else let (r, h) = copy_class_attrs env ds h in (d # r, h))"

text \<open>\<open>src\<close> is None when its array is NULL; the copy may be short, the result is 0 all the same.\<close>

definition radius_copy_class ::
  "env \<Rightarrow> bytes list option \<Rightarrow> bytes list option \<Rightarrow> hist \<Rightarrow> int \<times> bytes list option \<times> hist" where
  "radius_copy_class env dst src h =
     (case src of
        None \<Rightarrow> (0, dst, h)
      | Some attrs \<Rightarrow>
          let (ok, h) = os_malloc env h in
          if \<not> ok then (- 1, None, h)
          else let (r, h) = copy_class_attrs env attrs h in (0, Some r, h))"

definition radius_msg_find_unlisted_attr :: "radius_msg \<Rightarrow> u8 list \<Rightarrow> u8" where
  "radius_msg_find_unlisted_attr msg attrs =
     (case find (\<lambda>pos. attr_type msg pos \<notin> set (takeWhile (\<lambda>a. a \<noteq> 0) attrs)) (rm_attr_pos msg) of
        None \<Rightarrow> 0
      | Some pos \<Rightarrow> attr_type msg pos)"

section \<open>Hidden values are found again\<close>

lemma length_xor_bytes [simp]: "length (xor_bytes xs ys) = min (length xs) (length ys)"
  by (simp add: xor_bytes_def)

lemma xor_bytes_twice: "length xs \<le> length ys \<Longrightarrow> xor_bytes (xor_bytes xs ys) ys = xs"
  by (rule nth_equalityI) (simp_all add: xor_bytes_def min_absorb1 xor.assoc)

lemma xor_bytes_md5: "length xs \<le> 16 \<Longrightarrow> xor_bytes (xor_bytes xs (md5_vector ys)) (md5_vector ys) = xs"
  by (simp add: xor_bytes_twice)

lemma length_encrypt_blocks [simp]: "length (encrypt_blocks secret seed buf) = length buf"
proof (induction secret seed buf rule: encrypt_blocks.induct)
  case (1 secret seed buf)
  then show ?case
    by (subst encrypt_blocks.simps) (simp add: MD5_MAC_LEN_def Let_def min_def)
qed

lemma decrypt_encrypt_blocks: "decrypt_blocks secret seed (encrypt_blocks secret seed buf) = buf"
proof (induction secret seed buf rule: encrypt_blocks.induct)
  case (1 secret seed buf)
  show ?case
  proof (cases "buf = []")
    case True
    then show ?thesis
      by (subst encrypt_blocks.simps) (simp add: decrypt_blocks.simps)
  next
    case False
    define c where "c = xor_bytes (take MD5_MAC_LEN buf) (md5_vector (secret # seed))"
    let ?e = "encrypt_blocks secret [c] (drop MD5_MAC_LEN buf)"
    have e: "encrypt_blocks secret seed buf = c @ ?e"
      using False by (subst encrypt_blocks.simps) (simp add: c_def Let_def)
    have "length c = 16 \<or> ?e = []"
      by (cases "length buf < 16") (simp_all add: c_def MD5_MAC_LEN_def encrypt_blocks.simps [of _ _ "[]"])
    moreover have "length c \<le> 16"
      by (simp add: c_def)
    ultimately have "take 16 (c @ ?e) = c" "drop 16 (c @ ?e) = ?e"
      by auto
    moreover have "0 < length c"
      using False by (simp add: c_def MD5_MAC_LEN_def)
    then have "c \<noteq> []"
      by auto
    ultimately have "decrypt_blocks secret seed (c @ ?e) =
        xor_bytes c (md5_vector (secret # seed)) @ decrypt_blocks secret [c] ?e"
      by (subst decrypt_blocks.simps) (simp add: MD5_MAC_LEN_def)
    also have "decrypt_blocks secret [c] ?e = drop MD5_MAC_LEN buf"
      using "1.IH" [OF False c_def] .
    also have "xor_bytes c (md5_vector (secret # seed)) = take MD5_MAC_LEN buf"
      by (simp add: c_def xor_bytes_md5 MD5_MAC_LEN_def)
    finally show ?thesis
      by (simp add: e)
  qed
qed

text \<open>Decrypting backwards in place, as \<open>radius_msg_get_tunnel_password\<close> does, is decrypting.\<close>

lemma decrypt_one_block:
  assumes "length l = 16"
  shows "decrypt_blocks secret seed l = xor_bytes l (md5_vector (secret # seed))"
proof -
  from assms have "l \<noteq> []"
    by auto
  with assms show ?thesis
    by (subst decrypt_blocks.simps) (simp add: MD5_MAC_LEN_def decrypt_blocks.simps [of _ _ "[]"])
qed

lemma decrypt_blocks_snoc:
  assumes "length p = 16 * Suc k" and "length l = 16"
  shows "decrypt_blocks secret seed (p @ l) =
         decrypt_blocks secret seed p @ xor_bytes l (md5_vector [secret, drop (16 * k) p])"
  using assms(1)
proof (induction k arbitrary: p seed)
  case 0
  with assms(2) show ?case
    by (subst decrypt_blocks.simps) (auto simp: MD5_MAC_LEN_def decrypt_one_block)
next
  case (Suc k)
  then have "p \<noteq> []" and "16 \<le> length p"
    by auto
  moreover from Suc.IH [of "drop 16 p" "[take 16 p]"] Suc.prems
  have "decrypt_blocks secret [take 16 p] (drop 16 p @ l) =
      decrypt_blocks secret [take 16 p] (drop 16 p) @ xor_bytes l (md5_vector [secret, drop (16 * Suc k) p])"
    by (simp add: add.commute)
  ultimately show ?case
    by (subst decrypt_blocks.simps, subst (2) decrypt_blocks.simps) (simp add: MD5_MAC_LEN_def)
qed

lemma unhide_blocks_snoc:
  assumes "length p = 16 * Suc k" and "length l = 16"
  shows "unhide_blocks secret (Suc k) (p @ l) =
         unhide_blocks secret k (p @ xor_bytes l (md5_vector [secret, drop (16 * k) p]))"
proof -
  have "take 16 (drop (16 * k) (p @ l)) = drop (16 * k) p"
    using assms(1) by simp
  moreover have "poke (16 * Suc k) x (p @ l) = p @ x" if "length x = 16" for x
    using poke_middle [of p "16 * Suc k" l x "[]"] assms that by simp
  ultimately show ?thesis
    using assms by (simp add: Let_def)
qed

lemma unhide_blocks_append:
  "length p = 16 * Suc k \<Longrightarrow> unhide_blocks secret k (p @ y) = unhide_blocks secret k p @ y"
proof (induction k arbitrary: p y)
  case (Suc k)
  define q l where "q = take (16 * Suc k) p" and "l = drop (16 * Suc k) p"
  with Suc.prems have p: "p = q @ l" and len: "length q = 16 * Suc k" "length l = 16"
    by simp_all
  let ?x = "xor_bytes l (md5_vector [secret, drop (16 * k) q])"
  have "poke (16 * Suc k) ?x (q @ l @ y) = q @ ?x @ y"
    using poke_middle [of q "16 * Suc k" l ?x y] len by simp
  moreover have "take 16 (drop (16 * k) (q @ l @ y)) = drop (16 * k) q"
    using len by simp
  ultimately have "unhide_blocks secret (Suc k) (p @ y) = unhide_blocks secret k (q @ ?x @ y)"
    using len by (simp add: p Let_def)
  also have "\<dots> = unhide_blocks secret k (q @ ?x) @ y"
    using Suc.IH [OF len(1)] by simp
  finally show ?case
    using unhide_blocks_snoc [OF len] by (simp add: p)
qed simp

lemma unhide_blocks_decrypt:
  "length str = 16 * Suc k \<Longrightarrow>
   unhide_blocks secret k str = take 16 str @ decrypt_blocks secret [take 16 str] (drop 16 str)"
proof (induction k arbitrary: str)
  case 0
  then show ?case
    by (simp add: decrypt_blocks.simps [of _ _ "[]"])
next
  case (Suc k)
  define q l where "q = take (16 * Suc k) str" and "l = drop (16 * Suc k) str"
  with Suc.prems have str: "str = q @ l" and len: "length q = 16 * Suc k" "length l = 16"
    by simp_all
  let ?x = "xor_bytes l (md5_vector [secret, drop (16 * k) q])"
  have "unhide_blocks secret (Suc k) str = unhide_blocks secret k q @ ?x"
    using unhide_blocks_snoc [OF len, of secret] unhide_blocks_append [OF len(1)] by (simp add: str)
  also have "unhide_blocks secret k q = take 16 q @ decrypt_blocks secret [take 16 q] (drop 16 q)"
    by (rule Suc.IH [OF len(1)])
  also have "(take 16 q @ decrypt_blocks secret [take 16 q] (drop 16 q)) @ ?x =
      take 16 str @ decrypt_blocks secret [take 16 str] (drop 16 str)"
  proof (cases k)
    case 0
    with len show ?thesis
      by (simp add: str decrypt_blocks.simps [of _ _ "[]"] decrypt_one_block)
  next
    case (Suc j)
    with len decrypt_blocks_snoc [of "drop 16 q" j l secret "[take 16 q]"] show ?thesis
      by (simp add: str add.commute)
  qed
  finally show ?case .
qed

lemma unhide_is_decrypt:
  assumes "length str = 16 * Suc k"
  shows "(let s = unhide_blocks secret k str in poke 0 (xor_bytes (take 16 s) (md5_vector (secret # seed))) s) =
         decrypt_blocks secret seed str"
proof -
  have "str \<noteq> []"
    using assms by auto
  then have "decrypt_blocks secret seed str =
      xor_bytes (take 16 str) (md5_vector (secret # seed)) @ decrypt_blocks secret [take 16 str] (drop 16 str)"
    by (subst decrypt_blocks.simps) (simp add: MD5_MAC_LEN_def)
  with assms show ?thesis
    by (simp add: unhide_blocks_decrypt Let_def poke_def)
qed

lemma ms_key_len_bounds:
  assumes "n < 255"
  shows "n + 1 \<le> ms_key_len n" and "ms_key_len n mod 16 = 0" and "ms_key_len n \<le> n + 16"
proof -
  define q r where "q = Suc n div 16" and "r = Suc n mod 16"
  then have n: "Suc n = 16 * q + r" "r < 16"
    by simp_all
  have "q mod 16 = q"
    using assms n by (intro mod_less) linarith
  then have "ms_key_len n = (if r \<noteq> 0 then 16 * q + 16 else Suc n)"
    by (simp add: ms_key_len_def Let_def q_def r_def)
  with n show "n + 1 \<le> ms_key_len n" "ms_key_len n mod 16 = 0" "ms_key_len n \<le> n + 16"
    by (cases "r = 0"; simp)+
qed

lemma encrypt_ms_key_plain:
  assumes "length key < 255"
  shows "encrypt_ms_key key salt req_auth secret =
         encrypt_blocks secret [req_auth, put_be16 salt]
           (word_of_nat (length key) # key @ replicate (ms_key_len (length key) - length key - 1) 0)"
proof -
  obtain m where m: "ms_key_len (length key) = Suc (length key + m)"
    using ms_key_len_bounds(1) [OF assms] by (metis Suc_eq_plus1 add_Suc le_iff_add)
  then have "take (ms_key_len (length key))
      (poke 1 key (poke 0 [word_of_nat (length key)] (replicate (ms_key_len (length key)) 0))) =
      word_of_nat (length key) # key @ replicate m 0"
    by (simp add: poke_def)
  with m show ?thesis
    by (simp add: encrypt_ms_key_def Let_def)
qed

lemma length_encrypt_ms_key:
  "length key < 255 \<Longrightarrow> length (encrypt_ms_key key salt req_auth secret) = ms_key_len (length key)"
  using ms_key_len_bounds(1) [of "length key"] by (simp add: encrypt_ms_key_plain)

text \<open>
  C21: an MS-MPPE key of 1 to 254 bytes that was encrypted by \<open>encrypt_ms_key\<close> with a salt is what
  \<open>decrypt_ms_key\<close> finds, given the same authenticator and secret.
\<close>

theorem ms_key_roundtrip:
  assumes "alloc_total env" and "key \<noteq> []" and "length key < 255"
  shows "fst (decrypt_ms_key env (put_be16 salt @ encrypt_ms_key key salt req_auth secret) req_auth secret h) = Some key"
proof -
  define plain where "plain = word_of_nat (length key) # key @ replicate (ms_key_len (length key) - length key - 1) (0 :: u8)"
  have e: "encrypt_ms_key key salt req_auth secret = encrypt_blocks secret [req_auth, put_be16 salt] plain"
    unfolding plain_def by (rule encrypt_ms_key_plain [OF assms(3)])
  have len: "length plain = ms_key_len (length key)"
    using ms_key_len_bounds(1) [OF assms(3)] by (simp add: plain_def)
  have salt: "length (put_be16 salt) = 2"
    by (simp add: put_be16_def)
  have "16 \<le> ms_key_len (length key)"
    using ms_key_len_bounds [OF assms(3)] assms(2) by (auto dest: dvd_imp_le)
  moreover have "unat (plain ! 0) = length key"
    using assms(3) by (simp add: plain_def unat_byte)
  moreover have "plain ! 0 \<noteq> 0"
    using calculation(2) assms(2) by (metis length_0_conv unat_0)
  moreover have "take (length key) (drop 1 plain) = key"
    by (simp add: plain_def)
  moreover have "length key \<le> ms_key_len (length key) - 1"
    using ms_key_len_bounds(1) [OF assms(3)] by simp
  ultimately show ?thesis
    using ms_key_len_bounds(2) [OF assms(3)] salt
    by (simp add: decrypt_ms_key_def e decrypt_encrypt_blocks len os_malloc_total [OF assms(1)] Let_def)
qed

theorem ms_key_roundtrip_witness:
  "fst (decrypt_ms_key ideal_env (put_be16 0x8001 @ encrypt_ms_key (replicate 32 7) 0x8001 (replicate 16 1) [115])
     (replicate 16 1) [115] []) = Some (replicate 32 7)"
  by (rule ms_key_roundtrip [OF ideal_alloc]) simp_all

section \<open>Reading back a tunnel password\<close>

lemma tunnel_passwords_represents:
  assumes "represents msg hdr as"
  shows "tunnel_passwords msg =
    map snd (filter (\<lambda>a. fst a = RADIUS_ATTR_TUNNEL_PASSWORD \<and> 3 < length (snd a) \<and> length (snd a) mod 16 = 3) as)"
proof -
  let ?view = "\<lambda>pos. (attr_type msg pos, attr_value msg pos)"
  have "filter (\<lambda>pos. attr_type msg pos = RADIUS_ATTR_TUNNEL_PASSWORD \<and> 5 < attr_length msg pos) (rm_attr_pos msg) =
        filter ((\<lambda>a. fst a = RADIUS_ATTR_TUNNEL_PASSWORD \<and> 3 < length (snd a)) \<circ> ?view) (rm_attr_pos msg)"
    using represents_view(2) [OF assms] by (intro filter_cong) auto
  then show ?thesis
    by (subst represents_view(1) [OF assms, symmetric])
      (simp add: tunnel_passwords_def filter_map comp_def conj_commute conj_left_commute)
qed

lemma tunnel_password_found:
  assumes "alloc_total env" and rep: "represents msg hdr as"
    and attr: "filter (\<lambda>a. fst a = RADIUS_ATTR_TUNNEL_PASSWORD) as =
      [(RADIUS_ATTR_TUNNEL_PASSWORD, tag # put_be16 salt @ encrypt_ms_key key salt (hdr_authenticator sent) secret)]"
    and key: "key \<noteq> []" "length key < 255"
  shows "fst (radius_msg_get_tunnel_password env msg secret sent 0 h) = Some key"
proof -
  define plain where "plain = word_of_nat (length key) # key @ replicate (ms_key_len (length key) - length key - 1) (0 :: u8)"
  define e where "e = encrypt_ms_key key salt (hdr_authenticator sent) secret"
  have e: "e = encrypt_blocks secret [hdr_authenticator sent, put_be16 salt] plain"
    unfolding plain_def e_def by (rule encrypt_ms_key_plain [OF key(2)])
  have len: "length plain = ms_key_len (length key)" "length e = ms_key_len (length key)"
    using ms_key_len_bounds(1) [OF key(2)] by (simp_all add: plain_def e)
  let ?v = "tag # put_be16 salt @ e"
  have salt: "length (put_be16 salt) = 2"
    by (simp add: put_be16_def)
  obtain k where k: "ms_key_len (length key) = 16 * Suc k"
    using ms_key_len_bounds(1,2) [OF key(2)]
    by (metis add_eq_0_iff_both_eq_0 dvdE le_zero_eq mod_0_imp_dvd mult_0_right not0_implies_Suc one_neq_zero)
  have "filter (\<lambda>a. fst a = RADIUS_ATTR_TUNNEL_PASSWORD \<and> 3 < length (snd a) \<and> length (snd a) mod 16 = 3) as =
      filter (\<lambda>a. 3 < length (snd a) \<and> length (snd a) mod 16 = 3) (filter (\<lambda>a. fst a = RADIUS_ATTR_TUNNEL_PASSWORD) as)"
    by (simp add: conj_commute)
  then have tp: "tunnel_passwords msg = [?v]"
    using len k salt by (simp add: tunnel_passwords_represents [OF rep] attr flip: e_def)
  let ?s = "unhide_blocks secret k e"
  have dec: "poke 0 (xor_bytes (take 16 ?s) (md5_vector [secret, hdr_authenticator sent, put_be16 salt])) ?s = plain"
    using unhide_is_decrypt [of e k secret "[hdr_authenticator sent, put_be16 salt]"] len k
    by (simp add: e decrypt_encrypt_blocks Let_def)
  have "unat (plain ! 0) = length key"
    using key(2) by (simp add: plain_def unat_byte)
  moreover have "take (length key) (drop 1 plain) = key"
    by (simp add: plain_def)
  moreover have "length key < 16 * Suc k"
    using ms_key_len_bounds(1) [OF key(2)] k by simp
  ultimately show ?thesis
    using key(1) salt len k dec
    by (simp add: radius_msg_get_tunnel_password_def tp os_malloc_total [OF assms(1)] Let_def)
qed

section \<open>Reading back a VLAN\<close>

lemma string_of_bytes_of_string [simp]: "string_of_bytes (bytes_of_string s) = s"
  by (simp add: string_of_bytes_def bytes_of_string_def comp_def unat_of_nat)

lemma c_atoi_show_nat: "n < 2 ^ 31 \<Longrightarrow> c_atoi (show_nat n) = int n"
  by (simp add: c_atoi_def strtol10_show_nat to_int32_def unsigned_of_nat signed_of_nat take_bit_nat_eq_self
      signed_take_bit_int_eq_self)

definition vlan_attr_types :: "u8 set" where
  "vlan_attr_types = {RADIUS_ATTR_TUNNEL_TYPE, RADIUS_ATTR_TUNNEL_MEDIUM_TYPE, RADIUS_ATTR_TUNNEL_PRIVATE_GROUP_ID,
     RADIUS_ATTR_EGRESS_VLANID}"

lemma scan_other: "type \<notin> vlan_attr_types \<Longrightarrow> scan_vlan_attr n type data st = st"
  by (cases st) (simp add: scan_vlan_attr_def vlan_attr_types_def Let_def)

lemma scan_others:
  "\<forall>a \<in> set as. fst a \<notin> vlan_attr_types \<Longrightarrow> fold (\<lambda>a. scan_vlan_attr n (fst a) (snd a)) as st = st"
  by (induction as) (simp_all add: scan_other)

lemma fold_view:
  assumes "represents msg hdr as"
  shows "fold (\<lambda>pos. f (attr_type msg pos) (attr_value msg pos)) (rm_attr_pos msg) st =
         fold (\<lambda>a. f (fst a) (snd a)) as st"
  by (subst represents_view(1) [OF assms, symmetric]) (simp add: fold_map comp_def)

definition vlan_attrs :: "nat \<Rightarrow> (u8 \<times> bytes) list" where
  "vlan_attrs v =
     [(RADIUS_ATTR_TUNNEL_TYPE, put_be32 13), (RADIUS_ATTR_TUNNEL_MEDIUM_TYPE, put_be32 6),
      (RADIUS_ATTR_TUNNEL_PRIVATE_GROUP_ID, bytes_of_string (show_nat v))]"

lemma scan_vlan_attrs:
  assumes "0 < v" and "v < 10 ^ 9" and "tunnel \<noteq> []"
  shows "fold (\<lambda>a. scan_vlan_attr n (fst a) (snd a)) (vlan_attrs v) (tunnel, untagged, tagged) =
    (tunnel[0 := (tunnel ! 0)\<lparr>tag_used := tag_used (tunnel ! 0) + 3, tun_type := 13, medium_type := 6, tun_vlanid := int v\<rparr>],
     untagged, tagged)"
proof -
  have be: "put_be32 13 = [0, 0, 0, 13]" "put_be32 6 = [0, 0, 0, 6]"
    by (simp_all add: put_be32_def drop_bit_eq_div)
  have get: "uint (get_be24 [0, 0, 13]) = 13" "uint (get_be24 [0, 0, 6]) = 6"
    by (simp_all add: get_be24_def)
  obtain c cs where c: "show_nat v = c # cs"
    by (meson neq_Nil_conv show_nat_nonempty)
  moreover have "list_all c_isdigit (show_nat v)"
    by (rule show_nat_digits)
  ultimately have "48 \<le> ord c"
    by (simp add: c_isdigit_def)
  then have tag: "32 \<le> unat (bytes_of_string (show_nat v) ! 0)"
    by (simp add: c bytes_of_string_def unat_of_nat)
  have short: "length (bytes_of_string (show_nat v)) < 10"
    using length_show_nat [of v 8] assms(2) by (simp add: bytes_of_string_def)
  have nonempty: "bytes_of_string (show_nat v) \<noteq> []"
    by (simp add: bytes_of_string_def)
  have atoi: "c_atoi (show_nat v) = int v"
    using assms(2) by (intro c_atoi_show_nat) simp
  note types = RADIUS_ATTR_TUNNEL_TYPE_def RADIUS_ATTR_TUNNEL_MEDIUM_TYPE_def RADIUS_ATTR_TUNNEL_PRIVATE_GROUP_ID_def
  have "scan_vlan_attr n RADIUS_ATTR_TUNNEL_TYPE (put_be32 13) (t, u, tg) =
      (t[0 := (t ! 0)\<lparr>tag_used := tag_used (t ! 0) + 1, tun_type := 13\<rparr>], u, tg)" for t u tg
    by (simp add: scan_vlan_attr_def be get RADIUS_TUNNEL_TAGS_def Let_def)
  moreover have "scan_vlan_attr n RADIUS_ATTR_TUNNEL_MEDIUM_TYPE (put_be32 6) (t, u, tg) =
      (t[0 := (t ! 0)\<lparr>tag_used := tag_used (t ! 0) + 1, medium_type := 6\<rparr>], u, tg)" for t u tg
    by (simp add: scan_vlan_attr_def be get types RADIUS_TUNNEL_TAGS_def Let_def)
  moreover have "scan_vlan_attr n RADIUS_ATTR_TUNNEL_PRIVATE_GROUP_ID (bytes_of_string (show_nat v)) (t, u, tg) =
      (t[0 := (t ! 0)\<lparr>tag_used := tag_used (t ! 0) + 1, tun_vlanid := int v\<rparr>], u, tg)" for t u tg
    using tag short nonempty assms(1)
    by (simp add: scan_vlan_attr_def types RADIUS_TUNNEL_TAGS_def atoi Let_def)
  ultimately show ?thesis
    using assms(3) by (cases "tunnel ! 0") (simp add: vlan_attrs_def numeral_3_eq_3)
qed

lemma vlan_found:
  assumes "represents msg hdr (pre @ vlan_attrs v @ post)" and "0 < v" and "v < 10 ^ 9"
    and "\<forall>a \<in> set pre \<union> set post. fst a \<notin> vlan_attr_types"
  shows "radius_msg_get_vlanid msg n = (1, int v, [])"
proof -
  let ?start = "replicate RADIUS_TUNNEL_TAGS \<lparr>tag_used = 0, tun_type = 0, medium_type = 0, tun_vlanid = 0\<rparr>"
  have all: "takeWhile (\<lambda>pos. 2 \<le> attr_length msg pos) (rm_attr_pos msg) = rm_attr_pos msg"
    using represents_view(2) [OF assms(1)] by (simp add: takeWhile_eq_all_conv)
  have tags: "?start \<noteq> []" "?start ! 0 = \<lparr>tag_used = 0, tun_type = 0, medium_type = 0, tun_vlanid = 0\<rparr>"
    by (simp_all add: RADIUS_TUNNEL_TAGS_def)
  let ?fin = "?start[0 := \<lparr>tag_used = 3, tun_type = 13, medium_type = 6, tun_vlanid = int v\<rparr>]"
  have "fold (\<lambda>pos. scan_vlan_attr n (attr_type msg pos) (attr_value msg pos)) (rm_attr_pos msg) (?start, 0, []) =
      (?fin, 0, [])"
    using assms(4) scan_vlan_attrs [OF assms(2,3) tags(1), of n 0 "[]"]
    by (simp add: fold_view [OF assms(1)] scan_others tags)
  moreover have "?fin = \<lparr>tag_used = 3, tun_type = 13, medium_type = 6, tun_vlanid = int v\<rparr> # tl ?start"
    using tags(1) by (cases ?start) simp_all
  ultimately show ?thesis
    using assms(2)
    by (simp add: radius_msg_get_vlanid_def all RADIUS_TUNNEL_TYPE_VLAN_def RADIUS_TUNNEL_MEDIUM_TYPE_802_def Let_def)
qed

lemma vlan_not_found:
  assumes "represents msg hdr as" and "\<forall>a \<in> set as. fst a \<notin> vlan_attr_types"
  shows "radius_msg_get_vlanid msg n = (0, 0, [])"
proof -
  have all: "takeWhile (\<lambda>pos. 2 \<le> attr_length msg pos) (rm_attr_pos msg) = rm_attr_pos msg"
    using represents_view(2) [OF assms(1)] by (simp add: takeWhile_eq_all_conv)
  have "find P (replicate k t) = None" if "\<not> P t" for P k and t :: radius_tunnel_attrs
    using that by (induction k) auto
  then show ?thesis
    by (simp add: radius_msg_get_vlanid_def all fold_view [OF assms(1)] scan_others [OF assms(2)] Let_def)
qed

end
