(* ===== verification/Bridge_List.thy ===== *)
theory Bridge_List
  imports Os_Utils
begin

text \<open>
  supervisor/bridge_list.c: the list of bridged MAC addresses.  A list node is a heap object,
  so it carries its address; \<open>bl_next\<close> is the next address the allocator hands out.  The doubly
  linked list is the HOL list of its nodes from first to last: \<open>dl_list_add\<close> puts a node in
  front, \<open>dl_list_del\<close> takes the node with the given address out.  Pointer arguments that no
  caller passes as NULL are values.

  The abstract view is the relation of bridged pairs; the locale \<open>pair_store\<close> is the contract
  of a store for a symmetric relation, interpreted at the end on the list.
\<close>

section \<open>Stores of symmetric pairs\<close>

datatype 'k pair_op = Link 'k 'k | Unlink 'k 'k

fun pair_spec :: "'k pair_op \<Rightarrow> ('k \<times> 'k) set \<Rightarrow> ('k \<times> 'k) set" where
  "pair_spec (Link a b) E = (if a = b then E else E \<union> {(a, b), (b, a)})"
| "pair_spec (Unlink a b) E = E - {(a, b), (b, a)}"

fun concerns :: "'k pair_op \<Rightarrow> 'k \<Rightarrow> 'k \<Rightarrow> bool" where
  "concerns (Link a b) x y \<longleftrightarrow> (a, b) = (x, y) \<or> (a, b) = (y, x)"
| "concerns (Unlink a b) x y \<longleftrightarrow> (a, b) = (x, y) \<or> (a, b) = (y, x)"

lemma pair_spec_other: "\<not> concerns c x y \<Longrightarrow> (x, y) \<in> pair_spec c E \<longleftrightarrow> (x, y) \<in> E"
  by (cases c) auto

locale pair_store =
  fixes rel :: "'s \<Rightarrow> ('k \<times> 'k) set"
    and inv :: "'s \<Rightarrow> bool"
    and link :: "'k \<Rightarrow> 'k \<Rightarrow> 's \<Rightarrow> 's"
    and unlink :: "'k \<Rightarrow> 'k \<Rightarrow> 's \<Rightarrow> 's"
  assumes rel_link: "inv s \<Longrightarrow> rel (link a b s) = pair_spec (Link a b) (rel s)"
    and rel_unlink: "inv s \<Longrightarrow> rel (unlink a b s) = pair_spec (Unlink a b) (rel s)"
    and inv_link: "inv s \<Longrightarrow> inv (link a b s)"
    and inv_unlink: "inv s \<Longrightarrow> inv (unlink a b s)"
    and rel_sym: "inv s \<Longrightarrow> (a, b) \<in> rel s \<Longrightarrow> (b, a) \<in> rel s"
    and rel_irrefl: "inv s \<Longrightarrow> (a, a) \<notin> rel s"
begin

fun exec :: "'k pair_op \<Rightarrow> 's \<Rightarrow> 's" where
  "exec (Link a b) s = link a b s"
| "exec (Unlink a b) s = unlink a b s"

lemma exec_inv: "inv s \<Longrightarrow> inv (exec c s)"
  by (cases c) (auto intro: inv_link inv_unlink)

lemma exec_rel: "inv s \<Longrightarrow> rel (exec c s) = pair_spec c (rel s)"
  by (cases c) (auto simp: rel_link rel_unlink simp del: pair_spec.simps)

lemma run_inv: "inv s \<Longrightarrow> inv (fold exec cs s)"
  by (induction cs arbitrary: s) (auto intro: exec_inv)

lemma run_rel: "inv s \<Longrightarrow> rel (fold exec cs s) = fold pair_spec cs (rel s)"
  by (induction cs arbitrary: s) (auto simp: exec_rel exec_inv)

text \<open>Commands about other pairs do not matter: the last one about a pair decides.\<close>

lemma run_last:
  assumes "inv s" and "\<forall>d \<in> set ds. \<not> concerns d x y"
  shows "(x, y) \<in> rel (fold exec (cs @ c # ds) s) \<longleftrightarrow>
         (x, y) \<in> pair_spec c (rel (fold exec cs s))"
proof -
  have "(x, y) \<in> fold pair_spec ds E \<longleftrightarrow> (x, y) \<in> E" for E
    using assms(2) by (induction ds arbitrary: E) (auto simp: pair_spec_other)
  then show ?thesis
    using assms(1) by (simp add: run_rel run_inv exec_inv exec_rel)
qed

end

section \<open>The list\<close>

record bridge_mac_tuple =
  src_addr :: mac
  dst_addr :: mac

record bridge_mac_list =
  bl_nodes :: "(nat \<times> bridge_mac_tuple) list"
  bl_next :: nat

definition init_bridge_list :: "env \<Rightarrow> hist \<Rightarrow> bridge_mac_list option \<times> hist" where
  "init_bridge_list env h =
     (let (ok, h') = os_malloc env h in
      if ok then (Some \<lparr>bl_nodes = [], bl_next = 0\<rparr>, h') else (None, h'))"

definition bridge_mac_list_free ::
  "nat option \<Rightarrow> bridge_mac_list \<Rightarrow> hist \<Rightarrow> bridge_mac_list \<times> hist" where
  "bridge_mac_list_free e ml h =
     (case e of
        None \<Rightarrow> (ml, h)
      | Some p \<Rightarrow>
          if p \<in> fst ` set (bl_nodes ml)
          then (ml\<lparr>bl_nodes := filter (\<lambda>n. fst n \<noteq> p) (bl_nodes ml)\<rparr>, h)
          else (ml, E_ub Double_Free # h))"

fun free_bridge_nodes ::
  "(nat \<times> bridge_mac_tuple) list \<Rightarrow> bridge_mac_list \<Rightarrow> hist \<Rightarrow> bridge_mac_list \<times> hist" where
  "free_bridge_nodes [] ml h = (ml, h)"
| "free_bridge_nodes (n # ns) ml h =
     (let (ml', h') = bridge_mac_list_free (Some (fst n)) ml h in free_bridge_nodes ns ml' h')"

text \<open>\<open>free_bridge_list\<close> frees the first node until none is left.\<close>

definition free_bridge_list :: "bridge_mac_list \<Rightarrow> hist \<Rightarrow> bridge_mac_list \<times> hist" where
  "free_bridge_list ml h = free_bridge_nodes (bl_nodes ml) ml h"

definition compare_edge :: "nat \<times> bridge_mac_tuple \<Rightarrow> mac \<Rightarrow> mac \<Rightarrow> bool" where
  "compare_edge e mac_addr_left mac_addr_right \<longleftrightarrow>
     src_addr (snd e) = mac_addr_left \<and> dst_addr (snd e) = mac_addr_right"

definition get_bridge_mac ::
  "bridge_mac_list \<Rightarrow> mac \<Rightarrow> mac \<Rightarrow> nat option \<times> nat option" where
  "get_bridge_mac ml mac_addr_left mac_addr_right =
     (map_option fst (find_last (\<lambda>e. compare_edge e mac_addr_left mac_addr_right) (bl_nodes ml)),
      map_option fst (find_last (\<lambda>e. compare_edge e mac_addr_right mac_addr_left) (bl_nodes ml)))"

definition check_bridge_exist :: "bridge_mac_list \<Rightarrow> mac \<Rightarrow> mac \<Rightarrow> int" where
  "check_bridge_exist ml mac_addr_left mac_addr_right =
     (case get_bridge_mac ml mac_addr_left mac_addr_right of
        (Some _, Some _) \<Rightarrow> 1 | _ \<Rightarrow> 0)"

definition add_bridge_mac ::
  "env \<Rightarrow> bridge_mac_list \<Rightarrow> mac \<Rightarrow> mac \<Rightarrow> hist \<Rightarrow> int \<times> bridge_mac_list \<times> hist" where
  "add_bridge_mac env ml mac_addr_left mac_addr_right h =
     (if mac_addr_left = mac_addr_right then (- 1, ml, h)
      else (case get_bridge_mac ml mac_addr_left mac_addr_right of
        (Some _, Some _) \<Rightarrow> (0, ml, h)
      | _ \<Rightarrow>
          (let (ok1, h1) = os_malloc env h in
           if \<not> ok1 then (- 1, ml, h1)
           else let (ok2, h2) = os_malloc env h1 in
             if \<not> ok2 then (- 1, ml, h2)
             else
               let src_el = (bl_next ml,
                     \<lparr>src_addr = mac_addr_left, dst_addr = mac_addr_right\<rparr>);
                   dst_el = (Suc (bl_next ml),
                     \<lparr>src_addr = mac_addr_right, dst_addr = mac_addr_left\<rparr>)
               in (1, \<lparr>bl_nodes = dst_el # src_el # bl_nodes ml,
                       bl_next = Suc (Suc (bl_next ml))\<rparr>, h2))))"

definition remove_bridge_mac ::
  "bridge_mac_list \<Rightarrow> mac \<Rightarrow> mac \<Rightarrow> hist \<Rightarrow> int \<times> bridge_mac_list \<times> hist" where
  "remove_bridge_mac ml mac_addr_left mac_addr_right h =
     (let (left_edge, right_edge) = get_bridge_mac ml mac_addr_left mac_addr_right;
          (ml1, h1) = bridge_mac_list_free left_edge ml h;
          (ml2, h2) = bridge_mac_list_free right_edge ml1 h1
      in (0, ml2, h2))"

definition get_src_mac_list :: "bridge_mac_list \<Rightarrow> mac \<Rightarrow> int \<times> mac list" where
  "get_src_mac_list ml src =
     (let arr = map (\<lambda>e. dst_addr (snd e)) (filter (\<lambda>e. src = src_addr (snd e)) (bl_nodes ml))
      in (int (length arr), arr))"

definition get_all_bridge_edges :: "bridge_mac_list \<Rightarrow> int \<times> bridge_mac_tuple list" where
  "get_all_bridge_edges ml = (int (length (bl_nodes ml)), map snd (bl_nodes ml))"

section \<open>Invariant and abstract view\<close>

definition bl_wf :: "bridge_mac_list \<Rightarrow> bool" where
  "bl_wf ml \<longleftrightarrow>
     distinct (map fst (bl_nodes ml)) \<and>
     list_all (\<lambda>n. fst n < bl_next ml) (bl_nodes ml) \<and>
     distinct (map snd (bl_nodes ml)) \<and>
     list_all (\<lambda>n. src_addr (snd n) \<noteq> dst_addr (snd n)) (bl_nodes ml) \<and>
     list_all (\<lambda>n. \<lparr>src_addr = dst_addr (snd n), dst_addr = src_addr (snd n)\<rparr>
                     \<in> snd ` set (bl_nodes ml)) (bl_nodes ml)"

definition bl_edges :: "bridge_mac_list \<Rightarrow> (mac \<times> mac) set" where
  "bl_edges ml = (\<lambda>n. (src_addr (snd n), dst_addr (snd n))) ` set (bl_nodes ml)"

lemma bl_edgesI: "(p, \<lparr>src_addr = a, dst_addr = b\<rparr>) \<in> set (bl_nodes ml) \<Longrightarrow> (a, b) \<in> bl_edges ml"
  by (force simp: bl_edges_def)

lemma bl_edgesE:
  assumes "(a, b) \<in> bl_edges ml"
  obtains p where "(p, \<lparr>src_addr = a, dst_addr = b\<rparr>) \<in> set (bl_nodes ml)"
proof -
  from assms obtain n where n: "n \<in> set (bl_nodes ml)" "src_addr (snd n) = a" "dst_addr (snd n) = b"
    by (auto simp: bl_edges_def)
  from n(2,3) have "snd n = \<lparr>src_addr = a, dst_addr = b\<rparr>"
    by (cases "snd n") simp
  then have "n = (fst n, \<lparr>src_addr = a, dst_addr = b\<rparr>)"
    by (cases n) simp
  with n(1) that show ?thesis by metis
qed

lemma bl_wf_mirror:
  assumes "bl_wf ml" and "(p, \<lparr>src_addr = a, dst_addr = b\<rparr>) \<in> set (bl_nodes ml)"
  shows "\<lparr>src_addr = b, dst_addr = a\<rparr> \<in> snd ` set (bl_nodes ml)"
proof -
  from assms(1) have "\<forall>n \<in> set (bl_nodes ml).
      \<lparr>src_addr = dst_addr (snd n), dst_addr = src_addr (snd n)\<rparr> \<in> snd ` set (bl_nodes ml)"
    by (simp add: bl_wf_def list_all_iff)
  from bspec [OF this assms(2)] show ?thesis by simp
qed

lemma bl_wf_sym:
  assumes "bl_wf ml" and "(a, b) \<in> bl_edges ml"
  shows "(b, a) \<in> bl_edges ml"
proof -
  from assms(2) obtain p where "(p, \<lparr>src_addr = a, dst_addr = b\<rparr>) \<in> set (bl_nodes ml)"
    by (rule bl_edgesE)
  with assms(1) have "\<lparr>src_addr = b, dst_addr = a\<rparr> \<in> snd ` set (bl_nodes ml)"
    by (rule bl_wf_mirror)
  then show ?thesis
    by (auto intro: bl_edgesI)
qed

lemma bl_wf_irrefl: "bl_wf ml \<Longrightarrow> (a, a) \<notin> bl_edges ml"
  by (auto simp: bl_wf_def list_all_iff bl_edges_def)

lemma bl_wf_init: "bl_wf \<lparr>bl_nodes = [], bl_next = n\<rparr>"
  by (simp add: bl_wf_def)

lemma bl_wf_ptr_unique:
  assumes "bl_wf ml" and "n \<in> set (bl_nodes ml)" and "m \<in> set (bl_nodes ml)"
    and "snd n = snd m"
  shows "n = m"
proof -
  from assms(1) have "inj_on snd (set (bl_nodes ml))"
    by (simp add: bl_wf_def distinct_map)
  then show ?thesis
    using assms(2-4) by (meson inj_onD)
qed

lemma find_edge_None:
  "find_last (\<lambda>e. compare_edge e a b) (bl_nodes ml) = None \<longleftrightarrow> (a, b) \<notin> bl_edges ml"
  by (auto simp: find_last_None_iff compare_edge_def bl_edges_def)

lemma find_edge_Some:
  assumes "find_last (\<lambda>e. compare_edge e a b) (bl_nodes ml) = Some n"
  shows "n \<in> set (bl_nodes ml) \<and> snd n = \<lparr>src_addr = a, dst_addr = b\<rparr>"
  using find_last_Some [OF assms] by (cases "snd n") (auto simp: compare_edge_def)

lemma check_bridge_exist_iff:
  assumes "bl_wf ml"
  shows "check_bridge_exist ml a b = (if (a, b) \<in> bl_edges ml then 1 else 0)"
proof -
  have "find_last (\<lambda>e. compare_edge e b a) (bl_nodes ml) = None \<longleftrightarrow> (a, b) \<notin> bl_edges ml"
    using find_edge_None [of b a ml] bl_wf_sym [OF assms] by blast
  moreover have "find_last (\<lambda>e. compare_edge e a b) (bl_nodes ml) = None \<longleftrightarrow> (a, b) \<notin> bl_edges ml"
    by (rule find_edge_None)
  ultimately show ?thesis
    by (auto simp: check_bridge_exist_def get_bridge_mac_def split: option.splits)
qed

section \<open>Removal\<close>

text \<open>
  Under the invariant \<open>remove_bridge_mac\<close> frees exactly the two nodes of the pair: no node
  twice, and no other node.
\<close>

lemma same_node:
  assumes "bl_wf ml" and "find_last (\<lambda>e. compare_edge e a b) (bl_nodes ml) = Some n"
    and "m \<in> set (bl_nodes ml)"
  shows "fst m = fst n \<longleftrightarrow> snd m = \<lparr>src_addr = a, dst_addr = b\<rparr>"
proof -
  from find_edge_Some [OF assms(2)] have n: "n \<in> set (bl_nodes ml)"
    and sn: "snd n = \<lparr>src_addr = a, dst_addr = b\<rparr>" by auto
  from assms(1) have "inj_on fst (set (bl_nodes ml))"
    by (simp add: bl_wf_def distinct_map)
  then have "fst m = fst n \<longleftrightarrow> m = n"
    using assms(3) n by (meson inj_onD)
  moreover have "snd m = snd n \<longleftrightarrow> m = n"
    using bl_wf_ptr_unique [OF assms(1,3) n] by blast
  ultimately show ?thesis
    using sn by simp
qed

lemma remove_present:
  assumes wf: "bl_wf ml" and "a \<noteq> b"
    and n: "find_last (\<lambda>e. compare_edge e a b) (bl_nodes ml) = Some n"
    and m: "find_last (\<lambda>e. compare_edge e b a) (bl_nodes ml) = Some m"
  shows "remove_bridge_mac ml a b h =
           (0, ml\<lparr>bl_nodes := filter (\<lambda>k. snd k \<noteq> \<lparr>src_addr = a, dst_addr = b\<rparr> \<and>
                                      snd k \<noteq> \<lparr>src_addr = b, dst_addr = a\<rparr>) (bl_nodes ml)\<rparr>, h)"
proof -
  have sets: "n \<in> set (bl_nodes ml)" "m \<in> set (bl_nodes ml)"
    and tm: "snd m = \<lparr>src_addr = b, dst_addr = a\<rparr>"
    using find_edge_Some [OF n] find_edge_Some [OF m] by auto
  have "fst m \<noteq> fst n"
    using same_node [OF wf n sets(2)] tm assms(2) by simp
  then have "fst m \<in> fst ` set (filter (\<lambda>k. fst k \<noteq> fst n) (bl_nodes ml))"
    using sets by auto
  moreover have "filter (\<lambda>k. fst k \<noteq> fst n \<and> fst k \<noteq> fst m) (bl_nodes ml) =
      filter (\<lambda>k. snd k \<noteq> \<lparr>src_addr = a, dst_addr = b\<rparr> \<and>
                  snd k \<noteq> \<lparr>src_addr = b, dst_addr = a\<rparr>) (bl_nodes ml)"
    using same_node [OF wf n] same_node [OF wf m] by (intro filter_cong) auto
  ultimately show ?thesis
    using n m sets
    by (simp add: remove_bridge_mac_def get_bridge_mac_def bridge_mac_list_free_def)
qed

lemma remove_bridge_mac_eq:
  assumes wf: "bl_wf ml"
  shows "remove_bridge_mac ml a b h =
           (0, ml\<lparr>bl_nodes := filter (\<lambda>k. snd k \<noteq> \<lparr>src_addr = a, dst_addr = b\<rparr> \<and>
                                      snd k \<noteq> \<lparr>src_addr = b, dst_addr = a\<rparr>) (bl_nodes ml)\<rparr>, h)"
proof (cases "(a, b) \<in> bl_edges ml")
  case True
  then have "(b, a) \<in> bl_edges ml" and ab: "a \<noteq> b"
    using wf bl_wf_sym bl_wf_irrefl by auto
  then obtain n m where "find_last (\<lambda>e. compare_edge e a b) (bl_nodes ml) = Some n"
    and "find_last (\<lambda>e. compare_edge e b a) (bl_nodes ml) = Some m"
    using find_edge_None [of a b ml] find_edge_None [of b a ml] True by auto
  with wf ab show ?thesis by (rule remove_present)
next
  case False
  then have ba: "(b, a) \<notin> bl_edges ml"
    using wf bl_wf_sym by blast
  have none: "find_last (\<lambda>e. compare_edge e a b) (bl_nodes ml) = None"
    "find_last (\<lambda>e. compare_edge e b a) (bl_nodes ml) = None"
    using find_edge_None False ba by auto
  have "filter (\<lambda>k. snd k \<noteq> \<lparr>src_addr = a, dst_addr = b\<rparr> \<and>
      snd k \<noteq> \<lparr>src_addr = b, dst_addr = a\<rparr>) (bl_nodes ml) = bl_nodes ml"
    using False ba by (intro filter_True) (auto dest: bl_edgesI)
  with none show ?thesis
    by (simp add: remove_bridge_mac_def get_bridge_mac_def bridge_mac_list_free_def)
qed

lemma remove_edges:
  assumes "bl_wf ml" and "remove_bridge_mac ml a b h = (r, ml', h')"
  shows "bl_edges ml' = bl_edges ml - {(a, b), (b, a)}"
proof -
  let ?keep = "\<lambda>k. snd k \<noteq> \<lparr>src_addr = a, dst_addr = b\<rparr> \<and> snd k \<noteq> \<lparr>src_addr = b, dst_addr = a\<rparr>"
  have keep: "?keep k \<longleftrightarrow> (src_addr (snd k), dst_addr (snd k)) \<notin> {(a, b), (b, a)}"
    for k :: "nat \<times> bridge_mac_tuple"
    by (cases "snd k") auto
  from assms have "bl_nodes ml' = filter ?keep (bl_nodes ml)"
    by (auto simp: remove_bridge_mac_eq)
  then show ?thesis
    unfolding bl_edges_def by (auto simp: keep)
qed

lemma remove_wf:
  assumes wf: "bl_wf ml" and "remove_bridge_mac ml a b h = (r, ml', h')"
  shows "bl_wf ml'"
proof -
  let ?ab = "\<lparr>src_addr = a, dst_addr = b\<rparr>" and ?ba = "\<lparr>src_addr = b, dst_addr = a\<rparr>"
  from assms have ml': "ml' = ml\<lparr>bl_nodes := filter (\<lambda>k. snd k \<noteq> ?ab \<and> snd k \<noteq> ?ba) (bl_nodes ml)\<rparr>"
    by (simp add: remove_bridge_mac_eq)
  have "\<lparr>src_addr = dst_addr (snd n), dst_addr = src_addr (snd n)\<rparr> \<in> snd ` set (bl_nodes ml')"
    if n: "n \<in> set (bl_nodes ml')" for n
  proof -
    let ?rev = "\<lparr>src_addr = dst_addr (snd n), dst_addr = src_addr (snd n)\<rparr>"
    have "?rev \<in> snd ` set (bl_nodes ml)"
      using n wf by (auto simp: ml' bl_wf_def list_all_iff)
    moreover have "?rev \<noteq> ?ab" and "?rev \<noteq> ?ba"
      using n by (cases "snd n"; auto simp: ml')+
    ultimately show ?thesis
      by (auto simp: ml')
  qed
  then show ?thesis
    using wf by (auto simp: bl_wf_def ml' list_all_iff distinct_map intro: inj_on_subset)
qed

section \<open>Insertion\<close>

lemma add_bridge_mac_cases:
  assumes "bl_wf ml" and "add_bridge_mac env ml a b h = (r, ml', h')"
  obtains (same) "a = b" "r = - 1" "ml' = ml"
  | (present) "a \<noteq> b" "(a, b) \<in> bl_edges ml" "r = 0" "ml' = ml"
  | (no_memory) "a \<noteq> b" "(a, b) \<notin> bl_edges ml" "\<not> alloc_total env" "r = - 1" "ml' = ml"
  | (added) "a \<noteq> b" "(a, b) \<notin> bl_edges ml" "r = 1"
      "ml' = \<lparr>bl_nodes = (Suc (bl_next ml), \<lparr>src_addr = b, dst_addr = a\<rparr>) #
                 (bl_next ml, \<lparr>src_addr = a, dst_addr = b\<rparr>) # bl_nodes ml,
              bl_next = Suc (Suc (bl_next ml))\<rparr>"
proof (cases "a = b")
  case True
  with assms(2) show ?thesis by (simp add: add_bridge_mac_def same)
next
  case False
  have sym: "(b, a) \<in> bl_edges ml \<longleftrightarrow> (a, b) \<in> bl_edges ml"
    using bl_wf_sym [OF assms(1)] by blast
  show ?thesis
  proof (cases "(a, b) \<in> bl_edges ml")
    case True
    with False sym assms(2) find_edge_None [of a b ml] find_edge_None [of b a ml] show ?thesis
      by (auto simp: add_bridge_mac_def get_bridge_mac_def intro: present)
  next
    case notin: False
    with sym have "get_bridge_mac ml a b = (None, None)"
      using find_edge_None [of a b ml] find_edge_None [of b a ml] by (simp add: get_bridge_mac_def)
    with False notin assms(2) show ?thesis
      by (auto simp: add_bridge_mac_def os_malloc_def alloc_total_def Let_def
          split: if_splits intro: no_memory added)
  qed
qed

lemma add_wf:
  assumes wf: "bl_wf ml" and "add_bridge_mac env ml a b h = (r, ml', h')"
  shows "bl_wf ml'"
  using assms
proof (cases rule: add_bridge_mac_cases)
  case added
  have "(b, a) \<notin> bl_edges ml"
    using added(2) bl_wf_sym [OF wf] by blast
  with added(2) have fresh: "\<lparr>src_addr = a, dst_addr = b\<rparr> \<notin> snd ` set (bl_nodes ml)"
    "\<lparr>src_addr = b, dst_addr = a\<rparr> \<notin> snd ` set (bl_nodes ml)"
    by (auto dest: bl_edgesI)
  have ptr: "n < bl_next ml" if "(n, t) \<in> set (bl_nodes ml)" for n t
    using wf that by (auto simp: bl_wf_def list_all_iff)
  show ?thesis
    using wf fresh added(1) by (force simp: bl_wf_def added(4) list_all_iff dest: ptr)
qed (use wf in auto)

lemma add_edges:
  assumes "bl_wf ml" and "add_bridge_mac env ml a b h = (r, ml', h')"
  shows "bl_edges ml' = (if r = 1 then bl_edges ml \<union> {(a, b), (b, a)} else bl_edges ml)"
  using assms by (cases rule: add_bridge_mac_cases) (auto simp: bl_edges_def)

lemma add_ret:
  assumes "bl_wf ml" and "alloc_total env" and "add_bridge_mac env ml a b h = (r, ml', h')"
  shows "r = (if a = b then - 1 else if (a, b) \<in> bl_edges ml then 0 else 1)"
  using assms(1,3) by (cases rule: add_bridge_mac_cases) (use assms(2) in auto)

lemma add_extends: "add_bridge_mac env ml a b h = (r, ml', h') \<Longrightarrow> extends h' h"
  by (auto simp: add_bridge_mac_def os_malloc_def Let_def split: if_splits prod.splits option.splits)

section \<open>Readers\<close>

lemma get_src_mac_list_set:
  "set (snd (get_src_mac_list ml a)) = {b. (a, b) \<in> bl_edges ml}"
  by (auto simp: get_src_mac_list_def bl_edges_def Let_def)

lemma get_all_bridge_edges_set:
  "(\<lambda>t. (src_addr t, dst_addr t)) ` set (snd (get_all_bridge_edges ml)) = bl_edges ml"
  by (force simp: get_all_bridge_edges_def bl_edges_def)

section \<open>The list is a store of symmetric pairs\<close>

definition bl_link :: "env \<Rightarrow> mac \<Rightarrow> mac \<Rightarrow> bridge_mac_list \<times> hist \<Rightarrow> bridge_mac_list \<times> hist" where
  "bl_link env a b s = snd (add_bridge_mac env (fst s) a b (snd s))"

definition bl_unlink :: "mac \<Rightarrow> mac \<Rightarrow> bridge_mac_list \<times> hist \<Rightarrow> bridge_mac_list \<times> hist" where
  "bl_unlink a b s = snd (remove_bridge_mac (fst s) a b (snd s))"

interpretation bridges: pair_store "\<lambda>s. bl_edges (fst s)"
  "\<lambda>s. bl_wf (fst s) \<and> alloc_total env" "bl_link env" bl_unlink for env
proof (unfold_locales, goal_cases)
  case (1 s a b)
  obtain r ml' h' where add: "add_bridge_mac env (fst s) a b (snd s) = (r, ml', h')"
    by (metis prod_cases3)
  from 1 add have "r = (if a = b then - 1 else if (a, b) \<in> bl_edges (fst s) then 0 else 1)"
    by (blast intro: add_ret)
  with 1 add show ?case
    using add_edges [of "fst s" env a b "snd s" r ml' h'] bl_wf_sym [of "fst s" a b]
    by (auto simp: bl_link_def)
next
  case (2 s a b)
  obtain r ml' h' where "remove_bridge_mac (fst s) a b (snd s) = (r, ml', h')"
    by (metis prod_cases3)
  with 2 show ?case
    using remove_edges [of "fst s" a b "snd s"] by (simp add: bl_unlink_def)
next
  case (3 s a b)
  then show ?case
    by (cases "add_bridge_mac env (fst s) a b (snd s)") (auto simp: bl_link_def intro: add_wf)
next
  case (4 s a b)
  then show ?case
    by (cases "remove_bridge_mac (fst s) a b (snd s)") (auto simp: bl_unlink_def intro: remove_wf)
next
  case (5 s a b)
  then show ?case by (auto intro: bl_wf_sym)
next
  case (6 s a)
  then show ?case by (auto simp: bl_wf_irrefl)
qed

section \<open>Sequences of commands\<close>

fun bridge_exec ::
  "env \<Rightarrow> mac pair_op \<Rightarrow> bridge_mac_list \<times> hist \<Rightarrow> bridge_mac_list \<times> hist" where
  "bridge_exec env (Link a b) s = bl_link env a b s"
| "bridge_exec env (Unlink a b) s = bl_unlink a b s"

lemma bridge_exec_eq: "bridge_exec env = bridges.exec env"
proof (intro ext)
  fix c s
  show "bridge_exec env c s = bridges.exec env c s"
    by (cases c) auto
qed

lemma bridge_exec_wf:
  assumes "bl_wf (fst s)"
  shows "bl_wf (fst (bridge_exec env c s))"
proof (cases c)
  case (Link a b)
  then show ?thesis
    using assms by (cases "add_bridge_mac env (fst s) a b (snd s)") (auto simp: bl_link_def add_wf)
next
  case (Unlink a b)
  then show ?thesis
    using assms
    by (cases "remove_bridge_mac (fst s) a b (snd s)") (auto simp: bl_unlink_def remove_wf)
qed

lemma bridge_run_wf: "bl_wf (fst s) \<Longrightarrow> bl_wf (fst (fold (bridge_exec env) cs s))"
  by (induction cs arbitrary: s) (auto simp: bridge_exec_wf)

lemma free_bridge_nodes_all:
  assumes "distinct (map fst (bl_nodes ml))" and "bl_nodes ml = ns"
  shows "free_bridge_nodes ns ml h = (ml\<lparr>bl_nodes := []\<rparr>, h)"
  using assms
proof (induction ns arbitrary: ml)
  case Nil
  then show ?case by simp
next
  case (Cons n ns)
  have "filter (\<lambda>m. fst m \<noteq> fst n) (n # ns) = ns"
    using Cons.prems by (auto simp: image_iff intro!: filter_True)
  then have f: "bridge_mac_list_free (Some (fst n)) ml h = (ml\<lparr>bl_nodes := ns\<rparr>, h)"
    using Cons.prems by (simp add: bridge_mac_list_free_def)
  have "distinct (map fst (bl_nodes (ml\<lparr>bl_nodes := ns\<rparr>)))"
    using Cons.prems by simp
  from Cons.IH [OF this] show ?case
    by (simp add: f)
qed

section \<open>Properties\<close>

text \<open>
  C13. The bridge list implements a symmetric relation.  Start from the empty list and run any
  sequence of \<open>add_bridge_mac\<close> and \<open>remove_bridge_mac\<close> calls, with an allocator that does not
  fail: the pairs stored in the nodes are those that the set-level specification gives, where
  adding inserts a pair in both directions unless the two addresses are equal, and removing
  takes both directions out.
\<close>

theorem bridge_list_refines_relation:
  assumes "alloc_total env"
  shows "bl_edges (fst (fold (bridge_exec env) cs (\<lparr>bl_nodes = [], bl_next = n\<rparr>, h))) =
         fold pair_spec cs {}"
proof -
  have "bl_wf (fst (\<lparr>bl_nodes = [], bl_next = n\<rparr>, h)) \<and> alloc_total env"
    using assms by (simp add: bl_wf_init)
  from bridges.run_rel [OF this, of cs] show ?thesis
    by (simp add: bridge_exec_eq bl_edges_def)
qed

text \<open>
  C26. What the control commands promise about one pair: after any sequence of additions and
  removals, \<open>check_bridge_exist\<close> reports the bridge between \<open>x\<close> and \<open>y\<close> exactly when the last
  command about that pair, in either direction, was an addition.
\<close>

theorem bridge_last_command_decides:
  assumes "alloc_total env" and "x \<noteq> y" and "concerns c x y"
    and "\<forall>d \<in> set ds. \<not> concerns d x y"
  shows "check_bridge_exist
           (fst (fold (bridge_exec env) (cs @ c # ds) (\<lparr>bl_nodes = [], bl_next = n\<rparr>, h))) x y =
         (case c of Link _ _ \<Rightarrow> 1 | Unlink _ _ \<Rightarrow> 0)"
proof -
  let ?s = "(\<lparr>bl_nodes = [], bl_next = n\<rparr>, h)"
  have inv: "bl_wf (fst ?s) \<and> alloc_total env"
    using assms(1) by (simp add: bl_wf_init)
  then have "bl_wf (fst (fold (bridge_exec env) (cs @ c # ds) ?s))"
    by (intro bridge_run_wf) simp
  then show ?thesis
    using bridges.run_last [OF inv assms(4), of cs c] assms(2,3)
    by (cases c) (auto simp: check_bridge_exist_iff bridge_exec_eq)
qed

text \<open>
  C27. Freeing is safe on every list the two operations can build, whatever the allocator does:
  \<open>remove_bridge_mac\<close> frees the nodes of the pair once each (a second \<open>free\<close> would be recorded
  in the history), returns 0 and takes out that pair only, also when the two addresses are
  equal or the pair is not in the list; \<open>free_bridge_list\<close> frees every node once.
\<close>

theorem bridge_list_free_safe:
  fixes env cs n h0 h
  defines "ml \<equiv> fst (fold (bridge_exec env) cs (\<lparr>bl_nodes = [], bl_next = n\<rparr>, h0))"
  shows "(\<exists>ml'. remove_bridge_mac ml a b h = (0, ml', h) \<and>
                bl_edges ml' = bl_edges ml - {(a, b), (b, a)}) \<and>
         free_bridge_list ml h = (ml\<lparr>bl_nodes := []\<rparr>, h)"
proof -
  have wf: "bl_wf ml"
    unfolding ml_def by (intro bridge_run_wf) (simp add: bl_wf_init)
  have "free_bridge_list ml h = (ml\<lparr>bl_nodes := []\<rparr>, h)"
    unfolding free_bridge_list_def
    using wf by (intro free_bridge_nodes_all) (simp_all add: bl_wf_def)
  with remove_bridge_mac_eq [OF wf, of a b h] show ?thesis
    using remove_edges [OF wf] by blast
qed

section \<open>Witnesses\<close>

theorem bridge_list_refines_relation_witness:
  "bl_edges (fst (fold (bridge_exec ideal_env) [Link [1] [2], Link [2] [3], Unlink [2] [1]]
     (\<lparr>bl_nodes = [], bl_next = 0\<rparr>, []))) = {([2], [3]), ([3], [2])}"
  using bridge_list_refines_relation
    [OF ideal_alloc, of "[Link [1] [2], Link [2] [3], Unlink [2] [1]]" 0 "[]"]
  by (simp add: insert_Diff_if)

theorem bridge_last_command_decides_witness:
  "check_bridge_exist (fst (fold (bridge_exec ideal_env) ([Unlink [1] [2]] @ Link [2] [1] # [Link [1] [3]])
     (\<lparr>bl_nodes = [], bl_next = 0\<rparr>, []))) [1] [2] = 1"
  using bridge_last_command_decides
    [OF ideal_alloc, of "[1]" "[2]" "Link [2] [1]" "[Link [1] [3]]" "[Unlink [1] [2]]" 0 "[]"]
  by simp

end
