(* ===== verification/Iface_Mapper.thy ===== *)
theory Iface_Mapper
  imports Net_Utils
begin

text \<open>
  utils/iface_mapper.c: the tables from VLAN identifiers and subnets to interfaces, and the
  search of the configured interfaces for the subnet of an address.  The locale \<open>keyed_store\<close>
  is the contract of a table with one value per key; it is interpreted on the VLAN table, on
  the subnet table here and on the MAC table in the supervisor.
\<close>

section \<open>Tables with one value per key\<close>

locale keyed_store =
  fixes lookup :: "'m \<Rightarrow> 'k \<Rightarrow> 'v option"
    and store :: "'k \<Rightarrow> 'v \<Rightarrow> 'm \<Rightarrow> 'm"
    and keys :: "'m \<Rightarrow> 'k list"
    and inv :: "'m \<Rightarrow> bool"
    and valid :: "'k \<Rightarrow> 'v \<Rightarrow> bool"
  assumes lookup_store:
      "inv m \<Longrightarrow> valid k v \<Longrightarrow> lookup (store k v m) k' = (if k' = k then Some v else lookup m k')"
    and inv_store: "inv m \<Longrightarrow> valid k v \<Longrightarrow> inv (store k v m)"
    and keys_lookup: "k \<in> set (keys m) \<longleftrightarrow> lookup m k \<noteq> None"
    and keys_distinct: "inv m \<Longrightarrow> distinct (keys m)"
begin

definition store_all :: "('k \<times> 'v) list \<Rightarrow> 'm \<Rightarrow> 'm" where
  "store_all kvs m = fold (\<lambda>(k, v). store k v) kvs m"

lemma store_all_Nil [simp]: "store_all [] m = m"
  by (simp add: store_all_def)

lemma store_all_Cons [simp]: "store_all ((k, v) # kvs) m = store_all kvs (store k v m)"
  by (simp add: store_all_def)

lemma keys_store:
  "inv m \<Longrightarrow> valid k v \<Longrightarrow> set (keys (store k v m)) = insert k (set (keys m))"
  by (auto simp: keys_lookup lookup_store split: if_splits)

lemma store_all_inv: "inv m \<Longrightarrow> \<forall>(k, v) \<in> set kvs. valid k v \<Longrightarrow> inv (store_all kvs m)"
  by (induction kvs arbitrary: m) (auto simp: inv_store)

text \<open>The value stored last for a key is the one found.\<close>

lemma lookup_store_all:
  "inv m \<Longrightarrow> \<forall>(k, v) \<in> set kvs. valid k v \<Longrightarrow>
   lookup (store_all kvs m) k = (case map_of (rev kvs) k of Some v \<Rightarrow> Some v | None \<Rightarrow> lookup m k)"
proof (induction kvs arbitrary: m)
  case Nil
  then show ?case by simp
next
  case (Cons kv kvs)
  obtain k' v' where kv: "kv = (k', v')" by (cases kv)
  with Cons.prems have v: "valid k' v'" and vs: "\<forall>(k, v) \<in> set kvs. valid k v"
    by auto
  have "inv (store k' v' m)"
    using Cons.prems(1) v by (rule inv_store)
  from Cons.IH [OF this vs] show ?case
    using Cons.prems(1) v by (auto simp: kv lookup_store map_add_def split: option.splits)
qed

end

section \<open>Data\<close>

definition IF_NAMESIZE :: nat where
  "IF_NAMESIZE = 16"

record config_ifinfo_t =
  ifi_vlanid :: int
  ifi_ifname :: string
  ifi_brname :: string
  ifi_ip_addr :: string
  ifi_brd_addr :: string
  ifi_subnet_mask :: string

record vlan_conn =
  vc_vlanid :: int
  vc_ifname :: string
  vc_capture_pid :: u64

type_synonym hmap_if_conn = "(u32 \<times> string) list"
type_synonym hmap_vlan_conn = "(int \<times> vlan_conn) list"

section \<open>Subnet to interface\<close>

definition get_if_mapper :: "hmap_if_conn \<Rightarrow> u32 \<Rightarrow> int \<times> string option" where
  "get_if_mapper hmap subnet =
     (case map_of hmap subnet of
        Some v \<Rightarrow> (1, Some (strlcpy v IF_NAMESIZE))
      | None \<Rightarrow> (0, None))"

definition put_if_mapper ::
  "env \<Rightarrow> hmap_if_conn \<Rightarrow> u32 \<Rightarrow> string \<Rightarrow> hist \<Rightarrow> bool \<times> hmap_if_conn \<times> hist" where
  "put_if_mapper env hmap subnet ifname h =
     (case map_of hmap subnet of
        None \<Rightarrow>
          (let (ok, h') = os_malloc env h in
           if \<not> ok then (False, hmap, h')
           else (True, hmap @ [(subnet, strlcpy ifname IF_NAMESIZE)], h'))
      | Some _ \<Rightarrow> (True, AList.update subnet (strlcpy ifname IF_NAMESIZE) hmap, h))"

fun create_if_mapper_loop ::
  "env \<Rightarrow> config_ifinfo_t list \<Rightarrow> hmap_if_conn \<Rightarrow> hist \<Rightarrow> bool \<times> hmap_if_conn \<times> hist" where
  "create_if_mapper_loop env [] hmap h = (True, hmap, h)"
| "create_if_mapper_loop env (p # ps) hmap h =
     (case ip_2_nbo (ifi_ip_addr p) (ifi_subnet_mask p) of
        None \<Rightarrow> (False, [], h)
      | Some addr \<Rightarrow>
          (let (ok, hmap', h') = put_if_mapper env hmap addr (ifi_ifname p) h in
           if \<not> ok then (False, [], h') else create_if_mapper_loop env ps hmap' h'))"

definition create_if_mapper ::
  "env \<Rightarrow> config_ifinfo_t list option \<Rightarrow> hmap_if_conn \<Rightarrow> hist \<Rightarrow> bool \<times> hmap_if_conn \<times> hist" where
  "create_if_mapper env config_ifinfo_array hmap h =
     (case config_ifinfo_array of
        None \<Rightarrow> (True, hmap, h)
      | Some ps \<Rightarrow> create_if_mapper_loop env ps hmap h)"

section \<open>VLAN identifier to interface\<close>

definition get_vlan_mapper :: "hmap_vlan_conn \<Rightarrow> int \<Rightarrow> int \<times> vlan_conn option" where
  "get_vlan_mapper hmap vlanid =
     (case map_of hmap vlanid of Some v \<Rightarrow> (1, Some v) | None \<Rightarrow> (0, None))"

definition put_vlan_mapper ::
  "env \<Rightarrow> hmap_vlan_conn \<Rightarrow> vlan_conn \<Rightarrow> hist \<Rightarrow> bool \<times> hmap_vlan_conn \<times> hist" where
  "put_vlan_mapper env hmap conn h =
     (case map_of hmap (vc_vlanid conn) of
        None \<Rightarrow>
          (let (ok, h') = os_malloc env h in
           if \<not> ok then (False, hmap, h') else (True, hmap @ [(vc_vlanid conn, conn)], h'))
      | Some _ \<Rightarrow> (True, AList.update (vc_vlanid conn) conn hmap, h))"

fun copy_vlan_mapper ::
  "env \<Rightarrow> hmap_vlan_conn \<Rightarrow> hmap_vlan_conn \<Rightarrow> hist \<Rightarrow> int \<times> hmap_vlan_conn \<times> hist" where
  "copy_vlan_mapper env [] copy h = (0, copy, h)"
| "copy_vlan_mapper env (kv # hmap) copy h =
     (let (ok, copy', h') = put_vlan_mapper env copy (snd kv) h in
      if \<not> ok then (- 1, copy', h') else copy_vlan_mapper env hmap copy' h')"

fun create_vlan_mapper_loop ::
  "env \<Rightarrow> config_ifinfo_t list \<Rightarrow> hmap_vlan_conn \<Rightarrow> hist \<Rightarrow> int \<times> hmap_vlan_conn \<times> hist" where
  "create_vlan_mapper_loop env [] hmap h = (0, hmap, h)"
| "create_vlan_mapper_loop env (p # ps) hmap h =
     (let conn = \<lparr>vc_vlanid = ifi_vlanid p, vc_ifname = ifi_ifname p, vc_capture_pid = 0\<rparr>;
          (ok, hmap', h') = put_vlan_mapper env hmap conn h
      in if \<not> ok then (- 1, [], h') else create_vlan_mapper_loop env ps hmap' h')"

definition create_vlan_mapper ::
  "env \<Rightarrow> config_ifinfo_t list option \<Rightarrow> hmap_vlan_conn \<Rightarrow> hist \<Rightarrow> int \<times> hmap_vlan_conn \<times> hist" where
  "create_vlan_mapper env config_ifinfo_array hmap h =
     (case config_ifinfo_array of
        None \<Rightarrow> (0, hmap, h)
      | Some ps \<Rightarrow> create_vlan_mapper_loop env ps hmap h)"

section \<open>Searching the configured interfaces\<close>

text \<open>
  \<open>find_ifinfo\<close>: 0 and the entry, 1 when no subnet matches, -1 when an address of an entry
  looked at, or the searched one, cannot be read.
\<close>

fun find_ifinfo :: "config_ifinfo_t list \<Rightarrow> string \<Rightarrow> int \<times> config_ifinfo_t option" where
  "find_ifinfo [] ip = (1, None)"
| "find_ifinfo (p # ps) ip =
     (case ip_2_nbo (ifi_ip_addr p) (ifi_subnet_mask p) of
        None \<Rightarrow> (- 1, None)
      | Some addr_subnet \<Rightarrow>
          (case ip_2_nbo ip (ifi_subnet_mask p) of
             None \<Rightarrow> (- 1, None)
           | Some addr_ip \<Rightarrow>
               if addr_ip = addr_subnet then (0, Some p) else find_ifinfo ps ip))"

definition get_brname_from_ip :: "config_ifinfo_t list \<Rightarrow> string \<Rightarrow> string option" where
  "get_brname_from_ip config_ifinfo_array ip_addr =
     (case find_ifinfo config_ifinfo_array ip_addr of
        (r, Some p) \<Rightarrow> if r \<noteq> 0 then None else Some (ifi_brname p)
      | (r, None) \<Rightarrow> None)"

definition get_ifname_from_ip :: "config_ifinfo_t list \<Rightarrow> string \<Rightarrow> string option" where
  "get_ifname_from_ip config_ifinfo_array ip_addr =
     (case find_ifinfo config_ifinfo_array ip_addr of
        (r, Some p) \<Rightarrow> if r \<noteq> 0 then None else Some (ifi_ifname p)
      | (r, None) \<Rightarrow> None)"

definition init_ifbridge_names ::
  "config_ifinfo_t list \<Rightarrow> string \<Rightarrow> string \<Rightarrow> config_ifinfo_t list" where
  "init_ifbridge_names config_ifinfo_array ifname brname =
     map (\<lambda>p. p\<lparr>ifi_ifname := take (IF_NAMESIZE - 1) (ifname @ show_int (ifi_vlanid p)),
                ifi_brname := take (IF_NAMESIZE - 1) (brname @ show_int (ifi_vlanid p))\<rparr>)
       config_ifinfo_array"

section \<open>The tables keep one value per key\<close>

lemma update_absent: "map_of al k = None \<Longrightarrow> AList.update k v al = al @ [(k, v)]"
  by (induction al) (auto split: if_splits)

lemma put_vlan_mapper_update:
  "put_vlan_mapper env hmap conn h = (True, hmap', h') \<Longrightarrow>
   hmap' = AList.update (vc_vlanid conn) conn hmap"
  by (auto simp: put_vlan_mapper_def Let_def update_absent split: option.splits if_splits prod.splits)

lemma put_vlan_mapper_fail:
  "put_vlan_mapper env hmap conn h = (False, hmap', h') \<Longrightarrow> hmap' = hmap"
  by (auto simp: put_vlan_mapper_def Let_def split: option.splits if_splits prod.splits)

lemma put_vlan_mapper_total: "alloc_total env \<Longrightarrow> fst (put_vlan_mapper env hmap conn h)"
  by (auto simp: put_vlan_mapper_def os_malloc_total split: option.splits)

lemma put_vlan_mapper_extends: "put_vlan_mapper env hmap conn h = (ok, hmap', h') \<Longrightarrow> extends h' h"
  by (auto simp: put_vlan_mapper_def os_malloc_def Let_def split: option.splits if_splits)

lemma put_if_mapper_update:
  "put_if_mapper env hmap subnet ifname h = (True, hmap', h') \<Longrightarrow>
   hmap' = AList.update subnet (strlcpy ifname IF_NAMESIZE) hmap"
  by (auto simp: put_if_mapper_def Let_def update_absent split: option.splits if_splits prod.splits)

lemma put_if_mapper_total: "alloc_total env \<Longrightarrow> fst (put_if_mapper env hmap subnet ifname h)"
  by (auto simp: put_if_mapper_def os_malloc_total split: option.splits)

lemma map_of_keys: "k \<in> set (map fst al) \<longleftrightarrow> map_of al k \<noteq> None"
  by (simp add: map_of_eq_None_iff)

text \<open>
  The stores of the interpretations are the operations of the code, on the table and the
  history; the allocator does not fail.
\<close>

definition vlan_store :: "env \<Rightarrow> vlan_conn \<Rightarrow> hmap_vlan_conn \<times> hist \<Rightarrow> hmap_vlan_conn \<times> hist" where
  "vlan_store env conn s = snd (put_vlan_mapper env (fst s) conn (snd s))"

definition if_store ::
  "env \<Rightarrow> u32 \<Rightarrow> string \<Rightarrow> hmap_if_conn \<times> hist \<Rightarrow> hmap_if_conn \<times> hist" where
  "if_store env subnet ifname s = snd (put_if_mapper env (fst s) subnet ifname (snd s))"

lemma vlan_store_table:
  "alloc_total env \<Longrightarrow> fst (vlan_store env conn s) = AList.update (vc_vlanid conn) conn (fst s)"
  using put_vlan_mapper_total [of env "fst s" conn "snd s"]
    put_vlan_mapper_update [of env "fst s" conn "snd s"]
  by (cases "put_vlan_mapper env (fst s) conn (snd s)") (simp add: vlan_store_def)

lemma if_store_table:
  "alloc_total env \<Longrightarrow>
   fst (if_store env subnet ifname s) = AList.update subnet (strlcpy ifname IF_NAMESIZE) (fst s)"
  using put_if_mapper_total [of env "fst s" subnet ifname "snd s"]
    put_if_mapper_update [of env "fst s" subnet ifname "snd s"]
  by (cases "put_if_mapper env (fst s) subnet ifname (snd s)") (simp add: if_store_def)

interpretation vlan_table: keyed_store
  "\<lambda>s k. snd (get_vlan_mapper (fst s) k)" "\<lambda>k. vlan_store env" "\<lambda>s. map fst (fst s)"
  "\<lambda>s. distinct (map fst (fst s)) \<and> alloc_total env" "\<lambda>k v. vc_vlanid v = k" for env
  by unfold_locales
    (auto simp: get_vlan_mapper_def vlan_store_table map_of_update map_of_keys distinct_update
      simp del: set_map split: option.splits)

interpretation if_table: keyed_store
  "\<lambda>s k. snd (get_if_mapper (fst s) k)" "if_store env" "\<lambda>s. map fst (fst s)"
  "\<lambda>s. distinct (map fst (fst s)) \<and> alloc_total env" "\<lambda>k v. length v < IF_NAMESIZE" for env
  by unfold_locales
    (auto simp: get_if_mapper_def if_store_table map_of_update map_of_keys distinct_update
      strlcpy_fits simp del: set_map split: option.splits)

section \<open>Building the tables from the configuration\<close>

definition vlan_entry :: "config_ifinfo_t \<Rightarrow> vlan_conn" where
  "vlan_entry p = \<lparr>vc_vlanid = ifi_vlanid p, vc_ifname = ifi_ifname p, vc_capture_pid = 0\<rparr>"

lemma create_vlan_mapper_loop_store:
  "alloc_total env \<Longrightarrow>
   create_vlan_mapper_loop env ps m h =
     (0, vlan_table.store_all env (map (\<lambda>p. (ifi_vlanid p, vlan_entry p)) ps) (m, h))"
proof (induction ps arbitrary: m h)
  case Nil
  show ?case by simp
next
  case (Cons p ps)
  obtain ok m' h' where put: "put_vlan_mapper env m (vlan_entry p) h = (ok, m', h')"
    by (metis prod_cases3)
  with put_vlan_mapper_total [OF Cons.prems, of m "vlan_entry p" h] have ok: "ok"
    by simp
  from put have "vlan_store env (vlan_entry p) (m, h) = (m', h')"
    by (simp add: vlan_store_def)
  with Cons put ok show ?case
    by (simp add: vlan_entry_def)
qed

lemma map_of_vlan_entries:
  "map_of (map (\<lambda>p. (ifi_vlanid p, vlan_entry p)) qs) v =
   map_option vlan_entry (find (\<lambda>p. ifi_vlanid p = v) qs)"
  by (induction qs) auto

lemma get_vlan_entry:
  assumes "snd (get_vlan_mapper m v) = map_option vlan_entry (find (\<lambda>p. ifi_vlanid p = v) qs)"
  shows "get_vlan_mapper m v =
         (case find (\<lambda>p. ifi_vlanid p = v) qs of None \<Rightarrow> (0, None)
          | Some p \<Rightarrow> (1, Some \<lparr>vc_vlanid = v, vc_ifname = ifi_ifname p, vc_capture_pid = 0\<rparr>))"
proof (cases "find (\<lambda>p. ifi_vlanid p = v) qs")
  case None
  with assms show ?thesis
    by (simp add: get_vlan_mapper_def split: option.splits)
next
  case (Some p)
  moreover have "ifi_vlanid p = v"
    using Some by (auto simp: find_Some_iff)
  ultimately show ?thesis
    using assms by (auto simp: get_vlan_mapper_def vlan_entry_def split: option.splits)
qed

section \<open>Searching\<close>

definition in_subnet :: "string \<Rightarrow> config_ifinfo_t \<Rightarrow> bool" where
  "in_subnet ip p \<longleftrightarrow>
     inet_network ip AND inet_network (ifi_subnet_mask p) =
     inet_network (ifi_ip_addr p) AND inet_network (ifi_subnet_mask p)"

definition ifinfo_ok :: "config_ifinfo_t \<Rightarrow> bool" where
  "ifinfo_ok p \<longleftrightarrow> inet_network (ifi_ip_addr p) \<noteq> INADDR_NONE \<and>
     inet_network (ifi_subnet_mask p) \<noteq> INADDR_NONE"

lemma find_ifinfo_find:
  "inet_network ip \<noteq> INADDR_NONE \<Longrightarrow> \<forall>p \<in> set ps. ifinfo_ok p \<Longrightarrow>
   find_ifinfo ps ip = (case find (in_subnet ip) ps of None \<Rightarrow> (1, None) | Some p \<Rightarrow> (0, Some p))"
  by (induction ps) (auto simp: ip_2_nbo_def ifinfo_ok_def in_subnet_def Let_def)

section \<open>Properties\<close>

text \<open>
  C30. \<open>create_vlan_mapper\<close> on an empty table: a VLAN identifier is found exactly when an
  interface with it is configured, and the entry found is the one of the last such interface,
  with its name and no capture thread.
\<close>

theorem create_vlan_mapper_lookup:
  assumes "alloc_total env"
  shows "\<exists>m h'. create_vlan_mapper env (Some ps) [] h = (0, m, h') \<and> distinct (map fst m) \<and>
           (\<forall>v. get_vlan_mapper m v =
              (case find (\<lambda>p. ifi_vlanid p = v) (rev ps) of
                 None \<Rightarrow> (0, None)
               | Some p \<Rightarrow> (1, Some \<lparr>vc_vlanid = v, vc_ifname = ifi_ifname p, vc_capture_pid = 0\<rparr>)))"
proof -
  let ?kvs = "map (\<lambda>p. (ifi_vlanid p, vlan_entry p)) ps"
  let ?s = "vlan_table.store_all env ?kvs ([], h)"
  have inv: "distinct (map fst (fst ([] :: hmap_vlan_conn, h))) \<and> alloc_total env"
    using assms by simp
  have valid: "\<forall>(k, v) \<in> set ?kvs. vc_vlanid v = k"
    by (auto simp: vlan_entry_def)
  have "map_of (rev ?kvs) v = map_option vlan_entry (find (\<lambda>p. ifi_vlanid p = v) (rev ps))" for v
    by (simp add: rev_map map_of_vlan_entries)
  then have "snd (get_vlan_mapper (fst ?s) v) =
      map_option vlan_entry (find (\<lambda>p. ifi_vlanid p = v) (rev ps))" for v
    using vlan_table.lookup_store_all [OF inv valid, of v]
    by (auto simp: get_vlan_mapper_def split: option.splits)
  note look = get_vlan_entry [OF this]
  have "distinct (map fst (fst ?s))"
    using vlan_table.store_all_inv [OF inv valid] by blast
  with look show ?thesis
    using create_vlan_mapper_loop_store [OF assms, of ps "[]" h]
    by (cases ?s) (simp add: create_vlan_mapper_def)
qed

text \<open>
  C31. \<open>get_ifname_from_ip\<close> finds the first configured interface whose subnet holds the
  address, and fails when there is none, for a configuration whose addresses and masks can be
  read; with an address that cannot be read it fails as soon as an interface is configured.
\<close>

theorem get_ifname_from_ip_first_subnet:
  assumes "\<forall>p \<in> set ps. ifinfo_ok p"
  shows "get_ifname_from_ip ps ip =
         (if inet_network ip = INADDR_NONE then None
          else map_option ifi_ifname (find (in_subnet ip) ps))"
proof (cases "inet_network ip = INADDR_NONE")
  case True
  then show ?thesis
    using assms
    by (cases ps) (auto simp: get_ifname_from_ip_def ip_2_nbo_def Let_def split: if_splits)
next
  case False
  then show ?thesis
    using find_ifinfo_find [OF False assms] by (auto simp: get_ifname_from_ip_def split: option.splits)
qed

definition demo_ifinfo :: "config_ifinfo_t list" where
  "demo_ifinfo =
     [\<lparr>ifi_vlanid = 0, ifi_ifname = ''br0'', ifi_brname = ''br0'', ifi_ip_addr = ''10.0.0.1'',
       ifi_brd_addr = ''10.0.0.255'', ifi_subnet_mask = ''255.255.255.0''\<rparr>,
      \<lparr>ifi_vlanid = 1, ifi_ifname = ''br1'', ifi_brname = ''br1'', ifi_ip_addr = ''10.0.1.1'',
       ifi_brd_addr = ''10.0.1.255'', ifi_subnet_mask = ''255.255.255.0''\<rparr>]"

lemma demo_ifinfo_ok: "\<forall>p \<in> set demo_ifinfo. ifinfo_ok p"
  by code_simp

theorem create_vlan_mapper_lookup_witness:
  "\<exists>m h'. create_vlan_mapper ideal_env (Some demo_ifinfo) [] [] = (0, m, h') \<and>
     fst (get_vlan_mapper m 1) = 1 \<and> fst (get_vlan_mapper m 7) = 0"
  using create_vlan_mapper_lookup [OF ideal_alloc, of demo_ifinfo "[]"]
  by (auto simp: demo_ifinfo_def)

theorem get_ifname_from_ip_first_subnet_witness:
  "get_ifname_from_ip demo_ifinfo ''10.0.1.7'' = Some ''br1''"
proof -
  have "inet_network ''10.0.1.7'' \<noteq> INADDR_NONE"
    and "map_option ifi_ifname (find (in_subnet ''10.0.1.7'') demo_ifinfo) = Some ''br1''"
    by code_simp+
  then show ?thesis
    using get_ifname_from_ip_first_subnet [OF demo_ifinfo_ok, of "''10.0.1.7''"] by simp
qed

end
