(* ===== verification/Iptables.thy ===== *)
theory Iptables
  imports Iface_Mapper
begin

text \<open>
  utils/iptables.c: the firewall rules of the router, read and changed through the program
  \<open>iptables\<close>.  \<open>rule_list\<close> is the cache of the last listing; \<open>run_iptables\<close> hands the chunks of
  output to \<open>list_rule_cb\<close> when the caller passes it.

  What the commands do to the \<open>FORWARD\<close> chain of the kernel is the subject of \<open>Iptables_Chain\<close>.
\<close>

record iptables_columns =
  num :: int
  target :: string
  in_if :: string
  out_if :: string
  source :: string
  destination :: string

record iptables_context =
  iptables_path :: string
  rule_list :: "iptables_columns list"
  exec_iptables :: bool

definition MAX_OS_PATH_LEN :: nat where
  "MAX_OS_PATH_LEN = 4096"

definition zero_row :: iptables_columns where
  "zero_row = \<lparr>num = 0, target = [], in_if = [], out_if = [], source = [], destination = []\<rparr>"

section \<open>Reading a listing\<close>

text \<open>
  The switch of \<open>process_rule_column\<close> on one column that is not empty: the state and the row.
  State 10 is the end; no case handles it.
\<close>

definition column_step :: "nat \<times> iptables_columns \<Rightarrow> string \<Rightarrow> nat \<times> iptables_columns" where
  "column_step s p =
     (case s of (state, row) \<Rightarrow>
        if state = 0 then
          (case strtol10 p of (n, erange, rest) \<Rightarrow>
             (if erange then 10 else if rest = p then 10 else 1, row\<lparr>num := n\<rparr>))
        else if state = 1 then (2, row)
        else if state = 2 then (3, row)
        else if state = 3 then (4, row\<lparr>target := strlcpy p 20\<rparr>)
        else if state = 4 then (5, row)
        else if state = 5 then (6, row)
        else if state = 6 then (7, row\<lparr>in_if := strlcpy p IF_NAMESIZE\<rparr>)
        else if state = 7 then (8, row\<lparr>out_if := strlcpy p IF_NAMESIZE\<rparr>)
        else if state = 8 then (9, row\<lparr>source := strlcpy p OS_INET_ADDRSTRLEN\<rparr>)
        else if state = 9 then (10, row\<lparr>destination := strlcpy p OS_INET_ADDRSTRLEN\<rparr>)
        else s)"

definition process_rule_column :: "env \<Rightarrow> string \<Rightarrow> hist \<Rightarrow> iptables_columns \<times> hist" where
  "process_rule_column env column h =
     (let (count, column_arr, h') = split_string_array env column CHR '' '' h in
      if count < 0 then (zero_row, h')
      else (snd (foldl column_step (0, zero_row) (filter (\<lambda>p. 0 < length p) column_arr)), h'))"

text \<open>The loop over the lines after the first two: the result, the cache, the history.\<close>

fun process_rule_loop ::
  "env \<Rightarrow> iptables_columns list \<Rightarrow> string list \<Rightarrow> hist \<Rightarrow> int \<times> iptables_columns list \<times> hist" where
  "process_rule_loop env rlist [] h = (0, rlist, h)"
| "process_rule_loop env rlist (p # ps) h =
     (if 1 < length p then
        let (row, h') = process_rule_column env p h in
        if num row \<noteq> 0 then process_rule_loop env (rlist @ [row]) ps h'
        else (- 1, rlist, h')
      else process_rule_loop env rlist ps h)"

definition process_rule_lines ::
  "env \<Rightarrow> iptables_context \<Rightarrow> string \<Rightarrow> hist \<Rightarrow> int \<times> iptables_context \<times> hist" where
  "process_rule_lines env ctx rule_str h =
     (let (line_count, line_arr, h') = split_string_array env rule_str (CHR 0x0A) h in
      if line_count < 0 then (- 1, ctx, h')
      else if 2 < line_count then
        let (r, rlist, h'') = process_rule_loop env (rule_list ctx) (drop 2 line_arr) h'
        in (r, ctx\<lparr>rule_list := rlist\<rparr>, h'')
      else (0, ctx, h'))"

text \<open>The copy of a chunk is a C string: it ends at the first NUL.\<close>

definition list_rule_cb ::
  "env \<Rightarrow> iptables_context \<Rightarrow> string \<Rightarrow> hist \<Rightarrow> iptables_context \<times> hist" where
  "list_rule_cb env ctx buf h =
     (let (ok, h1) = os_malloc env h in
      if \<not> ok then (ctx, E_ub Null_Deref # h1)
      else
        let out_str = takeWhile (\<lambda>c. c \<noteq> CHR 0x00) buf;
            (r, ctx', h2) = process_rule_lines env (ctx\<lparr>rule_list := []\<rparr>) out_str h1
        in (if r < 0 then ctx'\<lparr>rule_list := []\<rparr> else ctx', h2))"

fun list_rule_chunks ::
  "env \<Rightarrow> iptables_context \<Rightarrow> string list \<Rightarrow> hist \<Rightarrow> iptables_context \<times> hist" where
  "list_rule_chunks env ctx [] h = (ctx, h)"
| "list_rule_chunks env ctx (buf # bufs) h =
     (let (ctx', h') = list_rule_cb env ctx buf h in list_rule_chunks env ctx' bufs h')"

section \<open>Running iptables\<close>

definition run_iptables ::
  "env \<Rightarrow> iptables_context \<Rightarrow> string list \<Rightarrow> bool \<Rightarrow> hist \<Rightarrow> int \<times> iptables_context \<times> hist" where
  "run_iptables env ctx argv has_fn h =
     (if exec_iptables ctx then
        let (r, out, h1) = run_argv_command env (iptables_path ctx) argv has_fn h;
            (ctx', h2) = list_rule_chunks env ctx out h1
        in (r, ctx', h2)
      else (0, ctx, h))"

definition BASIC_FLUSH_COMMANDS :: "string list list" where
  "BASIC_FLUSH_COMMANDS =
     [[''-P'', ''INPUT'', ''ACCEPT''],
      [''-P'', ''FORWARD'', ''ACCEPT''],
      [''-P'', ''OUTPUT'', ''ACCEPT''],
      [''-F'', ''-t'', ''nat''],
      [''-F'', ''-t'', ''mangle''],
      [''-F''],
      [''-X''],
      [''-A'', ''FORWARD'', ''-t'', ''filter'', ''--src'', ''224.0.0.0/4'',
       ''--dst'', ''224.0.0.0/4'', ''-j'', ''ACCEPT'']]"

text \<open>Commands in order, up to the first that fails.\<close>

fun run_iptables_all ::
  "env \<Rightarrow> iptables_context \<Rightarrow> string list list \<Rightarrow> hist \<Rightarrow> int \<times> iptables_context \<times> hist" where
  "run_iptables_all env ctx [] h = (0, ctx, h)"
| "run_iptables_all env ctx (argv # argvs) h =
     (let (r, ctx', h') = run_iptables env ctx argv False h in
      if r < 0 then (- 1, ctx', h') else run_iptables_all env ctx' argvs h')"

definition flush_iptables ::
  "env \<Rightarrow> iptables_context \<Rightarrow> hist \<Rightarrow> int \<times> iptables_context \<times> hist" where
  "flush_iptables env ctx h = run_iptables_all env ctx BASIC_FLUSH_COMMANDS h"

definition reject_rule :: "string \<Rightarrow> string list" where
  "reject_rule ifname =
     [''-A'', ''FORWARD'', ''-t'', ''filter'', ''-i'', ifname, ''-j'', ''REJECT'']"

definition add_baseif_rules ::
  "env \<Rightarrow> iptables_context \<Rightarrow> config_ifinfo_t list option \<Rightarrow> hist \<Rightarrow>
   int \<times> iptables_context \<times> hist" where
  "add_baseif_rules env ctx ifinfo_array h =
     (case ifinfo_array of
        None \<Rightarrow> (0, ctx, h)
      | Some ps \<Rightarrow> run_iptables_all env ctx (map (\<lambda>p. reject_rule (ifi_ifname p)) ps) h)"

definition iptables_init ::
  "env \<Rightarrow> string option \<Rightarrow> config_ifinfo_t list option \<Rightarrow> bool \<Rightarrow> hist \<Rightarrow>
   iptables_context option \<times> hist" where
  "iptables_init env path ifinfo_array exec h =
     (case path of
        None \<Rightarrow> (None, h)
      | Some path \<Rightarrow>
          if path = [] then (None, h)
          else
            let (ok, h0) = os_malloc env h;
                h1 = (if ok then h0 else E_ub Null_Deref # h0);
                ctx = \<lparr>iptables_path = strlcpy path MAX_OS_PATH_LEN, rule_list = [],
                       exec_iptables = exec\<rparr>;
                (r, ctx, h2) = flush_iptables env ctx h1
            in if r < 0 then (None, h2)
               else let (r, ctx, h3) = add_baseif_rules env ctx ifinfo_array h2
                    in if r < 0 then (None, h3) else (Some ctx, h3))"

definition list_filter_rule :: "string list" where
  "list_filter_rule = [''-L'', ''FORWARD'', ''-t'', ''filter'', ''--line-numbers'', ''-n'', ''-v'']"

definition list_nat_rule :: "string list" where
  "list_nat_rule = [''-L'', ''POSTROUTING'', ''-t'', ''nat'', ''--line-numbers'', ''-n'', ''-v'']"

definition get_filter_rules ::
  "env \<Rightarrow> iptables_context \<Rightarrow> hist \<Rightarrow> int \<times> iptables_context \<times> hist" where
  "get_filter_rules env ctx h =
     (let (r, ctx', h') = run_iptables env ctx list_filter_rule True h in
      if r < 0 then (- 1, ctx', h')
      else (if rule_list ctx' \<noteq> [] then 0 else - 1, ctx', h'))"

definition get_nat_rules ::
  "env \<Rightarrow> iptables_context \<Rightarrow> hist \<Rightarrow> int \<times> iptables_context \<times> hist" where
  "get_nat_rules env ctx h =
     (let (r, ctx', h') = run_iptables env ctx list_nat_rule True h in
      if r < 0 then (- 1, ctx', h')
      else (if rule_list ctx' \<noteq> [] then 0 else - 1, ctx', h'))"

section \<open>Bridge and NAT rules\<close>

definition find_rule ::
  "iptables_columns list \<Rightarrow> string \<Rightarrow> string \<Rightarrow> string \<Rightarrow> string \<Rightarrow> string \<Rightarrow> int" where
  "find_rule rlist sip sif dip dif tgt =
     (case find (\<lambda>el. in_if el = sif \<and> out_if el = dif \<and> source el = sip \<and>
                      destination el = dip \<and> target el = tgt) rlist of
        None \<Rightarrow> 0 | Some el \<Rightarrow> num el)"

definition find_baseif_rulenum :: "iptables_columns list \<Rightarrow> string \<Rightarrow> int" where
  "find_baseif_rulenum rlist ifname =
     (case find (\<lambda>el. in_if el = ifname \<and> out_if el = ''*'' \<and> target el = ''REJECT'') rlist of
        None \<Rightarrow> 0 | Some el \<Rightarrow> num el)"

text \<open>\<open>sprintf(num_buf, "%ld", num)\<close> into ten bytes.\<close>

definition print_num :: "int \<Rightarrow> hist \<Rightarrow> string \<times> hist" where
  "print_num n h = (show_int n, if length (show_int n) + 1 \<le> 10 then h else E_ub Stack_Overrun # h)"

definition delete_bridge_rule ::
  "env \<Rightarrow> iptables_context \<Rightarrow> string \<Rightarrow> string \<Rightarrow> string \<Rightarrow> string \<Rightarrow> hist \<Rightarrow>
   int \<times> iptables_context \<times> hist" where
  "delete_bridge_rule env ctx sip sif dip dif h =
     (let (r, ctx, h) = get_filter_rules env ctx h in
      if r < 0 \<and> exec_iptables ctx then (- 1, ctx, h)
      else
        let n = find_rule (rule_list ctx) sip sif dip dif ''ACCEPT'' in
        if n = 0 \<and> exec_iptables ctx then (0, ctx, h)
        else
          let (num_buf, h) = print_num n h;
              (r, ctx, h) = run_iptables env ctx
                 [''-D'', ''FORWARD'', num_buf, ''-t'', ''filter''] False h
          in (if r < 0 then - 1 else 0, ctx, h))"

definition iptables_delete_bridge ::
  "env \<Rightarrow> iptables_context \<Rightarrow> string \<Rightarrow> string \<Rightarrow> string \<Rightarrow> string \<Rightarrow> hist \<Rightarrow>
   int \<times> iptables_context \<times> hist" where
  "iptables_delete_bridge env ctx sip sif dip dif h =
     (let (r, ctx, h) = delete_bridge_rule env ctx sip sif dip dif h in
      if r < 0 then (- 1, ctx, h)
      else let (r, ctx, h) = delete_bridge_rule env ctx dip dif sip sif h
           in (if r < 0 then - 1 else 0, ctx, h))"

definition bridge_rule_args :: "string \<Rightarrow> string \<Rightarrow> string \<Rightarrow> string \<Rightarrow> string \<Rightarrow> string list" where
  "bridge_rule_args num_buf sip sif dip dif =
     [''-I'', ''FORWARD'', num_buf, ''-t'', ''filter'', ''--src'', sip, ''--dst'', dip,
      ''-i'', sif, ''-o'', dif, ''-j'', ''ACCEPT'']"

text \<open>A check of an address; the overrun of the buffer of \<open>validate_ipv4_string\<close> is recorded.\<close>

definition check_ipv4 :: "string \<Rightarrow> hist \<Rightarrow> bool \<times> hist" where
  "check_ipv4 ip h =
     (validate_ipv4_string ip, if validate_ipv4_overrun ip then E_ub Stack_Overrun # h else h)"

definition add_bridge_rule ::
  "env \<Rightarrow> iptables_context \<Rightarrow> string \<Rightarrow> string \<Rightarrow> string \<Rightarrow> string \<Rightarrow> hist \<Rightarrow>
   int \<times> iptables_context \<times> hist" where
  "add_bridge_rule env ctx sip sif dip dif h =
     (let (ok, h) = check_ipv4 sip h in
      if \<not> ok then (- 1, ctx, h)
      else let (ok, h) = check_ipv4 dip h in
      if \<not> ok then (- 1, ctx, h)
      else let (r, ctx, h) = get_filter_rules env ctx h in
      if r < 0 \<and> exec_iptables ctx then (- 1, ctx, h)
      else
        let n = find_baseif_rulenum (rule_list ctx) sif;
            n = (if n = 0 \<and> exec_iptables ctx then n + 1 else n);
            (num_buf, h) = print_num n h;
            (r, ctx, h) = run_iptables env ctx (bridge_rule_args num_buf sip sif dip dif) False h
        in (if r < 0 then - 1 else 0, ctx, h))"

definition iptables_add_bridge ::
  "env \<Rightarrow> iptables_context \<Rightarrow> string \<Rightarrow> string \<Rightarrow> string \<Rightarrow> string \<Rightarrow> hist \<Rightarrow>
   int \<times> iptables_context \<times> hist" where
  "iptables_add_bridge env ctx sip sif dip dif h =
     (let (_, ctx, h) = iptables_delete_bridge env ctx sip sif dip dif h;
          (r, ctx, h) = add_bridge_rule env ctx sip sif dip dif h
      in if r < 0 then (- 1, ctx, h)
         else let (r, ctx, h) = add_bridge_rule env ctx dip dif sip sif h in
           if r < 0 then
             let (_, ctx, h) = delete_bridge_rule env ctx sip sif dip dif h in (- 1, ctx, h)
           else (0, ctx, h))"

abbreviation ANY_ADDR :: string where
  "ANY_ADDR \<equiv> ''0.0.0.0/0''"

definition iptables_delete_nat ::
  "env \<Rightarrow> iptables_context \<Rightarrow> string \<Rightarrow> string \<Rightarrow> string \<Rightarrow> hist \<Rightarrow>
   int \<times> iptables_context \<times> hist" where
  "iptables_delete_nat env ctx sip sif nif h =
     (let (r, ctx, h) = iptables_delete_bridge env ctx sip sif ANY_ADDR nif h in
      if r < 0 then (- 1, ctx, h)
      else let (r, ctx, h) = get_nat_rules env ctx h in
      if r < 0 \<and> exec_iptables ctx then (0, ctx, h)
      else
        let n = find_rule (rule_list ctx) sip ''*'' ANY_ADDR nif ''MASQUERADE'' in
        if n = 0 \<and> exec_iptables ctx then (0, ctx, h)
        else
          let (num_buf, h) = print_num n h;
              (r, ctx, h) = run_iptables env ctx
                 [''-D'', ''POSTROUTING'', num_buf, ''-t'', ''nat''] False h
          in (if r < 0 then - 1 else 0, ctx, h))"

definition iptables_add_nat ::
  "env \<Rightarrow> iptables_context \<Rightarrow> string \<Rightarrow> string \<Rightarrow> string \<Rightarrow> hist \<Rightarrow>
   int \<times> iptables_context \<times> hist" where
  "iptables_add_nat env ctx sip sif nif h =
     (let (r, ctx, h) = iptables_delete_nat env ctx sip sif nif h in
      if r < 0 then (- 1, ctx, h)
      else let (r, ctx, h) = add_bridge_rule env ctx sip sif ANY_ADDR nif h in
      if r < 0 then (- 1, ctx, h)
      else let (r, ctx, h) = run_iptables env ctx (bridge_rule_args ''1'' ANY_ADDR nif sip sif) False h in
      if r < 0 then
        let (_, ctx, h) = iptables_delete_bridge env ctx sip sif ANY_ADDR nif h in (- 1, ctx, h)
      else
        let (r, ctx, h) = run_iptables env ctx
               [''-I'', ''POSTROUTING'', ''1'', ''-t'', ''nat'', ''--src'', sip,
                ''--dst'', ANY_ADDR, ''-o'', nif, ''-j'', ''MASQUERADE''] False h in
        if r < 0 then
          let (_, ctx, h) = iptables_delete_bridge env ctx sip sif ANY_ADDR nif h in (- 1, ctx, h)
        else (0, ctx, h))"

end
