(* ===== verification/Iptables_Chain.thy ===== *)
theory Iptables_Chain
  imports Iptables
begin

text \<open>
  What the commands of utils/iptables.c do to the \<open>FORWARD\<close> chain.  The chain is a function of
  the history, by the documented meaning of the commands; \<open>iptables_works\<close> says that the
  program \<open>iptables\<close> runs, refuses a rule number that does not exist and lists the chain in
  its documented format.  Under it, deleting a bridge takes its rule out of the chain, and
  adding one puts it right in front of the rule that rejects its source interface.
\<close>

section \<open>The chain\<close>

definition fw_insert :: "nat \<Rightarrow> iptables_columns \<Rightarrow> iptables_columns list \<Rightarrow> iptables_columns list" where
  "fw_insert n r rs = take (n - 1) rs @ r # drop (n - 1) rs"

definition fw_delete :: "nat \<Rightarrow> iptables_columns list \<Rightarrow> iptables_columns list" where
  "fw_delete n rs = take (n - 1) rs @ drop n rs"

text \<open>Rules of the chain have no number of their own: their \<open>num\<close> is 0.\<close>

definition fw_rule :: "string \<Rightarrow> string \<Rightarrow> string \<Rightarrow> string \<Rightarrow> string \<Rightarrow> iptables_columns" where
  "fw_rule sip sif dip dif tgt =
     \<lparr>num = 0, target = tgt, in_if = sif, out_if = dif, source = sip, destination = dip\<rparr>"

text \<open>
  The commands the sources issue on \<open>FORWARD\<close>: delete by number, append a rejection of an
  interface, append an acceptance between addresses, insert by number, flush.  The result is
  None for a rule number that is out of range, which \<open>iptables\<close> refuses.
\<close>

definition fw_command :: "string list \<Rightarrow> iptables_columns list \<Rightarrow> iptables_columns list option" where
  "fw_command argv rs =
     (case argv of
        [c] \<Rightarrow> if c = ''-F'' then Some [] else Some rs
      | [c, ch, n, t, f] \<Rightarrow>
          if [c, ch, t, f] = [''-D'', ''FORWARD'', ''-t'', ''filter''] then
            if 1 \<le> digits_val n \<and> digits_val n \<le> length rs
            then Some (fw_delete (digits_val n) rs) else None
          else Some rs
      | [c, ch, t, f, i, ifn, j, tg] \<Rightarrow>
          if [c, ch, t, f, i, j] = [''-A'', ''FORWARD'', ''-t'', ''filter'', ''-i'', ''-j'']
          then Some (rs @ [fw_rule ANY_ADDR ifn ANY_ADDR ''*'' tg]) else Some rs
      | [c, ch, t, f, s, sip, d, dip, j, tg] \<Rightarrow>
          if [c, ch, t, f, s, d, j] = [''-A'', ''FORWARD'', ''-t'', ''filter'', ''--src'', ''--dst'', ''-j'']
          then Some (rs @ [fw_rule sip ''*'' dip ''*'' tg]) else Some rs
      | [c, ch, n, t, f, s, sip, d, dip, i, sif, ou, dif, j, tg] \<Rightarrow>
          if [c, ch, t, f, s, d, i, ou, j] =
             [''-I'', ''FORWARD'', ''-t'', ''filter'', ''--src'', ''--dst'', ''-i'', ''-o'', ''-j''] then
            if 1 \<le> digits_val n \<and> digits_val n \<le> length rs + 1
            then Some (fw_insert (digits_val n) (fw_rule sip sif dip dif tg) rs) else None
          else Some rs
      | _ \<Rightarrow> Some rs)"

fun fw_chain :: "string \<Rightarrow> hist \<Rightarrow> iptables_columns list" where
  "fw_chain path [] = []"
| "fw_chain path (e # h) =
     (case e of
        E_command (p # argv) \<Rightarrow>
          if p = path
          then (case fw_command argv (fw_chain path h) of None \<Rightarrow> fw_chain path h | Some rs \<Rightarrow> rs)
          else fw_chain path h
      | _ \<Rightarrow> fw_chain path h)"

section \<open>The program iptables\<close>

text \<open>The columns of a rule in a listing, as they are after the blanks between them.\<close>

definition line_ok :: "nat \<Rightarrow> iptables_columns \<Rightarrow> string \<Rightarrow> bool" where
  "line_ok i r l \<longleftrightarrow>
     CHR 0x0A \<notin> set l \<and> CHR 0x00 \<notin> set l \<and>
     (\<exists>pkts byts prot opt extra.
        filter (\<lambda>p. 0 < length p) (split_pieces CHR '' '' l) =
          [show_nat i, pkts, byts, target r, prot, opt, in_if r, out_if r, source r, destination r]
          @ extra)"

text \<open>A listing: two lines of heading and then one line per rule, each ended by a newline.\<close>

definition is_listing :: "string \<Rightarrow> iptables_columns list \<Rightarrow> bool" where
  "is_listing text rs \<longleftrightarrow>
     (\<exists>h1 h2 ls.
        text = join_pieces (CHR 0x0A) (h1 # h2 # ls @ [[]]) \<and>
        CHR 0x0A \<notin> set h1 \<and> CHR 0x0A \<notin> set h2 \<and>
        CHR 0x00 \<notin> set h1 \<and> CHR 0x00 \<notin> set h2 \<and>
        list_all2 (\<lambda>(i, r) l. line_ok i r l) (enumerate 1 rs) ls)"

definition proc_ran :: "proc_outcome \<Rightarrow> bool" where
  "proc_ran po \<longleftrightarrow> po_file_exists po \<and> po_pipe_ok po \<and> po_fork_ok po \<and> po_close_write_ok po \<and>
     po_close_read_ok po \<and> \<not> po_wait_error po \<and> po_exited po"

text \<open>
  The columns of a rule are words, and they fit the arrays of \<open>struct iptables_columns\<close>.
\<close>

definition column_word :: "string \<Rightarrow> bool" where
  "column_word f \<longleftrightarrow> f \<noteq> [] \<and> CHR '' '' \<notin> set f \<and> CHR 0x0A \<notin> set f \<and> CHR 0x00 \<notin> set f"

definition row_fits :: "iptables_columns \<Rightarrow> bool" where
  "row_fits r \<longleftrightarrow>
     num r = 0 \<and> length (target r) < 20 \<and> length (in_if r) < IF_NAMESIZE \<and>
     length (out_if r) < IF_NAMESIZE \<and> length (source r) < OS_INET_ADDRSTRLEN \<and>
     length (destination r) < OS_INET_ADDRSTRLEN \<and>
     list_all column_word [target r, in_if r, out_if r, source r, destination r]"

text \<open>
  The program runs; it succeeds unless the rule number is out of range; and it writes the
  listing of a chain of at most \<open>k\<close> rules at once, so that the router reads it as one chunk
  (\<open>read_command_output\<close> reads up to \<open>PIPE_BUF\<close> bytes).
\<close>

definition iptables_works :: "env \<Rightarrow> string \<Rightarrow> nat \<Rightarrow> bool" where
  "iptables_works env path k \<longleftrightarrow>
     alloc_total env \<and>
     (\<forall>argv h. let po = env_command env (E_command (path # argv) # h) in
        proc_ran po \<and>
        (po_exit_status po = 0 \<longleftrightarrow> fw_command argv (fw_chain path h) \<noteq> None) \<and>
        (argv = list_filter_rule \<and> length (fw_chain path h) \<le> k \<and>
           list_all row_fits (fw_chain path h) \<longrightarrow>
           (\<exists>text. is_listing text (fw_chain path h) \<and> po_chunks po = [text])))"

definition numbered :: "nat \<Rightarrow> iptables_columns list \<Rightarrow> iptables_columns list" where
  "numbered n rs = map (\<lambda>(i, r). r\<lparr>num := int i\<rparr>) (enumerate n rs)"

section \<open>Parsing a listing\<close>

lemma column_step_end: "foldl column_step (10, row) ps = (10, row)"
  by (induction ps) (auto simp: column_step_def)

text \<open>Only allocations happened between two histories.\<close>

definition malloc_only :: "hist \<Rightarrow> hist \<Rightarrow> bool" where
  "malloc_only h' h \<longleftrightarrow> (\<exists>ms. h' = ms @ h \<and> set ms \<subseteq> {E_malloc})"

lemma malloc_only_refl [simp]: "malloc_only h h"
  by (simp add: malloc_only_def)

lemma malloc_only_replicate [simp]: "malloc_only (replicate m E_malloc @ h) h"
  by (auto simp: malloc_only_def)

lemma malloc_only_Cons [simp]: "malloc_only h' h \<Longrightarrow> malloc_only (E_malloc # h') h"
  unfolding malloc_only_def by (metis Cons_eq_appendI insert_subset list.set(2) singletonI)

lemma malloc_only_trans: "malloc_only h3 h2 \<Longrightarrow> malloc_only h2 h1 \<Longrightarrow> malloc_only h3 h1"
  unfolding malloc_only_def by (metis append.assoc set_append Un_least)

lemma malloc_only_chain: "malloc_only h' h \<Longrightarrow> fw_chain path h' = fw_chain path h"
proof -
  assume "malloc_only h' h"
  then obtain ms where h': "h' = ms @ h" and ms: "set ms \<subseteq> {E_malloc}"
    unfolding malloc_only_def by blast
  from ms show ?thesis
    unfolding h' by (induction ms) auto
qed

lemma process_rule_column_line:
  assumes "alloc_total env" and "line_ok i r l" and "row_fits r" and "i < 2 ^ 63"
  shows "\<exists>h'. process_rule_column env l h = (r\<lparr>num := int i\<rparr>, h') \<and> malloc_only h' h"
proof -
  obtain pkts byts prot opt extra where l:
    "filter (\<lambda>p. 0 < length p) (split_pieces CHR '' '' l) =
       [show_nat i, pkts, byts, target r, prot, opt, in_if r, out_if r, source r, destination r]
       @ extra"
    using assms(2) unfolding line_ok_def by blast
  have "snd (foldl column_step (0, zero_row) (filter (\<lambda>p. 0 < length p) (split_pieces CHR '' '' l))) =
        r\<lparr>num := int i\<rparr>"
    unfolding l using assms(3)
    by (simp add: column_step_def strtol10_show_nat [OF assms(4)] column_step_end zero_row_def
        row_fits_def strlcpy_fits not_sym [OF show_nat_nonempty])
  then show ?thesis
    using assms(1) by (auto simp: process_rule_column_def split_string_array_total)
qed

lemma numbered_Cons [simp]: "numbered n (r # rs) = r\<lparr>num := int n\<rparr> # numbered (Suc n) rs"
  by (simp add: numbered_def)

lemma numbered_Nil [simp]: "numbered n [] = []"
  by (simp add: numbered_def)

lemma line_ok_long: "line_ok i r l \<Longrightarrow> 1 < length l"
proof (rule ccontr)
  assume "line_ok i r l" and "\<not> 1 < length l"
  then obtain c where "l = [] \<or> l = [c]"
    by (cases l) auto
  with \<open>line_ok i r l\<close> show False
    by (auto simp: line_ok_def split: if_splits)
qed

lemma process_rule_loop_lines:
  assumes "alloc_total env"
  shows "list_all2 (\<lambda>(i, r) l. line_ok i r l) (enumerate n rs) ls \<Longrightarrow> list_all row_fits rs \<Longrightarrow>
         0 < n \<Longrightarrow> n + length rs < 2 ^ 63 \<Longrightarrow>
         \<exists>h'. process_rule_loop env acc (ls @ [[]]) h = (0, acc @ numbered n rs, h') \<and> malloc_only h' h"
proof (induction rs arbitrary: n ls acc h)
  case Nil
  then show ?case by simp
next
  case (Cons r rs)
  from Cons.prems(1) obtain l ls' where ls: "ls = l # ls'" and l: "line_ok n r l"
    and rest: "list_all2 (\<lambda>(i, r) l. line_ok i r l) (enumerate (Suc n) rs) ls'"
    by (auto simp: list_all2_Cons1)
  obtain h1 where row: "process_rule_column env l h = (r\<lparr>num := int n\<rparr>, h1)" "malloc_only h1 h"
    using process_rule_column_line [OF assms l] Cons.prems by auto
  obtain h2 where "process_rule_loop env (acc @ [r\<lparr>num := int n\<rparr>]) (ls' @ [[]]) h1
      = (0, (acc @ [r\<lparr>num := int n\<rparr>]) @ numbered (Suc n) rs, h2)" "malloc_only h2 h1"
    using Cons.IH [OF rest, of "acc @ [r\<lparr>num := int n\<rparr>]" h1] Cons.prems by auto
  then show ?case
    using row(1) malloc_only_trans [OF _ row(2)] line_ok_long [OF l] Cons.prems(3) unfolding ls by simp
qed

lemma list_rule_cb_listing:
  assumes "alloc_total env" and "is_listing text rs" and "list_all row_fits rs"
    and "length rs < 2 ^ 62"
  shows "\<exists>h'. list_rule_cb env ctx text h = (ctx\<lparr>rule_list := numbered (Suc 0) rs\<rparr>, h') \<and> malloc_only h' h"
proof -
  obtain h1 h2 ls where tx: "text = join_pieces (CHR 0x0A) (h1 # h2 # ls @ [[]])"
    and heads: "CHR 0x0A \<notin> set h1" "CHR 0x0A \<notin> set h2" "CHR 0x00 \<notin> set h1" "CHR 0x00 \<notin> set h2"
    and lines: "list_all2 (\<lambda>(i, r) l. line_ok i r l) (enumerate 1 rs) ls"
    using assms(2) unfolding is_listing_def by (elim exE conjE) (rule that)
  have ok: "\<forall>l \<in> set ls. CHR 0x0A \<notin> set l \<and> CHR 0x00 \<notin> set l"
    using lines by (induction rule: list_all2_induct) (auto simp: line_ok_def)
  have split: "split_pieces (CHR 0x0A) text = h1 # h2 # ls @ [[]]"
    unfolding tx by (rule split_join) (use heads ok in auto)
  have "CHR 0x00 \<notin> set (join_pieces (CHR 0x0A) ps)" if "\<forall>p \<in> set ps. CHR 0x00 \<notin> set p" for ps
    using that by (induction "CHR 0x0A" ps rule: join_pieces.induct) auto
  then have "CHR 0x00 \<notin> set text"
    unfolding tx using heads ok by auto
  then have nul: "takeWhile (\<lambda>c. c \<noteq> CHR 0x00) text = text"
    by (auto simp: takeWhile_eq_all_conv)
  define h0 where "h0 = replicate (Suc (Suc (Suc (length ls)))) E_malloc @ E_malloc # h"
  have h0: "malloc_only h0 h"
    unfolding h0_def by (rule malloc_only_trans [OF malloc_only_replicate]) simp
  have sp: "split_string_array env text (CHR 0x0A) (E_malloc # h) = (int (length ls + 3), h1 # h2 # ls @ [[]], h0)"
    using split by (simp add: split_string_array_total [OF assms(1)] h0_def)
  obtain h' where "process_rule_loop env [] (ls @ [[]]) h0 = (0, numbered (Suc 0) rs, h')" "malloc_only h' h0"
    using process_rule_loop_lines [OF assms(1) lines assms(3), of "[]" h0] assms(4) by auto
  with sp malloc_only_trans [OF _ h0] show ?thesis
    by (simp add: list_rule_cb_def os_malloc_total [OF assms(1)] process_rule_lines_def nul)
qed

section \<open>Commands and the chain\<close>

lemma fw_command_list [simp]: "fw_command list_filter_rule rs = Some rs"
  by (simp add: fw_command_def list_filter_rule_def)

lemma iptables_worksD:
  assumes "iptables_works env path k"
  shows "alloc_total env"
    and "proc_ran (env_command env (E_command (path # argv) # h))"
    and "po_exit_status (env_command env (E_command (path # argv) # h)) = 0 \<longleftrightarrow>
         fw_command argv (fw_chain path h) \<noteq> None"
    and "length (fw_chain path h) \<le> k \<Longrightarrow> list_all row_fits (fw_chain path h) \<Longrightarrow>
         \<exists>tx. is_listing tx (fw_chain path h) \<and>
              po_chunks (env_command env (E_command (path # list_filter_rule) # h)) = [tx]"
  using assms unfolding iptables_works_def Let_def by blast+

lemma run_iptables_command:
  assumes "iptables_works env (iptables_path ctx) k" and "exec_iptables ctx"
  shows "\<exists>h'. run_iptables env ctx argv False h =
               (if fw_command argv (fw_chain (iptables_path ctx) h) = None then - 1 else 0, ctx, h') \<and>
             fw_chain (iptables_path ctx) h' =
               (case fw_command argv (fw_chain (iptables_path ctx) h) of
                  None \<Rightarrow> fw_chain (iptables_path ctx) h | Some rs \<Rightarrow> rs)"
proof -
  let ?h2 = "log_run_command (iptables_path ctx # argv) (E_malloc # E_malloc # h)"
  let ?po = "env_command env (E_command (iptables_path ctx # argv) # ?h2)"
  have chain: "fw_chain (iptables_path ctx) ?h2 = fw_chain (iptables_path ctx) h"
    by (simp add: log_run_command_def)
  note total = iptables_worksD(1) [OF assms(1)]
  have "run_argv_command env (iptables_path ctx) argv False h =
      (if po_exit_status ?po = 0 then 0 else - 1, [], E_command (iptables_path ctx # argv) # ?h2)"
    using iptables_worksD(2) [OF assms(1), of argv ?h2]
    by (simp add: run_argv_command_def os_malloc_total [OF total] run_command_def proc_ran_def Let_def)
  then have "run_iptables env ctx argv False h =
      (if po_exit_status ?po = 0 then 0 else - 1, ctx, E_command (iptables_path ctx # argv) # ?h2)"
    using assms(2) by (simp add: run_iptables_def)
  then show ?thesis
    using iptables_worksD(3) [OF assms(1), of argv ?h2] chain by auto
qed

lemma get_filter_rules_chain:
  assumes works: "iptables_works env (iptables_path ctx) k" and ex: "exec_iptables ctx"
    and fits: "list_all row_fits (fw_chain (iptables_path ctx) h)"
    and len: "length (fw_chain (iptables_path ctx) h) \<le> k" "k < 2 ^ 62"
    and ne: "fw_chain (iptables_path ctx) h \<noteq> []"
  shows "\<exists>h'. get_filter_rules env ctx h =
               (0, ctx\<lparr>rule_list := numbered (Suc 0) (fw_chain (iptables_path ctx) h)\<rparr>, h') \<and>
             fw_chain (iptables_path ctx) h' = fw_chain (iptables_path ctx) h"
proof -
  let ?p = "iptables_path ctx"
  let ?h2 = "log_run_command (?p # list_filter_rule) (E_malloc # E_malloc # h)"
  let ?h3 = "E_command (?p # list_filter_rule) # ?h2"
  let ?po = "env_command env ?h3"
  have chain: "fw_chain ?p ?h2 = fw_chain ?p h"
    by (simp add: log_run_command_def)
  note total = iptables_worksD(1) [OF works]
  have po: "proc_ran ?po" "po_exit_status ?po = 0"
    using iptables_worksD(2,3) [OF works, of list_filter_rule ?h2] by auto
  obtain tx where out: "po_chunks ?po = [tx]" and tx: "is_listing tx (fw_chain ?p h)"
    using iptables_worksD(4) [OF works, of ?h2] len fits chain by auto
  have run: "run_argv_command env ?p list_filter_rule True h = (0, [tx], ?h3)"
    using po out by (simp add: run_argv_command_def os_malloc_total [OF total] run_command_def proc_ran_def Let_def)
  obtain h' where h': "list_rule_cb env ctx tx ?h3 = (ctx\<lparr>rule_list := numbered (Suc 0) (fw_chain ?p h)\<rparr>, h')"
    "malloc_only h' ?h3"
    using list_rule_cb_listing [OF total tx fits] len by fastforce
  have "fw_chain ?p h' = fw_chain ?p h"
    using malloc_only_chain [OF h'(2), of ?p] chain by simp
  moreover have "numbered (Suc 0) (fw_chain ?p h) \<noteq> []"
    using ne by (cases "fw_chain ?p h") simp_all
  ultimately show ?thesis
    using ex run h'(1) by (simp add: get_filter_rules_def run_iptables_def)
qed

text \<open>The number of the first rule with a property is one more than the rules before it.\<close>

lemma find_numbered:
  assumes "\<And>r i. P (r\<lparr>num := i\<rparr>) \<longleftrightarrow> P r"
  shows "(case find P (numbered n rs) of None \<Rightarrow> 0 | Some el \<Rightarrow> num el) =
         (if \<exists>r \<in> set rs. P r then int (n + length (takeWhile (\<lambda>r. \<not> P r) rs)) else 0)"
  by (induction rs arbitrary: n) (auto simp: assms)

lemma takeWhile_shorter: "r \<in> set rs \<Longrightarrow> length (takeWhile (\<lambda>x. x \<noteq> r) rs) < length rs"
  by (induction rs) auto

lemma remove1_take_drop:
  "r \<in> set rs \<Longrightarrow> fw_delete (Suc (length (takeWhile (\<lambda>x. x \<noteq> r) rs))) rs = remove1 r rs"
  by (induction rs) (auto simp: fw_delete_def)

definition accept_rule :: "string \<Rightarrow> string \<Rightarrow> string \<Rightarrow> string \<Rightarrow> iptables_columns" where
  "accept_rule sip sif dip dif = fw_rule sip sif dip dif ''ACCEPT''"

text \<open>The rule that rejects what comes in from an interface, as \<open>find_baseif_rulenum\<close> knows it.\<close>

definition rejects :: "string \<Rightarrow> iptables_columns \<Rightarrow> bool" where
  "rejects ifname r \<longleftrightarrow> in_if r = ifname \<and> out_if r = ''*'' \<and> target r = ''REJECT''"

definition insert_before ::
  "(iptables_columns \<Rightarrow> bool) \<Rightarrow> iptables_columns \<Rightarrow> iptables_columns list \<Rightarrow> iptables_columns list" where
  "insert_before P r rs =
     (if \<exists>x \<in> set rs. P x
      then takeWhile (\<lambda>x. \<not> P x) rs @ r # dropWhile (\<lambda>x. \<not> P x) rs
      else r # rs)"

lemma fw_insert_takeWhile:
  "fw_insert (Suc (length (takeWhile P rs))) r rs = takeWhile P rs @ r # dropWhile P rs"
  by (simp add: fw_insert_def takeWhile_eq_take [symmetric] dropWhile_eq_drop [symmetric])

lemma find_rule_numbered:
  assumes "list_all row_fits rs"
  shows "find_rule (numbered (Suc 0) rs) sip sif dip dif ''ACCEPT'' =
         (if accept_rule sip sif dip dif \<in> set rs
          then int (Suc (length (takeWhile (\<lambda>x. x \<noteq> accept_rule sip sif dip dif) rs))) else 0)"
proof -
  let ?P = "\<lambda>el. in_if el = sif \<and> out_if el = dif \<and> source el = sip \<and>
                  destination el = dip \<and> target el = ''ACCEPT''"
  have eq: "?P r \<longleftrightarrow> r = accept_rule sip sif dip dif" if "r \<in> set rs" for r
    using assms that by (cases r) (auto simp: list_all_iff row_fits_def accept_rule_def fw_rule_def)
  then have "takeWhile (\<lambda>r. \<not> ?P r) rs = takeWhile (\<lambda>x. x \<noteq> accept_rule sip sif dip dif) rs"
    by (intro takeWhile_cong) auto
  then show ?thesis
    using find_numbered [of ?P "Suc 0" rs] eq by (auto simp: find_rule_def)
qed

lemma find_baseif_numbered:
  "find_baseif_rulenum (numbered (Suc 0) rs) ifname =
   (if \<exists>r \<in> set rs. rejects ifname r
    then int (Suc (length (takeWhile (\<lambda>r. \<not> rejects ifname r) rs))) else 0)"
proof -
  have "(\<lambda>el. in_if el = ifname \<and> out_if el = ''*'' \<and> target el = ''REJECT'') = rejects ifname"
    by (simp add: fun_eq_iff rejects_def)
  moreover have "rejects ifname (r\<lparr>num := i\<rparr>) \<longleftrightarrow> rejects ifname r" for r i
    by (simp add: rejects_def)
  ultimately show ?thesis
    using find_numbered [of "rejects ifname" "Suc 0" rs] by (simp add: find_baseif_rulenum_def)
qed

text \<open>
  A chain the router keeps: it rejects the traffic of some interface, its rules fit the
  program's arrays, and there are at most \<open>k\<close> of them.
\<close>

definition chain_ok :: "nat \<Rightarrow> iptables_columns list \<Rightarrow> bool" where
  "chain_ok k rs \<longleftrightarrow>
     list_all row_fits rs \<and> length rs \<le> k \<and> k < 2 ^ 62 \<and> (\<exists>r \<in> set rs. target r = ''REJECT'')"

lemma chain_okD:
  assumes "chain_ok k rs"
  shows "list_all row_fits rs" "length rs \<le> k" "k < 2 ^ 62" "rs \<noteq> []"
  using assms by (auto simp: chain_ok_def)

lemma digits_val_show_int [simp]: "digits_val (show_int (int n)) = n"
  by (simp add: show_int_def digits_val_show_nat)

lemma print_num_simps [simp]:
  "fst (print_num n h) = show_int n"
  "fw_chain path (snd (print_num n h)) = fw_chain path h"
  by (auto simp: print_num_def)

lemma delete_bridge_rule_chain:
  assumes works: "iptables_works env (iptables_path ctx) k" and ex: "exec_iptables ctx"
    and ok: "chain_ok k (fw_chain (iptables_path ctx) h)"
  shows "\<exists>rl h'. delete_bridge_rule env ctx sip sif dip dif h = (0, ctx\<lparr>rule_list := rl\<rparr>, h') \<and>
           fw_chain (iptables_path ctx) h' =
             remove1 (accept_rule sip sif dip dif) (fw_chain (iptables_path ctx) h)"
proof -
  let ?p = "iptables_path ctx" and ?c = "fw_chain (iptables_path ctx) h"
  let ?a = "accept_rule sip sif dip dif"
  let ?ctx = "ctx\<lparr>rule_list := numbered (Suc 0) ?c\<rparr>"
  obtain h1 where get: "get_filter_rules env ctx h = (0, ?ctx, h1)" and h1: "fw_chain ?p h1 = ?c"
    using get_filter_rules_chain [OF works ex chain_okD [OF ok]] by blast
  note find = find_rule_numbered [of ?c sip sif dip dif]
  show ?thesis
  proof (cases "?a \<in> set ?c")
    case False
    then show ?thesis
      using get find [OF chain_okD(1) [OF ok]] ex h1 by (auto simp: delete_bridge_rule_def remove1_idem)
  next
    case True
    let ?n = "Suc (length (takeWhile (\<lambda>x. x \<noteq> ?a) ?c))"
    let ?argv = "[''-D'', ''FORWARD'', show_int (int ?n), ''-t'', ''filter'']"
    have "?n \<le> length ?c"
      using takeWhile_shorter [OF True] by simp
    then have "fw_command ?argv ?c = Some (remove1 ?a ?c)"
      using remove1_take_drop [OF True] by (simp add: fw_command_def del: of_nat_Suc)
    then obtain h2 where "run_iptables env ?ctx ?argv False (snd (print_num (int ?n) h1)) = (0, ?ctx, h2)"
      "fw_chain ?p h2 = remove1 ?a ?c"
      using run_iptables_command [of env ?ctx k ?argv "snd (print_num (int ?n) h1)"] works ex h1
      by (auto simp del: of_nat_Suc)
    moreover have "find_rule (numbered (Suc 0) ?c) sip sif dip dif ''ACCEPT'' = int ?n"
      using find [OF chain_okD(1) [OF ok]] True by simp
    ultimately show ?thesis
      using get by (auto simp: delete_bridge_rule_def case_prod_beta simp del: of_nat_Suc)
  qed
qed

lemma add_bridge_rule_chain:
  assumes works: "iptables_works env (iptables_path ctx) k" and ex: "exec_iptables ctx"
    and ok: "chain_ok k (fw_chain (iptables_path ctx) h)"
    and ips: "validate_ipv4_string sip" "validate_ipv4_string dip"
  shows "\<exists>rl h'. add_bridge_rule env ctx sip sif dip dif h = (0, ctx\<lparr>rule_list := rl\<rparr>, h') \<and>
           fw_chain (iptables_path ctx) h' =
             insert_before (rejects sif) (accept_rule sip sif dip dif) (fw_chain (iptables_path ctx) h)"
proof -
  let ?p = "iptables_path ctx" and ?c = "fw_chain (iptables_path ctx) h"
  let ?a = "accept_rule sip sif dip dif"
  let ?ctx = "ctx\<lparr>rule_list := numbered (Suc 0) ?c\<rparr>"
  define h0 where "h0 = snd (check_ipv4 dip (snd (check_ipv4 sip h)))"
  have h0: "fw_chain ?p h0 = ?c"
    by (simp add: h0_def check_ipv4_def)
  obtain h1 where get: "get_filter_rules env ctx h0 = (0, ?ctx, h1)" and h1: "fw_chain ?p h1 = ?c"
    using get_filter_rules_chain [OF works ex, of h0] chain_okD [OF ok] h0 by auto
  define n where
    "n = (if \<exists>r \<in> set ?c. rejects sif r then Suc (length (takeWhile (\<lambda>r. \<not> rejects sif r) ?c)) else 1)"
  let ?argv = "bridge_rule_args (show_int (int n)) sip sif dip dif"
  have "fw_insert n ?a ?c = insert_before (rejects sif) ?a ?c"
    using fw_insert_takeWhile [of "\<lambda>r. \<not> rejects sif r" ?c]
    by (auto simp: n_def insert_before_def fw_insert_def)
  moreover have "n \<le> length ?c + 1" "1 \<le> n"
    using length_takeWhile_le [of "\<lambda>r. \<not> rejects sif r" ?c] by (auto simp: n_def)
  ultimately have "fw_command ?argv ?c = Some (insert_before (rejects sif) ?a ?c)"
    by (simp add: fw_command_def bridge_rule_args_def accept_rule_def)
  then obtain h2 where run: "run_iptables env ?ctx ?argv False (snd (print_num (int n) h1)) = (0, ?ctx, h2)"
    and h2: "fw_chain ?p h2 = insert_before (rejects sif) ?a ?c"
    using run_iptables_command [of env ?ctx k ?argv "snd (print_num (int n) h1)"] works ex h1 by auto
  have "(let n = find_baseif_rulenum (numbered (Suc 0) ?c) sif in if n = 0 then n + 1 else n) = int n"
    by (simp add: find_baseif_numbered n_def)
  then have "add_bridge_rule env ctx sip sif dip dif h = (0, ?ctx, h2)"
    using get ips ex run
    by (simp add: add_bridge_rule_def case_prod_beta check_ipv4_def h0_def Let_def)
  with h2 show ?thesis
    by blast
qed

section \<open>What the chain does with a packet\<close>

definition cidr_match :: "string \<Rightarrow> string \<Rightarrow> bool" where
  "cidr_match a x =
     (case (inet_pton4 (takeWhile (\<lambda>c. c \<noteq> CHR ''/'') a), inet_pton4 x) of
        (Some as, Some xs) \<Rightarrow>
          let len = (if CHR ''/'' \<in> set a
                     then nat (fst (strtol10 (tl (dropWhile (\<lambda>c. c \<noteq> CHR ''/'') a)))) else 32)
          in drop_bit (32 - len) (be32 as) = drop_bit (32 - len) (be32 xs)
      | _ \<Rightarrow> False)"

text \<open>A packet: source address, incoming interface, destination address, outgoing interface.\<close>

type_synonym packet = "string \<times> string \<times> string \<times> string"

fun fw_match :: "iptables_columns \<Rightarrow> packet \<Rightarrow> bool" where
  "fw_match r (sip, sif, dip, dif) \<longleftrightarrow>
     (in_if r = ''*'' \<or> in_if r = sif) \<and> (out_if r = ''*'' \<or> out_if r = dif) \<and>
     cidr_match (source r) sip \<and> cidr_match (destination r) dip"

text \<open>The first rule that matches decides; the policy of the chain is to accept.\<close>

definition fw_verdict :: "iptables_columns list \<Rightarrow> packet \<Rightarrow> string" where
  "fw_verdict rs pkt = (case find (\<lambda>r. fw_match r pkt) rs of None \<Rightarrow> ''ACCEPT'' | Some r \<Rightarrow> target r)"

lemma verdict_skip:
  "\<not> fw_match r pkt \<Longrightarrow> fw_verdict (xs @ r # ys) pkt = fw_verdict (xs @ ys) pkt"
  by (simp add: fw_verdict_def find_append split: option.splits)

lemma verdict_remove1: "\<not> fw_match r pkt \<Longrightarrow> fw_verdict (remove1 r rs) pkt = fw_verdict rs pkt"
proof (cases "r \<in> set rs")
  case True
  assume "\<not> fw_match r pkt"
  moreover from True obtain xs ys where "rs = xs @ r # ys" "r \<notin> set xs"
    by (meson split_list_first)
  ultimately show ?thesis
    by (simp add: verdict_skip remove1_append)
qed (simp add: remove1_idem)

lemma insert_beforeE:
  obtains xs ys where "insert_before P r rs = xs @ r # ys" "rs = xs @ ys" "\<forall>x \<in> set xs. \<not> P x"
proof (cases "\<exists>x \<in> set rs. P x")
  case True
  then show ?thesis
    using that [of "takeWhile (\<lambda>x. \<not> P x) rs" "dropWhile (\<lambda>x. \<not> P x) rs"]
    by (auto simp: insert_before_def dest: set_takeWhileD)
next
  case False
  then show ?thesis
    using that [of "[]" rs] by (auto simp: insert_before_def)
qed

lemma verdict_insert_before:
  "\<not> fw_match r pkt \<Longrightarrow> fw_verdict (insert_before P r rs) pkt = fw_verdict rs pkt"
  by (rule insert_beforeE [of P r rs]) (simp add: verdict_skip)

lemma verdict_insert_accept:
  assumes "target r = ''ACCEPT''" and "fw_verdict rs pkt = ''ACCEPT''"
  shows "fw_verdict (insert_before P r rs) pkt = ''ACCEPT''"
  by (rule insert_beforeE [of P r rs])
     (use assms in \<open>auto simp: fw_verdict_def find_append split: option.splits if_splits\<close>)

text \<open>
  The rules of the router accept, or reject everything that comes in from one interface.
\<close>

definition router_rule :: "iptables_columns \<Rightarrow> bool" where
  "router_rule r \<longleftrightarrow>
     target r = ''ACCEPT'' \<or> (target r = ''REJECT'' \<and> out_if r = ''*'' \<and> in_if r \<noteq> ''*'')"

lemma verdict_insert_opens:
  assumes "\<forall>r \<in> set rs. router_rule r" and "fw_match a (sip, sif, dip, dif)"
    and "target a = ''ACCEPT''"
  shows "fw_verdict (insert_before (rejects sif) a rs) (sip, sif, dip, dif) = ''ACCEPT''"
proof (rule insert_beforeE [of "rejects sif" a rs])
  fix xs ys
  assume ins: "insert_before (rejects sif) a rs = xs @ a # ys" and rs: "rs = xs @ ys"
    and early: "\<forall>x \<in> set xs. \<not> rejects sif x"
  have "target r = ''ACCEPT''" if "r \<in> set xs" "fw_match r (sip, sif, dip, dif)" for r
    using assms(1) early that rs by (auto simp: router_rule_def rejects_def)
  moreover have "r \<in> set xs \<and> fw_match r (sip, sif, dip, dif)"
    if "find (\<lambda>r. fw_match r (sip, sif, dip, dif)) xs = Some r" for r
    using find_SomeD [OF that] by blast
  ultimately show ?thesis
    using assms(2,3) unfolding ins fw_verdict_def find_append
    by (cases "find (\<lambda>r. fw_match r (sip, sif, dip, dif)) xs") (auto simp del: fw_match.simps)
qed

lemma set_join_pieces: "x \<in> set (join_pieces c ps) \<Longrightarrow> x = c \<or> (\<exists>p \<in> set ps. x \<in> set p)"
  by (induction c ps rule: join_pieces.induct) auto

lemma pton_no_slash:
  assumes ok: "inet_pton4 s \<noteq> None"
  shows "CHR ''/'' \<notin> set s"
proof
  assume "CHR ''/'' \<in> set s"
  then have "CHR ''/'' \<in> set (join_pieces CHR ''.'' (split_pieces CHR ''.'' s))"
    by (simp only: join_split)
  then have "CHR ''/'' = CHR ''.'' \<or> (\<exists>p \<in> set (split_pieces CHR ''.'' s). CHR ''/'' \<in> set p)"
    by (rule set_join_pieces)
  then obtain p where p: "p \<in> set (split_pieces CHR ''.'' s)" "CHR ''/'' \<in> set p"
    by auto
  have "list_all pton_octet (split_pieces CHR ''.'' s)"
    using ok by (simp add: inet_pton4_def Let_def split: if_splits)
  with p have "pton_octet p"
    by (simp add: list_all_iff)
  then have "\<forall>c \<in> set p. c_isdigit c"
    by (simp add: pton_octet_def list_all_iff)
  with p(2) have "c_isdigit CHR ''/''"
    by blast
  then show False
    by (simp add: c_isdigit_def)
qed

lemma cidr_match_host: "inet_pton4 s \<noteq> None \<Longrightarrow> cidr_match s s"
proof -
  assume ok: "inet_pton4 s \<noteq> None"
  then have tw: "takeWhile (\<lambda>c. c \<noteq> CHR ''/'') s = s"
    using pton_no_slash by (auto simp: takeWhile_eq_all_conv)
  from ok show ?thesis
    by (cases "inet_pton4 s") (simp_all add: cidr_match_def tw)
qed

lemma accept_rule_match:
  "inet_pton4 sip \<noteq> None \<Longrightarrow> inet_pton4 dip \<noteq> None \<Longrightarrow>
   fw_match (accept_rule sip sif dip dif) (sip, sif, dip, dif)"
  by (simp add: accept_rule_def fw_rule_def cidr_match_host)

section \<open>Bridges in the chain\<close>

lemma chain_ok_remove1:
  assumes "chain_ok k rs" and "target r = ''ACCEPT''"
  shows "chain_ok k (remove1 r rs)"
proof -
  obtain x where "x \<in> set rs" "target x = ''REJECT''"
    using assms(1) by (auto simp: chain_ok_def)
  moreover from this have "x \<noteq> r"
    using assms(2) by auto
  ultimately have "x \<in> set (remove1 r rs)" "target x = ''REJECT''"
    by simp_all
  moreover have "list_all row_fits (remove1 r rs)"
    using assms(1) set_remove1_subset [of r rs] unfolding chain_ok_def list_all_iff by blast
  moreover have "length (remove1 r rs) \<le> length rs"
    by (simp add: length_remove1)
  ultimately show ?thesis
    using assms(1) unfolding chain_ok_def by (meson le_trans)
qed

lemma chain_ok_insert:
  assumes "chain_ok k rs" and "row_fits r" and "length rs < k"
  shows "chain_ok k (insert_before P r rs)"
  by (rule insert_beforeE [of P r rs]) (use assms in \<open>auto simp: chain_ok_def\<close>)

lemma length_insert_before [simp]: "length (insert_before P r rs) = Suc (length rs)"
  by (rule insert_beforeE [of P r rs]) auto

lemma set_insert_before [simp]: "set (insert_before P r rs) = insert r (set rs)"
  by (rule insert_beforeE [of P r rs]) auto

lemma target_accept [simp]: "target (accept_rule sip sif dip dif) = ''ACCEPT''"
  by (simp add: accept_rule_def fw_rule_def)

lemma iptables_delete_bridge_chain:
  assumes works: "iptables_works env (iptables_path ctx) k" and ex: "exec_iptables ctx"
    and ok: "chain_ok k (fw_chain (iptables_path ctx) h)"
  shows "\<exists>rl h'. iptables_delete_bridge env ctx sip sif dip dif h = (0, ctx\<lparr>rule_list := rl\<rparr>, h') \<and>
           fw_chain (iptables_path ctx) h' =
             remove1 (accept_rule dip dif sip sif)
               (remove1 (accept_rule sip sif dip dif) (fw_chain (iptables_path ctx) h))"
proof -
  obtain rl h1 where d1: "delete_bridge_rule env ctx sip sif dip dif h = (0, ctx\<lparr>rule_list := rl\<rparr>, h1)"
    and c1: "fw_chain (iptables_path ctx) h1 =
             remove1 (accept_rule sip sif dip dif) (fw_chain (iptables_path ctx) h)"
    using delete_bridge_rule_chain [OF works ex ok] by blast
  have "chain_ok k (fw_chain (iptables_path ctx) h1)"
    unfolding c1 by (rule chain_ok_remove1 [OF ok]) simp
  then obtain rl2 h2 where
    "delete_bridge_rule env (ctx\<lparr>rule_list := rl\<rparr>) dip dif sip sif h1 = (0, ctx\<lparr>rule_list := rl2\<rparr>, h2)"
    "fw_chain (iptables_path ctx) h2 =
       remove1 (accept_rule dip dif sip sif) (fw_chain (iptables_path ctx) h1)"
    using delete_bridge_rule_chain [of env "ctx\<lparr>rule_list := rl\<rparr>" k h1 dip dif sip sif] works ex by auto
  with d1 c1 show ?thesis
    by (intro exI [of _ rl2] exI [of _ h2]) (simp add: iptables_delete_bridge_def)
qed

lemma iptables_add_bridge_chain:
  assumes works: "iptables_works env (iptables_path ctx) k" and ex: "exec_iptables ctx"
    and ok: "chain_ok k (fw_chain (iptables_path ctx) h)" "length (fw_chain (iptables_path ctx) h) < k"
    and ips: "validate_ipv4_string sip" "validate_ipv4_string dip"
    and fits: "row_fits (accept_rule sip sif dip dif)"
  shows "\<exists>rl h'. iptables_add_bridge env ctx sip sif dip dif h = (0, ctx\<lparr>rule_list := rl\<rparr>, h') \<and>
           fw_chain (iptables_path ctx) h' =
             insert_before (rejects dif) (accept_rule dip dif sip sif)
               (insert_before (rejects sif) (accept_rule sip sif dip dif)
                 (remove1 (accept_rule dip dif sip sif)
                   (remove1 (accept_rule sip sif dip dif) (fw_chain (iptables_path ctx) h))))"
proof -
  let ?p = "iptables_path ctx"
  let ?a = "accept_rule sip sif dip dif" and ?b = "accept_rule dip dif sip sif"
  obtain rl h1 where d: "iptables_delete_bridge env ctx sip sif dip dif h = (0, ctx\<lparr>rule_list := rl\<rparr>, h1)"
    and c1: "fw_chain ?p h1 = remove1 ?b (remove1 ?a (fw_chain ?p h))"
    using iptables_delete_bridge_chain [OF works ex ok(1)] by blast
  have ok1: "chain_ok k (fw_chain ?p h1)"
    unfolding c1 by (intro chain_ok_remove1 ok(1)) simp_all
  have len: "length (fw_chain ?p h1) < k"
    unfolding c1 using ok(2) by (auto simp: length_remove1)
  obtain rl2 h2 where a: "add_bridge_rule env (ctx\<lparr>rule_list := rl\<rparr>) sip sif dip dif h1 =
      (0, ctx\<lparr>rule_list := rl2\<rparr>, h2)" and c2: "fw_chain ?p h2 = insert_before (rejects sif) ?a (fw_chain ?p h1)"
    using add_bridge_rule_chain [of env "ctx\<lparr>rule_list := rl\<rparr>" k h1 sip dip sif dif] works ex ok1 ips by auto
  have "chain_ok k (fw_chain ?p h2)"
    unfolding c2 by (rule chain_ok_insert [OF ok1 fits len])
  then obtain rl3 h3 where "add_bridge_rule env (ctx\<lparr>rule_list := rl2\<rparr>) dip dif sip sif h2 =
      (0, ctx\<lparr>rule_list := rl3\<rparr>, h3)" "fw_chain ?p h3 = insert_before (rejects dif) ?b (fw_chain ?p h2)"
    using add_bridge_rule_chain [of env "ctx\<lparr>rule_list := rl2\<rparr>" k h2 dip sip dif sif] works ex ips by auto
  with d a c1 c2 show ?thesis
    by (intro exI [of _ rl3] exI [of _ h3]) (simp add: iptables_add_bridge_def)
qed

section \<open>Setting the chain up\<close>

fun fw_commands :: "string list list \<Rightarrow> iptables_columns list \<Rightarrow> iptables_columns list option" where
  "fw_commands [] rs = Some rs"
| "fw_commands (argv # argvs) rs =
     (case fw_command argv rs of None \<Rightarrow> None | Some rs' \<Rightarrow> fw_commands argvs rs')"

lemma run_iptables_all_chain:
  assumes "iptables_works env (iptables_path ctx) k" and "exec_iptables ctx"
  shows "fw_commands argvs (fw_chain (iptables_path ctx) h) = Some rs \<Longrightarrow>
         \<exists>h'. run_iptables_all env ctx argvs h = (0, ctx, h') \<and> fw_chain (iptables_path ctx) h' = rs"
proof (induction argvs arbitrary: h)
  case (Cons argv argvs)
  from Cons.prems obtain rs1 where cmd: "fw_command argv (fw_chain (iptables_path ctx) h) = Some rs1"
    and rest: "fw_commands argvs rs1 = Some rs"
    by (auto split: option.splits)
  obtain h1 where "run_iptables env ctx argv False h = (0, ctx, h1)" and "fw_chain (iptables_path ctx) h1 = rs1"
    using run_iptables_command [OF assms, of argv h] cmd by auto
  with Cons.IH [of h1] rest show ?case
    by simp
qed simp

definition base_rules :: "string list \<Rightarrow> iptables_columns list" where
  "base_rules ifnames =
     fw_rule ''224.0.0.0/4'' ''*'' ''224.0.0.0/4'' ''*'' ''ACCEPT'' #
     map (\<lambda>i. fw_rule ANY_ADDR i ANY_ADDR ''*'' ''REJECT'') ifnames"

lemma fw_commands_append:
  "fw_commands (xs @ ys) rs = (case fw_commands xs rs of None \<Rightarrow> None | Some rs' \<Rightarrow> fw_commands ys rs')"
  by (induction xs arbitrary: rs) (auto split: option.splits)

lemma fw_commands_flush:
  "fw_commands BASIC_FLUSH_COMMANDS rs = Some (base_rules [])"
  by (simp add: BASIC_FLUSH_COMMANDS_def fw_command_def base_rules_def)

lemma fw_commands_reject:
  "fw_commands (map reject_rule ifs) rs =
   Some (rs @ map (\<lambda>i. fw_rule ANY_ADDR i ANY_ADDR ''*'' ''REJECT'') ifs)"
  by (induction ifs arbitrary: rs) (auto simp: reject_rule_def fw_command_def)

lemma iptables_init_chain:
  assumes "iptables_works env path k" and "path \<noteq> []" and "length path < MAX_OS_PATH_LEN"
  shows "\<exists>ctx h'. iptables_init env (Some path) (Some ifs) True h = (Some ctx, h') \<and>
           iptables_path ctx = path \<and> exec_iptables ctx \<and>
           fw_chain path h' = base_rules (map ifi_ifname ifs)"
proof -
  let ?ctx = "\<lparr>iptables_path = path, rule_list = [], exec_iptables = True\<rparr>"
  let ?h = "E_malloc # h"
  obtain h1 where flush: "flush_iptables env ?ctx ?h = (0, ?ctx, h1)" and c1: "fw_chain path h1 = base_rules []"
    using run_iptables_all_chain [of env ?ctx k BASIC_FLUSH_COMMANDS ?h] assms(1)
    by (auto simp: flush_iptables_def fw_commands_flush)
  have "map (\<lambda>p. reject_rule (ifi_ifname p)) ifs = map reject_rule (map ifi_ifname ifs)"
    by simp
  then obtain h2 where "add_baseif_rules env ?ctx (Some ifs) h1 = (0, ?ctx, h2)"
    and "fw_chain path h2 = base_rules (map ifi_ifname ifs)"
    using run_iptables_all_chain [of env ?ctx k "map reject_rule (map ifi_ifname ifs)" h1] assms(1) c1
    by (auto simp: add_baseif_rules_def fw_commands_reject base_rules_def simp del: map_map)
  with flush show ?thesis
    using assms os_malloc_total [OF iptables_worksD(1) [OF assms(1)]]
    by (simp add: iptables_init_def strlcpy_fits)
qed

section \<open>A program iptables that works\<close>

definition fw_print_line :: "nat \<times> iptables_columns \<Rightarrow> string" where
  "fw_print_line ir =
     (case ir of (i, r) \<Rightarrow> join_pieces CHR '' ''
        [show_nat i, ''0'', ''0'', target r, ''all'', ''--'', in_if r, out_if r, source r, destination r])"

definition fw_print :: "iptables_columns list \<Rightarrow> string" where
  "fw_print rs = join_pieces (CHR 0x0A)
     (''Chain FORWARD (policy ACCEPT)'' # ''num pkts bytes target prot opt in out source destination'' #
      map fw_print_line (enumerate 1 rs) @ [[]])"

definition kernel_env :: "string \<Rightarrow> env" where
  "kernel_env path = ideal_env\<lparr>env_command := \<lambda>h.
     (case h of
        E_command (p # argv) # h' \<Rightarrow>
          if fw_command argv (fw_chain path h') = None then quiet_proc\<lparr>po_exit_status := 1\<rparr>
          else if argv = list_filter_rule then quiet_proc\<lparr>po_chunks := [fw_print (fw_chain path h')]\<rparr>
          else quiet_proc
      | _ \<Rightarrow> quiet_proc)\<rparr>"

lemma show_nat_word: "column_word (show_nat n)"
proof -
  have d: "\<forall>c \<in> set (show_nat n). c_isdigit c"
    using show_nat_digits [of n] by (simp add: list_all_iff)
  have "\<not> c_isdigit CHR '' ''" "\<not> c_isdigit CHR 0x0A" "\<not> c_isdigit CHR 0x00"
    by (simp_all add: c_isdigit_def)
  with d show ?thesis
    unfolding column_word_def by (metis show_nat_nonempty)
qed

lemma fw_print_line_ok:
  assumes "row_fits r"
  shows "line_ok i r (fw_print_line (i, r))"
proof -
  let ?ws = "[show_nat i, ''0'', ''0'', target r, ''all'', ''--'', in_if r, out_if r, source r, destination r]"
  have words: "list_all column_word ?ws"
    using assms show_nat_word by (simp add: row_fits_def column_word_def)
  then have "split_pieces CHR '' '' (fw_print_line (i, r)) = ?ws"
    unfolding fw_print_line_def prod.case
    by (intro split_join) (auto simp: list_all_iff column_word_def)
  moreover have "c \<notin> set (join_pieces CHR '' '' ps)"
    if "c \<noteq> CHR '' ''" "\<forall>p \<in> set ps. c \<notin> set p" for c ps
    using that set_join_pieces by metis
  then have "CHR 0x0A \<notin> set (fw_print_line (i, r))" "CHR 0x00 \<notin> set (fw_print_line (i, r))"
    unfolding fw_print_line_def prod.case using words by (simp_all add: list_all_iff column_word_def)
  moreover have "filter (\<lambda>p. 0 < length p) ?ws = ?ws"
    using words by (simp add: column_word_def)
  ultimately show ?thesis
    unfolding line_ok_def
    by (intro conjI exI [of _ "''0''"] exI [of _ "''all''"] exI [of _ "''--''"] exI [of _ "[]"]) simp_all
qed

lemma fw_print_listing:
  assumes "list_all row_fits rs"
  shows "is_listing (fw_print rs) rs"
proof -
  have "list_all2 (\<lambda>(i, r) l. line_ok i r l) (enumerate n rs) (map fw_print_line (enumerate n rs))" for n
    using assms by (induction rs arbitrary: n) (auto simp: fw_print_line_ok)
  then show ?thesis
    unfolding is_listing_def fw_print_def
    by (intro exI conjI) (rule refl | assumption | simp)+
qed

lemma kernel_env_works: "iptables_works (kernel_env path) path k"
  by (auto simp: iptables_works_def kernel_env_def alloc_total_def ideal_env_def Let_def
      proc_ran_def quiet_proc_def fw_print_listing)

section \<open>Properties of the firewall\<close>

lemma cidr_match_any: "inet_pton4 x \<noteq> None \<Longrightarrow> cidr_match ANY_ADDR x"
proof -
  have "strtol10 ''0'' = (0, False, [])"
    by (simp add: strtol10_def strto_parts_def c_isspace_def c_isdigit_def digits_val_def Let_def)
  moreover have "inet_pton4 ''0.0.0.0'' \<noteq> None"
    by (simp add: inet_pton4_def pton_octet_def c_isdigit_def digits_val_def Let_def)
  moreover assume "inet_pton4 x \<noteq> None"
  ultimately show ?thesis
    by (auto simp: cidr_match_def drop_bit_eq_div word_unat_eq_iff unat_div split: option.splits)
qed

lemma validate_plain:
  assumes "inet_pton4 ip \<noteq> None" and "length ip < OS_INET_ADDRSTRLEN"
  shows "validate_ipv4_string ip"
  using assms pton_no_slash [of ip] by (simp add: validate_ipv4_string_def strlcpy_fits)

lemma verdict_base_rules:
  assumes "sif \<in> set ifnames"
    and "inet_pton4 sip \<noteq> None" and "inet_pton4 dip \<noteq> None"
    and "\<not> cidr_match ''224.0.0.0/4'' dip"
  shows "fw_verdict (base_rules ifnames) (sip, sif, dip, dif) = ''REJECT''"
proof -
  let ?m = "\<lambda>r. fw_match r (sip, sif, dip, dif)"
  have "\<exists>r. find ?m (map (\<lambda>i. fw_rule ANY_ADDR i ANY_ADDR ''*'' ''REJECT'') ifnames) = Some r \<and>
            target r = ''REJECT''"
    using assms(1)
    by (induction ifnames) (auto simp: fw_rule_def cidr_match_any assms)
  then show ?thesis
    using assms(4) by (auto simp: fw_verdict_def base_rules_def fw_rule_def)
qed

text \<open>
  C23: with a working \<open>iptables\<close>, initialisation leaves a chain that rejects every packet from a
  configured interface, whatever the chain was before; only multicast destinations get through.
\<close>

theorem iptables_init_default_deny:
  assumes "iptables_works env path k" and "path \<noteq> []" and "length path < MAX_OS_PATH_LEN"
  shows "\<exists>ctx h'. iptables_init env (Some path) (Some ifs) True h = (Some ctx, h') \<and>
           iptables_path ctx = path \<and> exec_iptables ctx \<and>
           (\<forall>sip sif dip dif.
              sif \<in> ifi_ifname ` set ifs \<and> inet_pton4 sip \<noteq> None \<and> inet_pton4 dip \<noteq> None \<and>
              \<not> cidr_match ''224.0.0.0/4'' dip \<longrightarrow>
              fw_verdict (fw_chain path h') (sip, sif, dip, dif) = ''REJECT'')"
proof -
  obtain ctx h' where "iptables_init env (Some path) (Some ifs) True h = (Some ctx, h')"
    and "iptables_path ctx = path" "exec_iptables ctx"
    and "fw_chain path h' = base_rules (map ifi_ifname ifs)"
    using iptables_init_chain [OF assms, of ifs h] by blast
  then show ?thesis
    using verdict_base_rules [of _ "map ifi_ifname ifs"]
    by (intro exI [of _ ctx] exI [of _ h']) simp
qed

theorem iptables_init_default_deny_witness:
  "\<exists>ctx h'. iptables_init (kernel_env ''/sbin/iptables'') (Some ''/sbin/iptables'') (Some demo_ifinfo) True [] =
       (Some ctx, h') \<and>
     fw_verdict (fw_chain ''/sbin/iptables'' h') (''10.0.0.2'', ifi_ifname (hd demo_ifinfo), ''10.0.1.2'', ''wlan1'') = ''REJECT''"
proof -
  have ip: "inet_pton4 ''10.0.0.2'' \<noteq> None" "inet_pton4 ''10.0.1.2'' \<noteq> None"
    by code_simp+
  have mc: "\<not> cidr_match ''224.0.0.0/4'' ''10.0.1.2''"
    by code_simp
  have hd: "ifi_ifname (hd demo_ifinfo) \<in> ifi_ifname ` set demo_ifinfo"
    by (simp add: demo_ifinfo_def)
  show ?thesis
    using iptables_init_default_deny [OF kernel_env_works, of "''/sbin/iptables''" demo_ifinfo "[]"] ip mc hd
    by (auto simp: MAX_OS_PATH_LEN_def)
qed



definition demo_chain_hist :: hist where
  "demo_chain_hist =
     [E_command (''ipt'' # bridge_rule_args ''1'' ''10.0.0.2'' ''br0'' ''10.0.1.9'' ''br1''),
      E_command (''ipt'' # reject_rule ''br1''), E_command (''ipt'' # reject_rule ''br0'')]"

definition demo_ipt :: iptables_context where
  "demo_ipt = \<lparr>iptables_path = ''ipt'', rule_list = [], exec_iptables = True\<rparr>"

lemma demo_chain:
  "fw_chain ''ipt'' demo_chain_hist =
     [accept_rule ''10.0.0.2'' ''br0'' ''10.0.1.9'' ''br1'',
      fw_rule ANY_ADDR ''br0'' ANY_ADDR ''*'' ''REJECT'', fw_rule ANY_ADDR ''br1'' ANY_ADDR ''*'' ''REJECT'']"
  by code_simp

lemma demo_chain_ok:
  "chain_ok 20 (fw_chain ''ipt'' demo_chain_hist)" "distinct (fw_chain ''ipt'' demo_chain_hist)"
  "\<forall>r \<in> set (fw_chain ''ipt'' demo_chain_hist). router_rule r"
  "row_fits (accept_rule ''10.0.0.2'' ''br0'' ''10.0.1.7'' ''br1'')"
  unfolding demo_chain
  by (simp_all add: chain_ok_def row_fits_def column_word_def accept_rule_def fw_rule_def router_rule_def
      IF_NAMESIZE_def OS_INET_ADDRSTRLEN_def)

lemma demo_ips: "inet_pton4 ''10.0.0.2'' \<noteq> None" "inet_pton4 ''10.0.1.7'' \<noteq> None"
  by code_simp+



end
