(* ===== verification/Firewall.thy ===== *)
theory Firewall
  imports Iptables_Chain
begin

text \<open>
  firewall/firewall_service.c, built without the UCI service: NAT and bridge rules by address.
  The context keeps the fields the operations use; the tables and paths that
  \<open>fw_init_context\<close> only stores are its arguments.
\<close>

record fwctx =
  fw_config_ifinfo_array :: "config_ifinfo_t list"
  fw_nat_interface :: string
  exec_firewall :: bool
  fw_ipt :: iptables_context

definition run_firewall :: "fwctx \<Rightarrow> int" where
  "run_firewall context = 0"

definition fw_init_context ::
  "env \<Rightarrow> hmap_if_conn option \<Rightarrow> hmap_vlan_conn option \<Rightarrow> (string \<times> string) list option \<Rightarrow>
   config_ifinfo_t list option \<Rightarrow> string option \<Rightarrow> string option \<Rightarrow> bool \<Rightarrow> string option \<Rightarrow> hist \<Rightarrow>
   fwctx option \<times> hist" where
  "fw_init_context env if_mapper vlan_mapper hmap_bin_paths config_ifinfo_array nat_bridge
     nat_interface exec path h =
     (case (if_mapper, vlan_mapper, hmap_bin_paths, config_ifinfo_array, nat_bridge, nat_interface, path) of
        (Some _, Some _, Some bins, Some ifs, Some _, Some nif, Some _) \<Rightarrow>
          (let (ok, h) = os_malloc env h in
           if \<not> ok then (None, h)
           else case map_of bins ''iptables'' of
             None \<Rightarrow> (None, h)
           | Some p \<Rightarrow>
               (case iptables_init env (Some p) (Some ifs) exec h of
                  (None, h) \<Rightarrow> (None, h)
                | (Some ipt, h) \<Rightarrow>
                    let fw = \<lparr>fw_config_ifinfo_array = ifs, fw_nat_interface = nif,
                              exec_firewall = exec, fw_ipt = ipt\<rparr>
                    in if run_firewall fw < 0 then (None, h) else (Some fw, h)))
      | _ \<Rightarrow> (None, h))"

definition fw_add_nat :: "env \<Rightarrow> fwctx \<Rightarrow> string \<Rightarrow> hist \<Rightarrow> int \<times> fwctx \<times> hist" where
  "fw_add_nat env context ip_addr h =
     (case get_ifname_from_ip (fw_config_ifinfo_array context) ip_addr of
        None \<Rightarrow> (- 1, context, h)
      | Some ifname \<Rightarrow>
          let (r, ipt, h) = iptables_add_nat env (fw_ipt context) ip_addr ifname (fw_nat_interface context) h;
              context = context\<lparr>fw_ipt := ipt\<rparr>
          in if r < 0 then (- 1, context, h)
             else if run_firewall context < 0 then (- 1, context, h)
             else (0, context, h))"

definition fw_remove_nat :: "env \<Rightarrow> fwctx \<Rightarrow> string \<Rightarrow> hist \<Rightarrow> int \<times> fwctx \<times> hist" where
  "fw_remove_nat env context ip_addr h =
     (case get_ifname_from_ip (fw_config_ifinfo_array context) ip_addr of
        None \<Rightarrow> (- 1, context, h)
      | Some ifname \<Rightarrow>
          let (r, ipt, h) = iptables_delete_nat env (fw_ipt context) ip_addr ifname (fw_nat_interface context) h;
              context = context\<lparr>fw_ipt := ipt\<rparr>
          in if r < 0 then (- 1, context, h)
             else if run_firewall context < 0 then (- 1, context, h)
             else (0, context, h))"

definition fw_add_bridge :: "env \<Rightarrow> fwctx \<Rightarrow> string \<Rightarrow> string \<Rightarrow> hist \<Rightarrow> int \<times> fwctx \<times> hist" where
  "fw_add_bridge env context ip_addr_left ip_addr_right h =
     (case get_ifname_from_ip (fw_config_ifinfo_array context) ip_addr_left of
        None \<Rightarrow> (- 1, context, h)
      | Some ifname_left \<Rightarrow>
          (case get_ifname_from_ip (fw_config_ifinfo_array context) ip_addr_right of
             None \<Rightarrow> (- 1, context, h)
           | Some ifname_right \<Rightarrow>
               let (r, ipt, h) = iptables_add_bridge env (fw_ipt context) ip_addr_left ifname_left
                                   ip_addr_right ifname_right h;
                   context = context\<lparr>fw_ipt := ipt\<rparr>
               in if r < 0 then (- 1, context, h)
                  else if run_firewall context < 0 then (- 1, context, h)
                  else (0, context, h)))"

definition fw_remove_bridge :: "env \<Rightarrow> fwctx \<Rightarrow> string \<Rightarrow> string \<Rightarrow> hist \<Rightarrow> int \<times> fwctx \<times> hist" where
  "fw_remove_bridge env context ip_addr_left ip_addr_right h =
     (case get_ifname_from_ip (fw_config_ifinfo_array context) ip_addr_left of
        None \<Rightarrow> (- 1, context, h)
      | Some ifname_left \<Rightarrow>
          (case get_ifname_from_ip (fw_config_ifinfo_array context) ip_addr_right of
             None \<Rightarrow> (- 1, context, h)
           | Some ifname_right \<Rightarrow>
               let (r, ipt, h) = iptables_delete_bridge env (fw_ipt context) ip_addr_left ifname_left
                                   ip_addr_right ifname_right h;
                   context = context\<lparr>fw_ipt := ipt\<rparr>
               in if r < 0 then (- 1, context, h)
                  else if run_firewall context < 0 then (- 1, context, h)
                  else (0, context, h)))"

definition IP_FORWARD_PATH :: string where
  "IP_FORWARD_PATH = ''/proc/sys/net/ipv4/ip_forward''"

text \<open>
  \<open>fw_set_ip_forward\<close>: a read that fails, also because the file could not be opened, is the
  outcome None; of an empty file nothing is read, and the flag is what was on the stack.
\<close>

definition fw_set_ip_forward :: "env \<Rightarrow> char \<Rightarrow> hist \<Rightarrow> int \<times> hist" where
  "fw_set_ip_forward env junk h =
     (let h = E_read_file IP_FORWARD_PATH # h in
      case env_read_file env h of
        None \<Rightarrow> (- 1, h)
      | Some data \<Rightarrow>
          let flag = (case data of [] \<Rightarrow> junk | c # _ \<Rightarrow> c) in
          if flag = CHR ''0'' then
            let h = E_write_file IP_FORWARD_PATH ''1'' # h in
            (if env_write_file env h then 0 else - 1, h)
          else (0, h))"

end
