(* ===== verification/Mac_Mapper.thy ===== *)
theory Mac_Mapper
  imports Iface_Mapper
begin

text \<open>
  supervisor/mac_mapper.c: the table of devices, a \<open>uthash\<close> table from MAC addresses to what
  the router knows of the device.  \<open>mi_pass\<close> is the array of \<open>AP_SECRET_LEN\<close> bytes, of which
  the first \<open>mi_pass_len\<close> are the passphrase; \<open>mi_status\<close> is the number of the status.  Also the hash functions of utils/hash.c.
\<close>

unbundle bit_operations_syntax

datatype AP_CONNECTION_STATUS = AP_DEFAULT_STATUS | AP_CONNECTED_STATUS | AP_DISCONNECTED_STATUS

fun status_code :: "AP_CONNECTION_STATUS \<Rightarrow> int" where
  "status_code AP_DEFAULT_STATUS = 0"
| "status_code AP_CONNECTED_STATUS = 1"
| "status_code AP_DISCONNECTED_STATUS = 2"

definition AP_SECRET_LEN :: nat where
  "AP_SECRET_LEN = 64"

definition MAX_DEVICE_LABEL_SIZE :: nat where
  "MAX_DEVICE_LABEL_SIZE = 255"

definition MAX_RANDOM_UUID_LEN :: nat where
  "MAX_RANDOM_UUID_LEN = 37"

record mac_conn_info =
  mi_status :: int
  mi_vlanid :: int
  mi_nat :: bool
  mi_allow_connection :: bool
  mi_pass :: bytes
  mi_pass_len :: int
  mi_ip_addr :: string
  mi_ip_sec_addr :: string
  mi_ifname :: string
  mi_label :: string
  mi_id :: string
  mi_join_timestamp :: u64

record mac_conn =
  mc_mac_addr :: mac
  mc_info :: mac_conn_info

type_synonym hmap_mac_conn = "(mac \<times> mac_conn_info) list"

section \<open>Operations\<close>

text \<open>
  \<open>get_mac_mapper\<close> writes the record of the device over \<open>info\<close>, or leaves it as it was.
\<close>

definition get_mac_mapper :: "hmap_mac_conn \<Rightarrow> mac \<Rightarrow> mac_conn_info \<Rightarrow> int \<times> mac_conn_info" where
  "get_mac_mapper hmap mac_addr info =
     (case map_of hmap mac_addr of Some s \<Rightarrow> (1, s) | None \<Rightarrow> (0, info))"

definition put_mac_mapper ::
  "env \<Rightarrow> hmap_mac_conn \<Rightarrow> mac_conn \<Rightarrow> hist \<Rightarrow> bool \<times> hmap_mac_conn \<times> hist" where
  "put_mac_mapper env hmap conn h =
     (case map_of hmap (mc_mac_addr conn) of
        None \<Rightarrow>
          (let (ok, h') = os_malloc env h in
           if \<not> ok then (False, hmap, h')
           else (True, hmap @ [(mc_mac_addr conn, mc_info conn)], h'))
      | Some _ \<Rightarrow> (True, AList.update (mc_mac_addr conn) (mc_info conn) hmap, h))"

text \<open>\<open>get_mac_list\<close> does not look at the result of its allocation.\<close>

definition get_mac_list :: "env \<Rightarrow> hmap_mac_conn \<Rightarrow> hist \<Rightarrow> int \<times> mac_conn list option \<times> hist" where
  "get_mac_list env hmap h =
     (if hmap = [] then (0, None, h)
      else let (ok, h') = os_malloc env h in
        (int (length hmap),
         Some (map (\<lambda>(k, v). \<lparr>mc_mac_addr = k, mc_info = v\<rparr>) hmap),
         if ok then h' else E_ub Null_Deref # h'))"

definition init_default_mac_info :: "int \<Rightarrow> bool \<Rightarrow> mac_conn_info" where
  "init_default_mac_info default_open_vlanid allow_all_nat =
     \<lparr>mi_status = 0, mi_vlanid = default_open_vlanid, mi_nat = allow_all_nat,
      mi_allow_connection = True, mi_pass = replicate AP_SECRET_LEN 0, mi_pass_len = 0,
      mi_ip_addr = [], mi_ip_sec_addr = [], mi_ifname = [], mi_label = [], mi_id = [],
      mi_join_timestamp = 0\<rparr>"

definition get_ip_mapper :: "hmap_mac_conn \<Rightarrow> string \<Rightarrow> int \<times> mac option" where
  "get_ip_mapper hmap ip =
     (case find (\<lambda>(_, v). (validate_ipv4_string (mi_ip_addr v) \<and> ip = mi_ip_addr v) \<or>
                          (validate_ipv4_string (mi_ip_sec_addr v) \<and> ip = mi_ip_sec_addr v)) hmap of
        Some (k, _) \<Rightarrow> (1, Some k) | None \<Rightarrow> (0, None))"

section \<open>Hash functions (utils/hash.c)\<close>

definition md_mix :: "u32 \<Rightarrow> u32 \<Rightarrow> u32" where
  "md_mix block state = (state * block) XOR (push_bit 3 state + drop_bit 2 block)"

text \<open>
  \<open>memcpy\<close> into the low bytes of a little endian word; the other bytes stay.
\<close>

fun put_bytes :: "nat \<Rightarrow> bytes \<Rightarrow> u32 \<Rightarrow> u32" where
  "put_bytes i [] w = w"
| "put_bytes i (b # bs) w =
     put_bytes (Suc i) bs ((w AND NOT (push_bit (8 * i) 255)) OR push_bit (8 * i) (ucast b))"

fun md_hash_loop :: "bytes \<Rightarrow> u32 \<Rightarrow> u32 \<Rightarrow> u32" where
  "md_hash_loop (a # b # c # d # msg) block state =
     (let block' = put_bytes 0 [a, b, c, d] block in md_hash_loop msg block' (md_mix block' state))"
| "md_hash_loop [] block state = state"
| "md_hash_loop msg block state = md_mix (put_bytes 0 msg block) state"

definition md_hash :: "bytes \<Rightarrow> u32" where
  "md_hash msg = md_hash_loop msg 0 0xA5A5A5A5"

definition sdbm_hash :: "bytes \<Rightarrow> u32" where
  "sdbm_hash msg = foldl (\<lambda>hash b. ucast b + push_bit 6 hash + push_bit 16 hash - hash) 0 msg"

section \<open>The table as a keyed store\<close>

lemma put_mac_mapper_update:
  "put_mac_mapper env hmap conn h = (True, hmap', h') \<Longrightarrow>
   hmap' = AList.update (mc_mac_addr conn) (mc_info conn) hmap"
  by (auto simp: put_mac_mapper_def Let_def update_absent split: option.splits if_splits prod.splits)

lemma put_mac_mapper_fail:
  "put_mac_mapper env hmap conn h = (False, hmap', h') \<Longrightarrow> hmap' = hmap"
  by (auto simp: put_mac_mapper_def Let_def split: option.splits if_splits prod.splits)

lemma put_mac_mapper_cases:
  "put_mac_mapper env hmap conn h = (ok, hmap', h') \<Longrightarrow>
   hmap' = (if ok then AList.update (mc_mac_addr conn) (mc_info conn) hmap else hmap)"
  by (cases ok) (auto dest: put_mac_mapper_update put_mac_mapper_fail)

lemma put_mac_mapper_total: "alloc_total env \<Longrightarrow> fst (put_mac_mapper env hmap conn h)"
  by (auto simp: put_mac_mapper_def os_malloc_total split: option.splits)

lemma put_mac_mapper_extends: "put_mac_mapper env hmap conn h = (ok, hmap', h') \<Longrightarrow> extends h' h"
  by (auto simp: put_mac_mapper_def os_malloc_def Let_def split: option.splits if_splits)

definition mac_store ::
  "env \<Rightarrow> mac \<Rightarrow> mac_conn_info \<Rightarrow> hmap_mac_conn \<times> hist \<Rightarrow> hmap_mac_conn \<times> hist" where
  "mac_store env m info s =
     snd (put_mac_mapper env (fst s) \<lparr>mc_mac_addr = m, mc_info = info\<rparr> (snd s))"

lemma mac_store_table: "alloc_total env \<Longrightarrow> fst (mac_store env m info s) = AList.update m info (fst s)"
  using put_mac_mapper_total [of env "fst s" "\<lparr>mc_mac_addr = m, mc_info = info\<rparr>" "snd s"]
    put_mac_mapper_update [of env "fst s" "\<lparr>mc_mac_addr = m, mc_info = info\<rparr>" "snd s"]
  by (cases "put_mac_mapper env (fst s) \<lparr>mc_mac_addr = m, mc_info = info\<rparr> (snd s)")
     (simp add: mac_store_def)

interpretation mac_table: keyed_store
  "\<lambda>s k. map_of (fst s) k" "mac_store env" "\<lambda>s. map fst (fst s)"
  "\<lambda>s. distinct (map fst (fst s)) \<and> alloc_total env" "\<lambda>k v. True" for env
  by unfold_locales
    (auto simp: mac_store_table map_of_update map_of_keys distinct_update simp del: set_map)

lemma get_ip_mapper_found:
  assumes "get_ip_mapper hmap ip = (1, Some m)" and "distinct (map fst hmap)"
  shows "\<exists>info. map_of hmap m = Some info \<and> ip \<in> {mi_ip_addr info, mi_ip_sec_addr info} \<and>
                validate_ipv4_string ip"
proof -
  obtain v where "find (\<lambda>(_, v). (validate_ipv4_string (mi_ip_addr v) \<and> ip = mi_ip_addr v) \<or>
      (validate_ipv4_string (mi_ip_sec_addr v) \<and> ip = mi_ip_sec_addr v)) hmap = Some (m, v)"
    using assms(1) by (auto simp: get_ip_mapper_def split: option.splits)
  then have "(m, v) \<in> set hmap" "ip = mi_ip_addr v \<and> validate_ipv4_string ip \<or>
      ip = mi_ip_sec_addr v \<and> validate_ipv4_string ip"
    by (auto dest!: find_SomeD)
  then show ?thesis
    using assms(2) by (auto simp: map_of_eq_Some_iff)
qed

end
