(* ===== verification/Sqlite_Macconn.thy ===== *)
theory Sqlite_Macconn
  imports Sockctl Mac_Mapper
begin

text \<open>
  supervisor/sqlite_macconn_writer.c: the devices in an SQLite table.  A prepared statement, a
  bound parameter and a step are effects; \<open>env_sql\<close> says whether SQLite returned success.
  Opening and closing the database is not modelled.
\<close>

definition MACCONN_DELETE_FROM :: string where
  "MACCONN_DELETE_FROM = ''DELETE FROM instance WHERE mac=@mac;''"

definition MACCONN_INSERT_INTO :: string where
  "MACCONN_INSERT_INTO =
     ''INSERT INTO instance VALUES(@id, @mac, @status, @vlanid, @primaryip, @secondaryip, '' @
     ''@nat, @allow, @label, @timestamp, @pass);''"

definition MACCONN_SELECT_FROM :: string where
  "MACCONN_SELECT_FROM = ''SELECT mac, id, status, vlanid, nat, allow, label, pass FROM  instance;''"

abbreviation of_bool_int :: "bool \<Rightarrow> int" where
  "of_bool_int b \<equiv> (if b then 1 else 0)"

section \<open>Saving\<close>

fun sql_bind_all :: "env \<Rightarrow> (string \<times> sql_value) list \<Rightarrow> hist \<Rightarrow> bool \<times> hist" where
  "sql_bind_all env [] h = (True, h)"
| "sql_bind_all env ((name, v) # bs) h =
     (let h = E_sql_bind name v # h in
      if env_sql env h then sql_bind_all env bs h else (False, h))"

text \<open>The text bound for \<open>@pass\<close> is a C string; with no NUL in the array it reads on behind it.\<close>

definition pass_text :: "bytes \<Rightarrow> string" where
  "pass_text p = c_str (string_of_bytes p)"

definition conn_bindings :: "mac_conn \<Rightarrow> (string \<times> sql_value) list" where
  "conn_bindings conn =
     (let info = mc_info conn in
      [(''@id'', SqlText (mi_id info)),
       (''@mac'', SqlText (mac2str (mc_mac_addr conn))),
       (''@status'', SqlInt (mi_status info)),
       (''@vlanid'', SqlInt (mi_vlanid info)),
       (''@primaryip'', SqlText (mi_ip_addr info)),
       (''@secondaryip'', SqlText (mi_ip_sec_addr info)),
       (''@nat'', SqlInt (of_bool_int (mi_nat info))),
       (''@allow'', SqlInt (of_bool_int (mi_allow_connection info))),
       (''@label'', SqlText (mi_label info)),
       (''@timestamp'', SqlInt (sint (mi_join_timestamp info))),
       (''@pass'', SqlText (pass_text (mi_pass info)))])"

definition save_sqlite_macconn_entry :: "env \<Rightarrow> mac_conn \<Rightarrow> hist \<Rightarrow> int \<times> hist" where
  "save_sqlite_macconn_entry env conn h =
     (let h = E_sql_prepare MACCONN_DELETE_FROM # h in
      if \<not> env_sql env h then (- 1, h)
      else let (ok, h) = sql_bind_all env [(''@mac'', SqlText (mac2str (mc_mac_addr conn)))] h in
      if \<not> ok then (- 1, h)
      else let h = E_sql_prepare MACCONN_INSERT_INTO # E_sql_step # h in
      if \<not> env_sql env h then (- 1, h)
      else let (ok, h) = sql_bind_all env (conn_bindings conn) h;
               h = (if ok \<and> 0 \<notin> set (mi_pass (mc_info conn)) then E_ub Over_Read # h else h)
      in if \<not> ok then (- 1, h) else (0, E_sql_step # h))"

section \<open>Loading\<close>

text \<open>A row of the select, by column; a text is None where the column is NULL.\<close>

record macconn_row =
  row_mac :: string
  row_id :: "string option"
  row_status :: int
  row_vlanid :: int
  row_nat :: int
  row_allow :: int
  row_label :: "string option"
  row_pass :: "string option"

definition read_macconn_row :: "macconn_row \<Rightarrow> mac_conn option" where
  "read_macconn_row row =
     (case hwaddr_aton2 (row_mac row) of
        None \<Rightarrow> None
      | Some m \<Rightarrow>
          let zero = \<lparr>mi_status = 0, mi_vlanid = 0, mi_nat = False, mi_allow_connection = False,
                mi_pass = replicate AP_SECRET_LEN 0, mi_pass_len = 0, mi_ip_addr = [],
                mi_ip_sec_addr = [], mi_ifname = [], mi_label = [], mi_id = [],
                mi_join_timestamp = 0\<rparr>;
              info = (case row_id row of None \<Rightarrow> zero | Some v \<Rightarrow> zero\<lparr>mi_id := strlcpy v MAX_RANDOM_UUID_LEN\<rparr>);
              info = info\<lparr>mi_status := row_status row, mi_vlanid := row_vlanid row,
                          mi_nat := (row_nat row \<noteq> 0), mi_allow_connection := (row_allow row \<noteq> 0)\<rparr>;
              info = (case row_label row of None \<Rightarrow> info | Some v \<Rightarrow> info\<lparr>mi_label := strlcpy v MAX_DEVICE_LABEL_SIZE\<rparr>);
              info = (case row_pass row of None \<Rightarrow> info
                      | Some v \<Rightarrow>
                          let p = bytes_of_string (strlcpy v AP_SECRET_LEN)
                          in info\<lparr>mi_pass := p @ replicate (AP_SECRET_LEN - length p) 0,
                                  mi_pass_len := int (os_strnlen_s v AP_SECRET_LEN)\<rparr>)
          in Some \<lparr>mc_mac_addr = m, mc_info = info\<rparr>)"

fun read_macconn_rows :: "macconn_row list \<Rightarrow> mac_conn list \<Rightarrow> int \<times> mac_conn list" where
  "read_macconn_rows [] entries = (0, entries)"
| "read_macconn_rows (row # rows) entries =
     (case read_macconn_row row of
        None \<Rightarrow> (- 1, entries)
      | Some el \<Rightarrow> read_macconn_rows rows (entries @ [el]))"

text \<open>\<open>rows\<close> is what stepping through the select yields.\<close>

definition get_sqlite_macconn_entries ::
  "env \<Rightarrow> macconn_row list \<Rightarrow> hist \<Rightarrow> int \<times> mac_conn list \<times> hist" where
  "get_sqlite_macconn_entries env rows h =
     (let h = E_sql_prepare MACCONN_SELECT_FROM # h in
      if \<not> env_sql env h then (- 1, [], h)
      else let (r, entries) = read_macconn_rows rows [] in (r, entries, h))"

section \<open>A saved device can be loaded again\<close>

text \<open>The row that SQLite keeps for a device, by the names of its columns.\<close>

definition row_of_bindings :: "(string \<times> sql_value) list \<Rightarrow> macconn_row" where
  "row_of_bindings bs =
     (let txt = (\<lambda>n. case map_of bs n of Some (SqlText s) \<Rightarrow> Some s | _ \<Rightarrow> None);
          num = (\<lambda>n. case map_of bs n of Some (SqlInt i) \<Rightarrow> i | _ \<Rightarrow> 0)
      in \<lparr>row_mac = the (txt ''@mac''), row_id = txt ''@id'', row_status = num ''@status'',
          row_vlanid = num ''@vlanid'', row_nat = num ''@nat'', row_allow = num ''@allow'',
          row_label = txt ''@label'', row_pass = txt ''@pass''\<rparr>)"

text \<open>A record of the table: its texts fit, the passphrase has no NUL and is followed by zeros.\<close>

definition conn_ok :: "mac_conn \<Rightarrow> bool" where
  "conn_ok conn \<longleftrightarrow>
     length (mc_mac_addr conn) = 6 \<and>
     (let info = mc_info conn in
      length (mi_id info) < MAX_RANDOM_UUID_LEN \<and> length (mi_label info) < MAX_DEVICE_LABEL_SIZE \<and>
      0 \<le> mi_pass_len info \<and> mi_pass_len info < int AP_SECRET_LEN \<and>
      length (mi_pass info) = AP_SECRET_LEN \<and>
      0 \<notin> set (take (nat (mi_pass_len info)) (mi_pass info)) \<and>
      drop (nat (mi_pass_len info)) (mi_pass info) =
        replicate (AP_SECRET_LEN - nat (mi_pass_len info)) 0)"

lemma hwaddr_aton2_mac2str: "length m = 6 \<Longrightarrow> hwaddr_aton2 (mac2str m) = Some m"
  using hwaddr_loop_mac2str [of m "[]"] by (simp add: edge_hwaddr_aton2_def)

lemma pass_text_bytes:
  assumes "0 \<notin> set (take n p)" and "drop n p = replicate (length p - n) 0" and "n < length p"
  shows "pass_text p = string_of_bytes (take n p)"
proof -
  have "p = take n p @ 0 # replicate (length p - Suc n) 0"
    using assms(2,3) append_take_drop_id [of n p] by (metis Suc_diff_Suc replicate_Suc)
  moreover have "takeWhile (\<lambda>b. b \<noteq> 0) (xs @ 0 # ys) = xs" if "0 \<notin> set xs" for xs ys :: bytes
    using that by (induction xs) auto
  ultimately have "takeWhile (\<lambda>b. b \<noteq> 0) p = take n p"
    using assms(1) by metis
  then show ?thesis
    by (simp add: pass_text_def c_str_bytes)
qed

lemma row_of_conn:
  "row_of_bindings (conn_bindings conn) =
     \<lparr>row_mac = mac2str (mc_mac_addr conn), row_id = Some (mi_id (mc_info conn)),
      row_status = mi_status (mc_info conn), row_vlanid = mi_vlanid (mc_info conn),
      row_nat = of_bool_int (mi_nat (mc_info conn)),
      row_allow = of_bool_int (mi_allow_connection (mc_info conn)),
      row_label = Some (mi_label (mc_info conn)), row_pass = Some (pass_text (mi_pass (mc_info conn)))\<rparr>"
  by (simp add: row_of_bindings_def conn_bindings_def Let_def)


definition demo_conn :: mac_conn where
  "demo_conn = \<lparr>mc_mac_addr = [1, 2, 3, 4, 5, 6],
     mc_info = (init_default_mac_info 0 True)\<lparr>mi_id := ''u1'', mi_label := ''lamp'',
       mi_pass := [112, 97, 115, 115] @ replicate 60 0, mi_pass_len := 4\<rparr>\<rparr>"

lemma demo_conn_ok: "conn_ok demo_conn"
  by (simp add: conn_ok_def demo_conn_def init_default_mac_info_def AP_SECRET_LEN_def
      MAX_RANDOM_UUID_LEN_def MAX_DEVICE_LABEL_SIZE_def Let_def)


end
