(* ===== verification/Dhcp.thy ===== *)
theory Dhcp
  imports Iface_Mapper
begin

text \<open>
  dhcp/dnsmasq.c and dhcp/dhcp_service.c: the configuration and the script written for dnsmasq,
  and the removal of a lease.  Starting, signalling and killing the dnsmasq process is not
  modelled.  A file is written as one effect with its whole text; the outcome says whether it
  could be opened.
\<close>

record config_dhcpinfo_t =
  di_vlanid :: int
  di_ip_addr_low :: string
  di_ip_addr_upp :: string
  di_subnet_mask :: string
  di_lease_time :: string

record dhcp_conf =
  dhcp_bin_path :: string
  dhcp_conf_path :: string
  dhcp_script_path :: string
  dhcp_leasefile_path :: string
  bridge_prefix :: string
  interface_prefix :: string
  wifi_interface :: string
  config_dhcpinfo_array :: "config_dhcpinfo_t list"

abbreviation nl :: string where
  "nl \<equiv> [CHR 0x0A]"

definition MAX_VLANID_CHARS :: nat where
  "MAX_VLANID_CHARS = 4"

section \<open>The configuration\<close>

text \<open>
  The name, or None where \<open>snprintf\<close> had to cut it.  The caller's \<open>int\<close> is converted to
  \<open>uint16_t\<close>.
\<close>

definition define_dhcp_interface_name :: "dhcp_conf \<Rightarrow> u16 \<Rightarrow> string option" where
  "define_dhcp_interface_name dconf vlan =
     (let name =
        (if wifi_interface dconf \<noteq> [] then
           if vlan \<noteq> 0
           then take (IF_NAMESIZE - 2 - MAX_VLANID_CHARS) (wifi_interface dconf) @ ''.'' @ show_nat (unat vlan)
           else wifi_interface dconf
         else take (IF_NAMESIZE - 1 - MAX_VLANID_CHARS) (interface_prefix dconf) @ show_nat (unat vlan))
      in if IF_NAMESIZE \<le> length name then None else Some name)"

text \<open>The lines of the ranges, and whether all of them could be written.\<close>

fun dhcp_ranges :: "dhcp_conf \<Rightarrow> config_dhcpinfo_t list \<Rightarrow> string \<times> bool" where
  "dhcp_ranges dconf [] = ([], True)"
| "dhcp_ranges dconf (el # els) =
     (case define_dhcp_interface_name dconf (word_of_int (di_vlanid el)) of
        None \<Rightarrow> ([], False)
      | Some ifname \<Rightarrow>
          let (rest, ok) = dhcp_ranges dconf els in
          (''dhcp-range='' @ ifname @ '','' @ di_ip_addr_low el @ '','' @ di_ip_addr_upp el @ '','' @
           di_subnet_mask el @ '','' @ di_lease_time el @ nl @ rest, ok))"

definition generate_dnsmasq_conf :: "env \<Rightarrow> dhcp_conf \<Rightarrow> string list \<Rightarrow> hist \<Rightarrow> int \<times> hist" where
  "generate_dnsmasq_conf env dconf dns_server_array h =
     (let (ranges, ok) = dhcp_ranges dconf (config_dhcpinfo_array dconf);
          body = ''no-resolv'' @ nl @
                 concat (map (\<lambda>p. ''server='' @ p @ nl) dns_server_array) @
                 ''dhcp-leasefile='' @ dhcp_leasefile_path dconf @ nl @
                 ''dhcp-script='' @ dhcp_script_path dconf @ nl @ ranges;
          h = E_write_file (dhcp_conf_path dconf) body # h
      in if \<not> env_write_file env h then (- 1, h) else (if ok then 0 else - 1, h))"

definition dnsmasq_script :: "string \<Rightarrow> string" where
  \<open>dnsmasq_script path = concat (map (\<lambda>l. l @ nl)
     [''#!/bin/sh'',
      ''sockpath="'' @ path @ ''"'',
      ''str="SET_IP $1 $2 $3"'',
      '''',
      ''nccheck=`nc -help 2>&1 >/dev/null | grep 'OpenBSD netcat'`'',
      ''if [ -z "$nccheck" ]'',
      ''then'',
      [CHR 0x09] @ ''echo "Using socat"'',
      [CHR 0x09] @ ''command="socat - UNIX-CLIENT:$sockpath"'',
      ''else'',
      [CHR 0x09] @ ''echo "Using netcat"'',
      [CHR 0x09] @ ''command="nc -uU $sockpath -w2 -W1"'',
      ''fi'',
      '''',
      ''echo "Sending $str ..."'',
      ''echo $str | $command''])\<close>

text \<open>Making the file executable is part of the effect of writing it.\<close>

definition generate_dnsmasq_script :: "env \<Rightarrow> string \<Rightarrow> string \<Rightarrow> hist \<Rightarrow> int \<times> hist" where
  "generate_dnsmasq_script env script_path supervisor_control_path h =
     (let h = E_write_file script_path (dnsmasq_script supervisor_control_path) # h
      in (if env_write_file env h then 0 else - 1, h))"

definition get_dnsmasq_args :: "string \<Rightarrow> string \<Rightarrow> string list" where
  "get_dnsmasq_args dnsmasq_bin_path dnsmasq_conf_path =
     [dnsmasq_bin_path, ''--bind-dynamic'', ''--no-daemon'', ''-C'', dnsmasq_conf_path]"

section \<open>Leases\<close>

text \<open>
  The text without the line in which the address is found: \<open>start\<close> goes back to the newline
  before it, \<open>finish\<close> goes on behind the newline after it.
\<close>

definition cut_lease :: "string \<Rightarrow> string \<Rightarrow> string" where
  "cut_lease before from =
     rev (dropWhile (\<lambda>c. c \<noteq> CHR 0x0A) (rev before)) @
     (case dropWhile (\<lambda>c. c \<noteq> CHR 0x0A) (tl from) of [] \<Rightarrow> [] | _ # rest \<Rightarrow> rest)"

definition clear_dhcp_lease_entry :: "env \<Rightarrow> string \<Rightarrow> string \<Rightarrow> hist \<Rightarrow> int \<times> hist" where
  "clear_dhcp_lease_entry env mac_addr leasefile_path h =
     (case read_file_string env leasefile_path h of
        (None, h) \<Rightarrow> (- 1, h)
      | (Some out, h) \<Rightarrow>
          (case strstr out mac_addr of
             None \<Rightarrow> (0, h)
           | Some (before, from) \<Rightarrow>
               if mac_addr = [] then (0, h)
               else let h = E_write_file leasefile_path (cut_lease before from) # h
                    in (if env_write_file env h then 0 else - 1, h)))"

definition clear_dhcp_lease :: "env \<Rightarrow> string \<Rightarrow> dhcp_conf \<Rightarrow> hist \<Rightarrow> int \<times> hist" where
  "clear_dhcp_lease env mac_addr dconf h = clear_dhcp_lease_entry env mac_addr (dhcp_leasefile_path dconf) h"

section \<open>What clearing a lease removes\<close>

definition unlines :: "string list \<Rightarrow> string" where
  "unlines ls = concat (map (\<lambda>l. l @ nl) ls)"

definition contains :: "string \<Rightarrow> string \<Rightarrow> bool" where
  "contains l s \<longleftrightarrow> (\<exists>p q. l = p @ s @ q)"

lemma strstr_shift:
  assumes "\<not> contains (l @ [c]) pat" and "c \<notin> set pat" and "pat \<noteq> []"
  shows "strstr (l @ c # s) pat = map_option (\<lambda>(p, q). (l @ c # p, q)) (strstr s pat)"
  using assms
proof (induction l)
  case Nil
  then have "\<not> prefix pat (c # s)"
    by (cases pat) (auto simp: prefix_def)
  then show ?case
    by (auto simp: option.map_comp comp_def split_def)
next
  case (Cons d l)
  have "\<not> prefix pat ((d # l) @ c # s)"
  proof
    assume "prefix pat ((d # l) @ c # s)"
    then consider "prefix pat (d # l)" | r where "pat = (d # l) @ r" "prefix r (c # s)" "r \<noteq> []"
      by (metis append_Nil2 prefix_append prefix_order.refl)
    then show False
    proof cases
      case 1
      then show ?thesis
        using Cons.prems(1) by (auto simp: contains_def prefix_def) (metis append.left_neutral append_Cons append_assoc)
    next
      case (2 r)
      then have "c \<in> set pat"
        by (cases r) auto
      with Cons.prems(2) show ?thesis by simp
    qed
  qed
  moreover have "\<not> contains (l @ [c]) pat"
    using Cons.prems(1) by (auto simp: contains_def) (metis append_Cons)
  ultimately show ?case
    using Cons by (auto simp: option.map_comp comp_def split_def)
qed

lemma strstr_skip_lines:
  assumes "pat \<noteq> []" and "CHR 0x0A \<notin> set pat"
  shows "\<forall>x \<in> set xs. \<not> contains x pat \<and> CHR 0x0A \<notin> set x \<Longrightarrow>
         strstr (unlines xs @ s) pat = map_option (\<lambda>(p, q). (unlines xs @ p, q)) (strstr s pat)"
proof (induction xs)
  case Nil
  show ?case by (simp add: unlines_def option.map_ident_strong)
next
  case (Cons x xs)
  have "\<not> contains (x @ nl) pat"
  proof
    assume "contains (x @ nl) pat"
    then obtain p q where pq: "x @ nl = p @ pat @ q"
      by (auto simp: contains_def)
    then have "q \<noteq> []"
      using assms by (metis append_Nil2 last_appendR last_in_set last_snoc)
    then obtain q' where "x = p @ pat @ q'"
      using pq by (metis append_butlast_last_id butlast_append butlast_snoc append_assoc)
    then show False
      using Cons.prems by (auto simp: contains_def)
  qed
  from strstr_shift [OF this assms(2,1), of "unlines xs @ s"] Cons show ?case
    by (auto simp: unlines_def option.map_comp comp_def split_def)
qed

lemma strstr_in_line:
  assumes "contains l pat"
  shows "\<exists>p q. strstr (l @ t) pat = Some (p, q @ t) \<and> l = p @ q \<and> prefix pat q"
proof -
  obtain u v where "l = u @ pat @ v"
    using assms by (auto simp: contains_def)
  then show ?thesis
  proof (induction u arbitrary: l)
    case Nil
    have "strstr s pat = Some ([], s)" if "prefix pat s" for s
      using that by (cases s) auto
    from this [of "pat @ v @ t"] Nil show ?case
      by simp
  next
    case (Cons c u)
    then obtain l' where l: "l = c # l'" "l' = u @ pat @ v"
      by simp
    show ?case
    proof (cases "prefix pat (l @ t)")
      case True
      then have "strstr (l @ t) pat = Some ([], l @ t)"
        using l by simp
      moreover have "length pat \<le> length l"
        using Cons.prems by simp
      then have "prefix pat l"
        using True by (metis prefix_length_prefix prefix_def)
      ultimately show ?thesis
        by auto
    next
      case False
      with Cons.IH [OF l(2)] l(1) show ?thesis
        by (auto simp: Cons_eq_append_conv)
    qed
  qed
qed

lemma strstr_Some_contains: "contains l pat \<Longrightarrow> strstr l pat \<noteq> None"
  using strstr_in_line [of l pat "[]"] by auto

text \<open>
  C29: clearing a lease rewrites the lease file without the first line that mentions the
  address, and without touching any other line.
\<close>

theorem clear_dhcp_lease_removes_line:
  assumes total: "alloc_total env"
    and content: "env_read_file env (E_read_file path # h) = Some (unlines (xs @ l # ys))"
    and lines: "\<forall>x \<in> set (xs @ l # ys). CHR 0x0A \<notin> set x \<and> CHR 0x00 \<notin> set x"
    and mac: "mac \<noteq> []" "CHR 0x0A \<notin> set mac"
    and first: "\<forall>x \<in> set xs. \<not> contains x mac" "contains l mac"
  shows "\<exists>h'. clear_dhcp_lease_entry env mac path h =
           (if env_write_file env h' then 0 else - 1, h') \<and>
         hd h' = E_write_file path (unlines (xs @ ys))"
proof -
  have "CHR 0x00 \<notin> set (unlines ls)" if "\<forall>x \<in> set ls. CHR 0x00 \<notin> set x" for ls
    using that by (induction ls) (auto simp: unlines_def)
  then have "CHR 0x00 \<notin> set (unlines (xs @ l # ys))"
    using lines by blast
  then have nul: "takeWhile (\<lambda>c. c \<noteq> CHR 0x00) (unlines (xs @ l # ys)) = unlines (xs @ l # ys)"
    unfolding takeWhile_eq_all_conv by metis
  obtain p q where pq: "strstr (l @ CHR 0x0A # unlines ys) mac = Some (p, q @ CHR 0x0A # unlines ys)"
    "l = p @ q" "prefix mac q"
    using strstr_in_line [OF first(2)] by blast
  have split: "unlines (xs @ l # ys) = unlines xs @ l @ CHR 0x0A # unlines ys"
    by (simp add: unlines_def)
  have found: "strstr (unlines (xs @ l # ys)) mac =
      Some (unlines xs @ p, q @ CHR 0x0A # unlines ys)"
    unfolding split using strstr_skip_lines [OF mac, of xs] first(1) lines pq(1) by simp
  have clean: "CHR 0x0A \<notin> set p" "CHR 0x0A \<notin> set q" "q \<noteq> []"
    using lines pq mac by (auto simp: prefix_def)
  have front: "dropWhile (\<lambda>c. c \<noteq> CHR 0x0A) (rev (unlines xs @ p)) = rev (unlines xs)"
  proof -
    have "rev (unlines xs) = [] \<or> hd (rev (unlines xs)) = CHR 0x0A"
      by (cases xs rule: rev_cases) (auto simp: unlines_def)
    then show ?thesis
      using clean(1) by (cases "rev (unlines xs)") (auto simp: dropWhile_append3)
  qed
  have rear: "dropWhile (\<lambda>c. c \<noteq> CHR 0x0A) (tl (q @ CHR 0x0A # unlines ys)) = CHR 0x0A # unlines ys"
    using clean(2,3) by (cases q) (auto simp: dropWhile_append3)
  have "cut_lease (unlines xs @ p) (q @ CHR 0x0A # unlines ys) = unlines (xs @ ys)"
    unfolding cut_lease_def front rear by (simp add: unlines_def)
  then show ?thesis
    using found mac content
    by (simp add: clear_dhcp_lease_entry_def read_file_string_def read_file_def nul
        os_malloc_total [OF total] Let_def)
qed

theorem clear_dhcp_lease_removes_line_witness:
  "let a = ''1 11:22:33:44:55:66 10.0.1.2''; b = ''2 aa:22:33:44:55:66 10.0.1.3'';
       env = ideal_env\<lparr>env_read_file := \<lambda>_. Some (unlines [a, b])\<rparr>
   in \<exists>h'. clear_dhcp_lease_entry env ''aa:22:33:44:55:66'' ''/l'' [] = (0, h') \<and>
           hd h' = E_write_file ''/l'' (unlines [a])"
proof -
  let ?a = "''1 11:22:33:44:55:66 10.0.1.2''" and ?b = "''2 aa:22:33:44:55:66 10.0.1.3''"
  let ?env = "ideal_env\<lparr>env_read_file := \<lambda>_. Some (unlines [?a, ?b])\<rparr>"
  have "\<not> contains ?a ''aa:22:33:44:55:66''"
    using strstr_Some_contains [of ?a "''aa:22:33:44:55:66''"] by auto
  moreover have "contains ?b ''aa:22:33:44:55:66''"
    unfolding contains_def by (intro exI [of _ "''2 ''"] exI [of _ "'' 10.0.1.3''"]) simp
  ultimately show ?thesis
    using clear_dhcp_lease_removes_line [of ?env "''/l''" "[]" "[?a]" ?b "[]" "''aa:22:33:44:55:66''"]
    by (simp add: Let_def alloc_total_def ideal_env_def)
qed

end
