(* ===== verification/Ap_Service.thy ===== *)
theory Ap_Service
  imports Sockctl Mac_Mapper
begin

text \<open>
  ap/ap_service.c and the configuration files of ap/hostapd.c: the control commands sent to
  hostapd and the events it reports.  Every command goes through
  \<open>writeread_domain_data_str\<close>, which also overwrites the path of the control socket; the
  operations take the path and return what it holds afterwards.  Starting and stopping the
  hostapd process is not modelled.
\<close>

section \<open>Commands\<close>

definition ping_ap_command :: "env \<Rightarrow> string \<Rightarrow> hist \<Rightarrow> int \<times> string \<times> hist" where
  "ping_ap_command env path h =
     (let (r, reply, path, h) = writeread_domain_data_str env path ''PING'' h in
      if r < 0 then (- 1, path, h)
      else if reply \<noteq> ''PONG'' then (- 1, path, h)
      else (0, path, h))"

definition denyacl_ap_command ::
  "env \<Rightarrow> string \<Rightarrow> string \<Rightarrow> string \<Rightarrow> hist \<Rightarrow> int \<times> string \<times> hist" where
  "denyacl_ap_command env path cmd mac_addr h =
     (let (ok, h) = os_malloc env h in
      if \<not> ok then (- 1, path, h)
      else let (r, reply, path, h) = writeread_domain_data_str env path (cmd @ '' '' @ mac_addr) h in
      if r < 0 then (- 1, path, h)
      else if reply \<noteq> ''OK'' then (- 1, path, h)
      else (0, path, h))"

definition denyacl_add_ap_command :: "env \<Rightarrow> string \<Rightarrow> string \<Rightarrow> hist \<Rightarrow> int \<times> string \<times> hist" where
  "denyacl_add_ap_command env path mac_addr h = denyacl_ap_command env path ''DENY_ACL ADD_MAC'' mac_addr h"

definition denyacl_del_ap_command :: "env \<Rightarrow> string \<Rightarrow> string \<Rightarrow> hist \<Rightarrow> int \<times> string \<times> hist" where
  "denyacl_del_ap_command env path mac_addr h = denyacl_ap_command env path ''DENY_ACL DEL_MAC'' mac_addr h"

definition disconnect_ap_command :: "env \<Rightarrow> string \<Rightarrow> string \<Rightarrow> hist \<Rightarrow> int \<times> string \<times> hist" where
  "disconnect_ap_command env path mac_addr h =
     (let (r, path, h) = denyacl_add_ap_command env path mac_addr h in
      if r < 0 then (- 1, path, h)
      else let (r, path, h) = denyacl_del_ap_command env path mac_addr h in
      if r < 0 then (- 1, path, h) else (0, path, h))"

definition check_sta_ap_command :: "env \<Rightarrow> string \<Rightarrow> string \<Rightarrow> hist \<Rightarrow> int \<times> string \<times> hist" where
  "check_sta_ap_command env path mac_addr h =
     (let (ok, h) = os_malloc env h in
      if \<not> ok then (- 1, path, h)
      else let (r, reply, path, h) = writeread_domain_data_str env path (''STA'' @ '' '' @ mac_addr) h in
      if r < 0 then (- 1, path, h)
      else if reply = ''FAIL'' then (- 1, path, h)
      else if reply = [] then (- 1, path, h)
      else (0, path, h))"

lemma denyacl_ideal: "\<exists>path' h'. denyacl_ap_command ideal_env path cmd m h = (0, path', h')"
proof -
  obtain p1 h1 where
    "writeread_domain_data_str ideal_env path (cmd @ '' '' @ m) (E_malloc # h) = (0, ''OK'', p1, h1)"
    using writeread_ideal by blast
  then show ?thesis
    by (simp add: denyacl_ap_command_def os_malloc_total [OF ideal_alloc])
qed

lemma disconnect_ideal: "\<exists>path' h'. disconnect_ap_command ideal_env path m h = (0, path', h')"
proof -
  obtain p1 h1 where 1: "denyacl_add_ap_command ideal_env path m h = (0, p1, h1)"
    unfolding denyacl_add_ap_command_def using denyacl_ideal by blast
  obtain p2 h2 where "denyacl_del_ap_command ideal_env p1 m h1 = (0, p2, h2)"
    unfolding denyacl_del_ap_command_def using denyacl_ideal by blast
  with 1 show ?thesis
    by (simp add: disconnect_ap_command_def)
qed

section \<open>Events\<close>

definition find_ap_status ::
  "env \<Rightarrow> string \<Rightarrow> hist \<Rightarrow> (mac \<times> AP_CONNECTION_STATUS) option \<times> hist" where
  "find_ap_status env ap_answer h =
     (let (count, str_arr, h) = split_string_array env ap_answer CHR '' '' h in
      if count \<le> 1 then (None, h)
      else
        let st = (if strstr (str_arr ! 0) ''AP-STA-CONNECTED'' \<noteq> None then Some AP_CONNECTED_STATUS
                  else if strstr ap_answer ''AP-STA-DISCONNECTED'' \<noteq> None then Some AP_DISCONNECTED_STATUS
                  else None)
        in case st of
             None \<Rightarrow> (None, h)
           | Some s \<Rightarrow>
               (case hwaddr_aton2 (str_arr ! 1) of
                  None \<Rightarrow> (None, h)
                | Some m \<Rightarrow> (Some (m, s), h)))"

section \<open>Configuration files\<close>

record apconf =
  ap_file_path :: string
  ap_interface :: string
  ap_driver :: string
  ap_ssid :: string
  ap_hw_mode :: string
  ap_channel :: int
  ap_wmm_enabled :: int
  ap_auth_algs :: int
  ap_wpa :: int
  ap_wpa_key_mgmt :: string
  ap_rsn_pairwise :: string
  ap_ctrl_interface :: string
  ap_macaddr_acl :: int
  ap_dynamic_vlan :: int
  ap_vlan_bridge :: string
  ap_vlan_file :: string
  ap_logger_stdout :: int
  ap_logger_stdout_level :: int
  ap_logger_syslog :: int
  ap_logger_syslog_level :: int
  ap_ignore_broadcast_ssid :: int
  ap_wpa_psk_radius :: int
  ap_vlan_tagged_interface :: string

record radius_conf =
  radius_client_ip :: string
  radius_server_ip :: string
  radius_port :: int
  radius_secret :: string

definition generate_vlan_conf :: "env \<Rightarrow> string \<Rightarrow> string \<Rightarrow> hist \<Rightarrow> int \<times> hist" where
  "generate_vlan_conf env vlan_file interface h =
     (let h = E_write_file vlan_file (''*'' @ [CHR 0x09] @ interface @ ''.#'' @ [CHR 0x0A]) # h
      in (if env_write_file env h then 0 else - 1, h))"

definition hostapd_settings :: "apconf \<Rightarrow> radius_conf \<Rightarrow> (string \<times> string) list" where
  "hostapd_settings hconf rconf =
     [(''interface'', ap_interface hconf),
      (''driver'', ap_driver hconf),
      (''ssid'', ap_ssid hconf),
      (''hw_mode'', ap_hw_mode hconf),
      (''channel'', show_int (ap_channel hconf)),
      (''wmm_enabled'', show_int (ap_wmm_enabled hconf)),
      (''auth_algs'', show_int (ap_auth_algs hconf)),
      (''wpa'', show_int (ap_wpa hconf)),
      (''wpa_key_mgmt'', ap_wpa_key_mgmt hconf),
      (''rsn_pairwise'', ap_rsn_pairwise hconf),
      (''ctrl_interface'', ap_ctrl_interface hconf),
      (''own_ip_addr'', radius_client_ip rconf),
      (''auth_server_addr'', radius_server_ip rconf),
      (''auth_server_port'', show_int (radius_port rconf)),
      (''auth_server_shared_secret'', radius_secret rconf),
      (''macaddr_acl'', show_int (ap_macaddr_acl hconf)),
      (''dynamic_vlan'', show_int (ap_dynamic_vlan hconf)),
      (''vlan_bridge'', ap_vlan_bridge hconf),
      (''vlan_file'', ap_vlan_file hconf),
      (''logger_stdout'', show_int (ap_logger_stdout hconf)),
      (''logger_stdout_level'', show_int (ap_logger_stdout_level hconf)),
      (''logger_syslog'', show_int (ap_logger_syslog hconf)),
      (''logger_syslog_level'', show_int (ap_logger_syslog_level hconf)),
      (''ignore_broadcast_ssid'', show_int (ap_ignore_broadcast_ssid hconf)),
      (''wpa_psk_radius'', show_int (ap_wpa_psk_radius hconf))] @
     (if ap_vlan_tagged_interface hconf \<noteq> []
      then [(''vlan_naming'', ''1''), (''vlan_tagged_interface'', ap_vlan_tagged_interface hconf)]
      else [])"

definition generate_hostapd_conf :: "env \<Rightarrow> apconf \<Rightarrow> radius_conf \<Rightarrow> hist \<Rightarrow> int \<times> hist" where
  "generate_hostapd_conf env hconf rconf h =
     (let h = E_write_file (ap_file_path hconf)
                (concat (map (\<lambda>(k, v). k @ ''='' @ v @ [CHR 0x0A]) (hostapd_settings hconf rconf))) # h
      in (if env_write_file env h then 0 else - 1, h))"

definition get_hostapd_args :: "string \<Rightarrow> string \<Rightarrow> string \<Rightarrow> string list" where
  "get_hostapd_args hostapd_bin_path hostapd_file_path hostapd_log_path =
     (if hostapd_log_path \<noteq> []
      then [hostapd_bin_path, ''-f'', hostapd_log_path, hostapd_file_path]
      else [hostapd_bin_path, hostapd_file_path])"

end
