(* ===== verification/Supervisor_State.thy ===== *)
theory Supervisor_State
  imports Bridge_List Firewall Sqlite_Macconn Dhcp Ap_Service
begin

text \<open>
  The state of the supervisor (supervisor/supervisor_config.h), the helpers of
  supervisor/supervisor_utils.c, and the event subscribers of supervisor/subscriber_events.c.

  \<open>ticket\<close> is a pointer.  A pointer to freed memory is kept apart from NULL: the code tests only
  for NULL, and what it then reads through the pointer is taken to be the old contents.
\<close>

record auth_ticket =
  tk_passphrase :: bytes
  tk_passphrase_len :: int
  tk_device_label :: string
  tk_vlanid :: int

datatype ticket_ptr = Ticket_Null | Ticket_Live auth_ticket | Ticket_Dangling auth_ticket

record supervisor_context =
  fw_ctx :: fwctx
  mac_mapper :: hmap_mac_conn
  vlan_mapper :: hmap_vlan_conn
  allow_all_connections :: bool
  allow_all_nat :: bool
  exec_capture :: bool
  wpa_passphrase :: bytes
  wpa_passphrase_len :: int
  allocate_vlans :: bool
  default_open_vlanid :: int
  config_ifinfo_array :: "config_ifinfo_t list"
  subscribers_array :: "client_address list option"
  bridge_list :: bridge_mac_list
  domain_sock :: int
  udp_sock :: int
  ctrl_interface_path :: string \<comment> \<open>of \<open>hconfig\<close>\<close>
  dconfig :: dhcp_conf
  ticket :: ticket_ptr

section \<open>VLAN allocation\<close>

datatype VLAN_ALLOCATION_TYPE = VLAN_ALLOCATE_RANDOM | VLAN_ALLOCATE_HASH

text \<open>
  \<open>rnd\<close> is the value of \<open>rand()\<close>.  The upper bound of \<open>os_get_random_int_range\<close> is inclusive, so
  the random index may be \<open>len\<close>, one past the end of the array.
\<close>

definition allocate_vlan ::
  "env \<Rightarrow> supervisor_context \<Rightarrow> mac \<Rightarrow> VLAN_ALLOCATION_TYPE \<Rightarrow> nat \<Rightarrow> hist \<Rightarrow> int \<times> hist" where
  "allocate_vlan env context mac_addr type rnd h =
     (let len = length (config_ifinfo_array context) in
      if len \<le> 1 then (default_open_vlanid context, h)
      else let (ok, h) = os_malloc env h in
      if \<not> ok then (- 1, h)
      else let vlan_arr = map ifi_vlanid (config_ifinfo_array context) in
      case type of
        VLAN_ALLOCATE_RANDOM \<Rightarrow>
          let idx = nat (os_get_random_int_range rnd 0 (int len)) in
          if idx < len then (vlan_arr ! idx, h) else (0, E_ub Over_Read # h)
      | VLAN_ALLOCATE_HASH \<Rightarrow> (vlan_arr ! (unat (sdbm_hash mac_addr) mod len), h))"

section \<open>Saving a device\<close>

definition generate_radom_uuid :: "env \<Rightarrow> hist \<Rightarrow> string \<times> hist" where
  "generate_radom_uuid env h = (let h = E_uuid # h in (take 36 (env_uuid env h), h))"

definition save_mac_mapper ::
  "env \<Rightarrow> supervisor_context \<Rightarrow> mac_conn \<Rightarrow> hist \<Rightarrow> int \<times> supervisor_context \<times> hist" where
  "save_mac_mapper env context conn h =
     (let (conn, h) = (if mi_id (mc_info conn) = [] then
              let (uuid, h) = generate_radom_uuid env h
              in (conn\<lparr>mc_info := (mc_info conn)\<lparr>mi_id := uuid\<rparr>\<rparr>, h)
            else (conn, h));
          (ok, hmap, h) = put_mac_mapper env (mac_mapper context) conn h;
          context = context\<lparr>mac_mapper := hmap\<rparr>
      in if \<not> ok then (- 1, context, h)
         else let (r, h) = save_sqlite_macconn_entry env conn h
              in (if r < 0 then - 1 else 0, context, h))"

section \<open>Subscribers\<close>

definition MAX_SEND_EVENTS_BUF_SIZE :: nat where
  "MAX_SEND_EVENTS_BUF_SIZE = 4096"

text \<open>\<open>memcmp\<close>: the sign of the first difference.\<close>

fun memcmp :: "nat \<Rightarrow> bytes \<Rightarrow> bytes \<Rightarrow> int" where
  "memcmp (Suc n) (x # xs) (y # ys) =
     (if x < y then - 1 else if y < x then 1 else memcmp n xs ys)"
| "memcmp _ _ _ = 0"

text \<open>A network order word in memory order.\<close>

definition bytes_of_addr :: "u32 \<Rightarrow> bytes" where
  "bytes_of_addr a = [ucast a, ucast (drop_bit 8 a), ucast (drop_bit 16 a), ucast (drop_bit 24 a)]"

definition compare_client_addresses :: "client_address \<Rightarrow> client_address \<Rightarrow> int" where
  "compare_client_addresses a b =
     (if ca_type a \<noteq> ca_type b then - 1
      else case ca_type a of
        SOCKET_TYPE_DOMAIN \<Rightarrow> memcmp (nat (ca_len a)) (sun_path a) (sun_path b)
      | SOCKET_TYPE_UDP \<Rightarrow>
          if sin_port a \<noteq> sin_port b then (if sin_port a < sin_port b then - 1 else 1)
          else memcmp 4 (bytes_of_addr (sin_addr a)) (bytes_of_addr (sin_addr b))
      | SOCKET_TYPE_NONE \<Rightarrow> - 1)"

definition sort_subscribers_array :: "client_address \<Rightarrow> client_address \<Rightarrow> int" where
  "sort_subscribers_array a b =
     (if ca_len a \<noteq> ca_len b then (if ca_len a < ca_len b then - 1 else 1)
      else compare_client_addresses a b)"

text \<open>\<open>bsearch\<close> and \<open>qsort\<close> of the C library, which \<open>utarray_find\<close> and \<open>utarray_sort\<close> are.\<close>

function bsearch ::
  "('a \<Rightarrow> 'a \<Rightarrow> int) \<Rightarrow> 'a \<Rightarrow> 'a list \<Rightarrow> nat \<Rightarrow> nat \<Rightarrow> 'a option" where
  "bsearch cmp key xs l u =
     (if l < u then
        let idx = (l + u) div 2; c = cmp key (xs ! idx) in
        if c < 0 then bsearch cmp key xs l idx
        else if 0 < c then bsearch cmp key xs (idx + 1) u
        else Some (xs ! idx)
      else None)"
  by pat_completeness auto
termination
  by (relation "measure (\<lambda>(_, _, _, l, u). u - l)") auto

declare bsearch.simps [simp del]

fun insort_cmp :: "('a \<Rightarrow> 'a \<Rightarrow> int) \<Rightarrow> 'a \<Rightarrow> 'a list \<Rightarrow> 'a list" where
  "insort_cmp cmp x [] = [x]"
| "insort_cmp cmp x (y # ys) = (if cmp x y \<le> 0 then x # y # ys else y # insort_cmp cmp x ys)"

definition qsort_cmp :: "('a \<Rightarrow> 'a \<Rightarrow> int) \<Rightarrow> 'a list \<Rightarrow> 'a list" where
  "qsort_cmp cmp xs = foldr (insort_cmp cmp) xs []"

definition add_events_subscriber :: "client_address list \<Rightarrow> client_address \<Rightarrow> int \<times> client_address list" where
  "add_events_subscriber subs addr =
     (case bsearch sort_subscribers_array addr subs 0 (length subs) of
        Some _ \<Rightarrow> (0, subs)
      | None \<Rightarrow> (0, qsort_cmp sort_subscribers_array (subs @ [addr])))"

fun send_to_subscribers ::
  "env \<Rightarrow> supervisor_context \<Rightarrow> string \<Rightarrow> client_address list \<Rightarrow> hist \<Rightarrow> hist" where
  "send_to_subscribers env context buf [] h = h"
| "send_to_subscribers env context buf (p # ps) h =
     (let sock = (if ca_type p = SOCKET_TYPE_DOMAIN then domain_sock context else udp_sock context);
          (_, h) = write_socket_data env sock buf p h
      in send_to_subscribers env context buf ps h)"

text \<open>
  \<open>send_events\<close>: \<open>args\<close> is the formatted text, which \<open>vsnprintf\<close> cuts at 4095 characters.  The
  message needs two more characters and the NUL, the buffer has room for two.
\<close>

definition send_events ::
  "env \<Rightarrow> supervisor_context \<Rightarrow> string \<Rightarrow> string \<Rightarrow> hist \<Rightarrow> int \<times> hist" where
  "send_events env context name args h =
     (case subscribers_array context of
        None \<Rightarrow> (0, h)
      | Some subs \<Rightarrow>
          let args_buf = take (MAX_SEND_EVENTS_BUF_SIZE - 1) args;
              size = length name + length args_buf + 2;
              (ok, h) = os_malloc env h
          in if \<not> ok then (- 1, h)
             else let msg = name @ '' '' @ args_buf @ [CHR 0x0A];
                      h = (if size < length msg + 1 then E_ub Heap_Overrun # h else h)
                  in (0, send_to_subscribers env context msg subs h))"

datatype SUBSCRIBER_EVENT = SUBSCRIBER_EVENT_NONE | SUBSCRIBER_EVENT_IP | SUBSCRIBER_EVENT_AP

definition send_events_subscriber ::
  "env \<Rightarrow> supervisor_context \<Rightarrow> SUBSCRIBER_EVENT \<Rightarrow> string \<Rightarrow> hist \<Rightarrow> int \<times> hist" where
  "send_events_subscriber env context type args h =
     (case type of
        SUBSCRIBER_EVENT_IP \<Rightarrow> send_events env context ''IP'' args h
      | SUBSCRIBER_EVENT_AP \<Rightarrow> send_events env context ''AP'' args h
      | SUBSCRIBER_EVENT_NONE \<Rightarrow> (- 1, h))"

end
