(* ===== verification/Network_Commands.thy ===== *)
theory Network_Commands
  imports Supervisor_State
begin

text \<open>
  supervisor/network_commands.c: the commands that change devices, NAT, bridges and the
  authentication ticket.  Every command returns its code, the context and the history.
\<close>

type_synonym cmd_result = "int \<times> supervisor_context \<times> hist"

definition TICKET_PASSPHRASE_SIZE :: nat where
  "TICKET_PASSPHRASE_SIZE = 16"

definition TICKET_TIMEOUT :: nat where
  "TICKET_TIMEOUT = 60"

section \<open>The ticket\<close>

definition free_ticket :: "supervisor_context \<Rightarrow> hist \<Rightarrow> supervisor_context \<times> hist" where
  "free_ticket context h =
     (case ticket context of
        Ticket_Null \<Rightarrow> (context, h)
      | Ticket_Live _ \<Rightarrow> (context\<lparr>ticket := Ticket_Null\<rparr>, h)
      | Ticket_Dangling _ \<Rightarrow> (context\<lparr>ticket := Ticket_Null\<rparr>, E_ub Double_Free # h))"

definition eloop_ticket_timeout_handler :: "supervisor_context \<Rightarrow> hist \<Rightarrow> supervisor_context \<times> hist" where
  "eloop_ticket_timeout_handler context h = free_ticket context h"

text \<open>
  \<open>register_ticket_cmd\<close>: the passphrase of the new ticket.  When the random numbers or the timer
  fail, the ticket is freed and the pointer to it stays.  \<open>strcpy\<close> of the label overruns its
  array for a label of 255 characters or more.
\<close>

definition register_ticket_cmd ::
  "env \<Rightarrow> supervisor_context \<Rightarrow> mac \<Rightarrow> string \<Rightarrow> int \<Rightarrow> hist \<Rightarrow>
   bytes option \<times> supervisor_context \<times> hist" where
  "register_ticket_cmd env context mac_addr lbl vlan h =
     (if ticket context \<noteq> Ticket_Null then (None, context, h)
      else let (ok, h) = os_malloc env h in
      if \<not> ok then (None, context, h)
      else
        let h = (if MAX_DEVICE_LABEL_SIZE \<le> length lbl then E_ub Heap_Overrun # h else h);
            tk = \<lparr>tk_passphrase = replicate AP_SECRET_LEN 0,
                  tk_passphrase_len = int TICKET_PASSPHRASE_SIZE,
                  tk_device_label = lbl, tk_vlanid = vlan\<rparr>;
            (digits, h) = os_get_random_number_s env TICKET_PASSPHRASE_SIZE h
        in case digits of
             None \<Rightarrow> (None, context\<lparr>ticket := Ticket_Dangling tk\<rparr>, h)
           | Some ds \<Rightarrow>
               let tk = tk\<lparr>tk_passphrase := ds @ drop (length ds) (tk_passphrase tk)\<rparr>;
                   h = E_timeout TICKET_TIMEOUT # h
               in if \<not> env_timeout env h then (None, context\<lparr>ticket := Ticket_Dangling tk\<rparr>, h)
                  else (Some (tk_passphrase tk), context\<lparr>ticket := Ticket_Live tk\<rparr>, h))"

section \<open>Devices\<close>

text \<open>The record of a device, or the default for an unknown one.\<close>

definition device_info :: "supervisor_context \<Rightarrow> mac \<Rightarrow> mac_conn_info" where
  "device_info context mac_addr =
     snd (get_mac_mapper (mac_mapper context) mac_addr
            (init_default_mac_info (default_open_vlanid context) (allow_all_nat context)))"

definition save_device ::
  "env \<Rightarrow> supervisor_context \<Rightarrow> mac \<Rightarrow> mac_conn_info \<Rightarrow> hist \<Rightarrow> cmd_result" where
  "save_device env context mac_addr info h =
     save_mac_mapper env context \<lparr>mc_mac_addr = mac_addr, mc_info = info\<rparr> h"

definition disconnect_device :: "env \<Rightarrow> supervisor_context \<Rightarrow> string \<Rightarrow> hist \<Rightarrow> cmd_result" where
  "disconnect_device env context mac_str h =
     (let (r, path, h) = disconnect_ap_command env (ctrl_interface_path context) mac_str h
      in (r, context\<lparr>ctrl_interface_path := path\<rparr>, h))"

definition accept_mac_cmd ::
  "env \<Rightarrow> supervisor_context \<Rightarrow> mac \<Rightarrow> int \<Rightarrow> hist \<Rightarrow> cmd_result" where
  "accept_mac_cmd env context mac_addr vlan h =
     (let mac_str = mac2str mac_addr;
          info = (device_info context mac_addr)\<lparr>mi_allow_connection := True, mi_vlanid := vlan\<rparr>
      in case get_vlan_mapper (vlan_mapper context) vlan of
           (_, None) \<Rightarrow> (- 1, context, h)
         | (_, Some vconn) \<Rightarrow>
             let (r, context, h) = save_device env context mac_addr (info\<lparr>mi_ifname := vc_ifname vconn\<rparr>) h in
             if r < 0 then (- 1, context, h)
             else let (r, h) = clear_dhcp_lease env mac_str (dconfig context) h in
             if r < 0 then (- 1, context, h)
             else let (r, path, h) = check_sta_ap_command env (ctrl_interface_path context) mac_str h;
                      context = context\<lparr>ctrl_interface_path := path\<rparr> in
             if r = 0 then
               let (r, context, h) = disconnect_device env context mac_str h in
               (if r < 0 then - 1 else 0, context, h)
             else (0, context, h))"

definition deny_mac_cmd :: "env \<Rightarrow> supervisor_context \<Rightarrow> mac \<Rightarrow> hist \<Rightarrow> cmd_result" where
  "deny_mac_cmd env context mac_addr h =
     (let info = (device_info context mac_addr)\<lparr>mi_allow_connection := False\<rparr>;
          (r, context, h) = save_device env context mac_addr info h
      in if r < 0 then (- 1, context, h)
         else let (r, context, h) = disconnect_device env context (mac2str mac_addr) h
              in (if r < 0 then - 1 else 0, context, h))"

section \<open>NAT\<close>

definition add_nat_ip :: "env \<Rightarrow> supervisor_context \<Rightarrow> string \<Rightarrow> hist \<Rightarrow> cmd_result" where
  "add_nat_ip env context ip h =
     (let (ok, h) = check_ipv4 ip h in
      if ok then
        let (r, fw, h) = fw_add_nat env (fw_ctx context) ip h
        in (if r < 0 then - 1 else 0, context\<lparr>fw_ctx := fw\<rparr>, h)
      else (0, context, h))"

definition remove_nat_ip :: "env \<Rightarrow> supervisor_context \<Rightarrow> string \<Rightarrow> hist \<Rightarrow> cmd_result" where
  "remove_nat_ip env context ip h =
     (let (ok, h) = check_ipv4 ip h in
      if ok then
        let (r, fw, h) = fw_remove_nat env (fw_ctx context) ip h
        in (if r < 0 then - 1 else 0, context\<lparr>fw_ctx := fw\<rparr>, h)
      else (0, context, h))"

definition add_nat_cmd :: "env \<Rightarrow> supervisor_context \<Rightarrow> mac \<Rightarrow> hist \<Rightarrow> cmd_result" where
  "add_nat_cmd env context mac_addr h =
     (let info = (device_info context mac_addr)\<lparr>mi_nat := True\<rparr>;
          (r, context, h) = add_nat_ip env context (mi_ip_addr info) h
      in if r < 0 then (- 1, context, h)
         else let (r, context, h) = add_nat_ip env context (mi_ip_sec_addr info) h in
         if r < 0 then (- 1, context, h)
         else let (r, context, h) = save_device env context mac_addr info h
              in (if r < 0 then - 1 else 0, context, h))"

definition remove_nat_cmd :: "env \<Rightarrow> supervisor_context \<Rightarrow> mac \<Rightarrow> hist \<Rightarrow> cmd_result" where
  "remove_nat_cmd env context mac_addr h =
     (let info = (device_info context mac_addr)\<lparr>mi_nat := False\<rparr>;
          (r, context, h) = remove_nat_ip env context (mi_ip_addr info) h
      in if r < 0 then (- 1, context, h)
         else let (r, context, h) = remove_nat_ip env context (mi_ip_sec_addr info) h in
         if r < 0 then (- 1, context, h)
         else let (r, context, h) = save_device env context mac_addr info h
              in (if r < 0 then - 1 else 0, context, h))"

section \<open>Passphrases\<close>

text \<open>\<open>memcpy\<close> of the new passphrase over the front of the array; the rest stays.\<close>

definition put_pass :: "bytes \<Rightarrow> bytes \<Rightarrow> bytes" where
  "put_pass new old = new @ drop (length new) old"

definition assign_psk_cmd :: "env \<Rightarrow> supervisor_context \<Rightarrow> mac \<Rightarrow> string \<Rightarrow> hist \<Rightarrow> cmd_result" where
  "assign_psk_cmd env context mac_addr psk h =
     (let info = device_info context mac_addr;
          info = info\<lparr>mi_pass := put_pass (bytes_of_string psk) (mi_pass info),
                      mi_pass_len := int (length psk)\<rparr>;
          (r, context, h) = save_device env context mac_addr info h
      in (if r < 0 then - 1 else 0, context, h))"

definition clear_psk_cmd :: "env \<Rightarrow> supervisor_context \<Rightarrow> mac \<Rightarrow> hist \<Rightarrow> cmd_result" where
  "clear_psk_cmd env context mac_addr h =
     (let info = (device_info context mac_addr)\<lparr>mi_pass := replicate AP_SECRET_LEN 0, mi_pass_len := 0\<rparr>;
          (r, context, h) = save_device env context mac_addr info h
      in (if r < 0 then - 1 else 0, context, h))"

section \<open>Bridges\<close>

definition add_bridge_ip :: "env \<Rightarrow> supervisor_context \<Rightarrow> string \<Rightarrow> string \<Rightarrow> hist \<Rightarrow> cmd_result" where
  "add_bridge_ip env context ip_addr_left ip_addr_right h =
     (let (ok, h) = check_ipv4 ip_addr_left h in
      if \<not> ok then (0, context, h)
      else let (ok, h) = check_ipv4 ip_addr_right h in
      if \<not> ok then (0, context, h)
      else let (r, fw, h) = fw_add_bridge env (fw_ctx context) ip_addr_left ip_addr_right h
           in (if r < 0 then - 1 else 0, context\<lparr>fw_ctx := fw\<rparr>, h))"

definition delete_bridge_ip :: "env \<Rightarrow> supervisor_context \<Rightarrow> string \<Rightarrow> string \<Rightarrow> hist \<Rightarrow> cmd_result" where
  "delete_bridge_ip env context ip_addr_left ip_addr_right h =
     (let (ok, h) = check_ipv4 ip_addr_left h in
      if \<not> ok then (0, context, h)
      else let (ok, h) = check_ipv4 ip_addr_right h in
      if \<not> ok then (0, context, h)
      else let (r, fw, h) = fw_remove_bridge env (fw_ctx context) ip_addr_left ip_addr_right h
           in (if r < 0 then - 1 else 0, context\<lparr>fw_ctx := fw\<rparr>, h))"

text \<open>The firewall calls for a list of pairs of addresses, up to the first that fails.\<close>

fun bridge_pairs ::
  "(supervisor_context \<Rightarrow> string \<Rightarrow> string \<Rightarrow> hist \<Rightarrow> cmd_result) \<Rightarrow> supervisor_context \<Rightarrow>
   (string \<times> string) list \<Rightarrow> hist \<Rightarrow> cmd_result" where
  "bridge_pairs f context [] h = (0, context, h)"
| "bridge_pairs f context ((a, b) # ps) h =
     (let (r, context, h) = f context a b h in
      if r < 0 then (- 1, context, h) else bridge_pairs f context ps h)"

definition address_pairs :: "mac_conn_info \<Rightarrow> mac_conn_info \<Rightarrow> (string \<times> string) list" where
  "address_pairs left right =
     [(mi_ip_addr left, mi_ip_addr right), (mi_ip_addr left, mi_ip_sec_addr right),
      (mi_ip_sec_addr left, mi_ip_addr right), (mi_ip_sec_addr left, mi_ip_sec_addr right)]"

definition add_bridge_mac_cmd :: "env \<Rightarrow> supervisor_context \<Rightarrow> mac \<Rightarrow> mac \<Rightarrow> hist \<Rightarrow> cmd_result" where
  "add_bridge_mac_cmd env context left_mac_addr right_mac_addr h =
     (let (r, ml, h) = add_bridge_mac env (bridge_list context) left_mac_addr right_mac_addr h;
          context = context\<lparr>bridge_list := ml\<rparr>
      in if 0 \<le> r then
           (case (map_of (mac_mapper context) left_mac_addr, map_of (mac_mapper context) right_mac_addr) of
              (Some left_info, Some right_info) \<Rightarrow>
                bridge_pairs (add_bridge_ip env) context (address_pairs left_info right_info) h
            | _ \<Rightarrow> (0, context, h))
         else (- 1, context, h))"

definition add_bridge_ip_cmd :: "env \<Rightarrow> supervisor_context \<Rightarrow> string \<Rightarrow> string \<Rightarrow> hist \<Rightarrow> cmd_result" where
  "add_bridge_ip_cmd env context left_ip_addr right_ip_addr h =
     (case snd (get_ip_mapper (mac_mapper context) left_ip_addr) of
        None \<Rightarrow> (- 1, context, h)
      | Some left_mac_addr \<Rightarrow>
          (case snd (get_ip_mapper (mac_mapper context) right_ip_addr) of
             None \<Rightarrow> (- 1, context, h)
           | Some right_mac_addr \<Rightarrow>
               if 0 < check_bridge_exist (bridge_list context) left_mac_addr right_mac_addr
               then (0, context, h)
               else let (r, context, h) = add_bridge_mac_cmd env context left_mac_addr right_mac_addr h
                    in (if r < 0 then - 1 else 0, context, h)))"

definition remove_bridge_cmd :: "env \<Rightarrow> supervisor_context \<Rightarrow> mac \<Rightarrow> mac \<Rightarrow> hist \<Rightarrow> cmd_result" where
  "remove_bridge_cmd env context left_mac_addr right_mac_addr h =
     (let (r, ml, h) = remove_bridge_mac (bridge_list context) left_mac_addr right_mac_addr h;
          context = context\<lparr>bridge_list := ml\<rparr>
      in if 0 \<le> r then
           (case (map_of (mac_mapper context) left_mac_addr, map_of (mac_mapper context) right_mac_addr) of
              (Some left_info, Some right_info) \<Rightarrow>
                bridge_pairs (delete_bridge_ip env) context (address_pairs left_info right_info) h
            | _ \<Rightarrow> (0, context, h))
         else (- 1, context, h))"

fun clear_bridges_loop :: "env \<Rightarrow> supervisor_context \<Rightarrow> mac \<Rightarrow> mac_conn list \<Rightarrow> hist \<Rightarrow> supervisor_context \<times> hist" where
  "clear_bridges_loop env context mac_addr [] h = (context, h)"
| "clear_bridges_loop env context mac_addr (el # els) h =
     (let (_, context, h) = remove_bridge_cmd env context mac_addr (mc_mac_addr el) h
      in clear_bridges_loop env context mac_addr els h)"

definition clear_bridges_cmd :: "env \<Rightarrow> supervisor_context \<Rightarrow> mac \<Rightarrow> hist \<Rightarrow> cmd_result" where
  "clear_bridges_cmd env context mac_addr h =
     (let (_, mac_list, h) = get_mac_list env (mac_mapper context) h in
      case mac_list of
        None \<Rightarrow> (0, context, h)
      | Some l \<Rightarrow> let (context, h) = clear_bridges_loop env context mac_addr l h in (0, context, h))"

end
