(* ===== verification/System_Commands.thy ===== *)
theory System_Commands
  imports Network_Commands
begin

text \<open>
  supervisor/system_commands.c: the address of a device as the DHCP server reports it, the
  subscription to events and the ping.
\<close>

datatype DHCP_IP_TYPE = DHCP_IP_NONE | DHCP_IP_NEW | DHCP_IP_OLD | DHCP_IP_DEL | DHCP_IP_ARP

fun ip_type_code :: "DHCP_IP_TYPE \<Rightarrow> int" where
  "ip_type_code DHCP_IP_NONE = 0"
| "ip_type_code DHCP_IP_NEW = 1"
| "ip_type_code DHCP_IP_OLD = 2"
| "ip_type_code DHCP_IP_DEL = 3"
| "ip_type_code DHCP_IP_ARP = 4"

text \<open>
  The switch of \<open>set_ip_cmd\<close>: either the command ends with a code, or it goes on with a changed
  record and a flag that says whether the address became the primary one.
\<close>

definition assign_ip ::
  "mac_conn_info \<Rightarrow> string \<Rightarrow> DHCP_IP_TYPE \<Rightarrow> int + mac_conn_info \<times> bool" where
  "assign_ip info ip ip_type =
     (case ip_type of
        DHCP_IP_DEL \<Rightarrow>
          let info = (if mi_ip_addr info = ip then info\<lparr>mi_ip_addr := []\<rparr> else info);
              info = (if mi_ip_sec_addr info = ip then info\<lparr>mi_ip_sec_addr := []\<rparr> else info)
          in Inr (info, False)
      | DHCP_IP_ARP \<Rightarrow> Inl 0
      | DHCP_IP_NONE \<Rightarrow> Inl (- 1)
      | _ \<Rightarrow>
          if mi_ip_addr info = ip then Inl 0
          else if mi_ip_sec_addr info = ip then Inl 0
          else if mi_ip_addr info = [] then
            Inr (info\<lparr>mi_ip_addr := strlcpy ip OS_INET_ADDRSTRLEN\<rparr>, True)
          else if mi_ip_sec_addr info = [] then
            Inr (info\<lparr>mi_ip_sec_addr := strlcpy ip OS_INET_ADDRSTRLEN\<rparr>, False)
          else Inl (- 1))"

text \<open>The loop over the devices that are bridged with this one.\<close>

fun bridge_rules_loop ::
  "env \<Rightarrow> bool \<Rightarrow> string \<Rightarrow> supervisor_context \<Rightarrow> mac list \<Rightarrow> hist \<Rightarrow> cmd_result" where
  "bridge_rules_loop env add ip context [] h = (0, context, h)"
| "bridge_rules_loop env add ip context (p # ps) h =
     (case map_of (mac_mapper context) p of
        None \<Rightarrow> bridge_rules_loop env add ip context ps h
      | Some right_info \<Rightarrow>
          let (r, context, h) =
                bridge_pairs (if add then add_bridge_ip env else delete_bridge_ip env) context
                  [(ip, mi_ip_addr right_info), (ip, mi_ip_sec_addr right_info)] h
          in if r < 0 then (- 1, context, h) else bridge_rules_loop env add ip context ps h)"

definition set_ip_cmd ::
  "env \<Rightarrow> supervisor_context \<Rightarrow> mac \<Rightarrow> string \<Rightarrow> DHCP_IP_TYPE \<Rightarrow> hist \<Rightarrow> cmd_result" where
  "set_ip_cmd env context mac_addr ip ip_type h =
     (let add = (ip_type = DHCP_IP_NEW \<or> ip_type = DHCP_IP_OLD) in
      case get_ifname_from_ip (config_ifinfo_array context) ip of
        None \<Rightarrow> (- 1, context, h)
      | Some ifn \<Rightarrow>
          (case assign_ip (device_info context mac_addr) ip ip_type of
             Inl r \<Rightarrow> (r, context, h)
           | Inr (info, primary) \<Rightarrow>
               let info = info\<lparr>mi_ifname := ifn\<rparr>;
                   (r, context, h) = save_device env context mac_addr info h
               in if r < 0 then (- 1, context, h)
                  else
                    let (r, h) = (if add then
                           send_events_subscriber env context SUBSCRIBER_EVENT_IP
                             (mac2str mac_addr @ '' '' @ ip @ '' '' @ show_int (ip_type_code ip_type) @
                              '' '' @ show_int (of_bool_int primary)) h
                         else (0, h))
                    in if r < 0 then (- 1, context, h)
                       else
                         let (r, context, h) =
                               (if \<not> mi_nat info then (0, context, h)
                                else if add then add_nat_ip env context ip h
                                else remove_nat_ip env context ip h)
                         in if r < 0 then (- 1, context, h)
                            else
                              let (_, macs) = get_src_mac_list (bridge_list context) mac_addr
                              in bridge_rules_loop env add ip context macs h))"

definition PING_REPLY :: string where
  "PING_REPLY = ''PONG'' @ [CHR 0x0A]"

definition ping_cmd :: "env \<Rightarrow> hist \<Rightarrow> string option \<times> hist" where
  "ping_cmd env h = (let (ok, h) = os_malloc env h in (if ok then Some PING_REPLY else None, h))"

text \<open>The array exists while the supervisor runs; without it the code would follow a NULL pointer.\<close>

definition subscribe_events_cmd ::
  "supervisor_context \<Rightarrow> client_address \<Rightarrow> hist \<Rightarrow> cmd_result" where
  "subscribe_events_cmd context addr h =
     (case subscribers_array context of
        None \<Rightarrow> (0, context, E_ub Null_Deref # h)
      | Some subs \<Rightarrow>
          let (r, subs) = add_events_subscriber subs addr
          in (r, context\<lparr>subscribers_array := Some subs\<rparr>, h))"

end
