(* ===== verification/Supervisor.thy ===== *)
theory Supervisor
  imports System_Commands
begin

text \<open>
  supervisor/supervisor.c: the decision on a device that wants to join
  (\<open>get_mac_conn_cmd\<close>, called by the RADIUS server) and the reaction to events of the access
  point, including \<open>ap_sock_handler\<close> of ap/ap_service.c.
\<close>

section \<open>Traffic capture\<close>

definition run_analyser :: "env \<Rightarrow> string \<Rightarrow> hist \<Rightarrow> u64 option \<times> hist" where
  "run_analyser env ifn h = (let h = E_thread ifn # h in (env_thread env h, h))"

definition schedule_analyser :: "env \<Rightarrow> supervisor_context \<Rightarrow> int \<Rightarrow> hist \<Rightarrow> cmd_result" where
  "schedule_analyser env context vlan h =
     (case get_vlan_mapper (vlan_mapper context) vlan of
        (_, None) \<Rightarrow> (- 1, context, h)
      | (_, Some vconn) \<Rightarrow>
          if vc_capture_pid vconn = 0 then
            (case run_analyser env (vc_ifname vconn) h of
               (None, h) \<Rightarrow> (- 1, context, h)
             | (Some pid, h) \<Rightarrow>
                 let (ok, hmap, h) =
                       put_vlan_mapper env (vlan_mapper context) (vconn\<lparr>vc_capture_pid := pid\<rparr>) h
                 in (if ok then 0 else - 1, context\<lparr>vlan_mapper := hmap\<rparr>, h))
          else (0, context, h))"

section \<open>Joining\<close>

definition configure_mac_info ::
  "mac_conn_info \<Rightarrow> bool \<Rightarrow> int \<Rightarrow> int \<Rightarrow> bytes \<Rightarrow> string option \<Rightarrow> mac_conn_info" where
  "configure_mac_info info allow vlan plen psk lbl =
     (let info = info\<lparr>mi_allow_connection := allow, mi_vlanid := vlan, mi_pass_len := plen,
                      mi_pass := put_pass (take (nat plen) psk) (mi_pass info)\<rparr>
      in case lbl of None \<Rightarrow> info | Some l \<Rightarrow> info\<lparr>mi_label := l\<rparr>)"

text \<open>\<open>save_device_vlan\<close> also writes the time of joining to the record of its caller.\<close>

definition save_device_vlan ::
  "env \<Rightarrow> supervisor_context \<Rightarrow> mac \<Rightarrow> mac_conn_info \<Rightarrow> hist \<Rightarrow>
   int \<times> mac_conn_info \<times> supervisor_context \<times> hist" where
  "save_device_vlan env context mac_addr info h =
     (let (r, context, h) = (if exec_capture context then schedule_analyser env context (mi_vlanid info) h
                             else (0, context, h))
      in if r < 0 then (- 1, info, context, h)
         else
           let (r, ts, h) = os_get_timestamp env h
           in if r < 0 then (- 1, info, context, h)
              else
                let info = info\<lparr>mi_join_timestamp := ts\<rparr>;
                    (r, context, h) = save_device env context mac_addr info h
                in (if r < 0 then - 1 else 0, info, context, h))"

text \<open>The three ways to admit a device end alike: it is saved, and rejected when that fails.\<close>

definition admit ::
  "env \<Rightarrow> supervisor_context \<Rightarrow> mac \<Rightarrow> mac_conn_info \<Rightarrow> hist \<Rightarrow>
   mac_conn_info \<times> supervisor_context \<times> hist" where
  "admit env context mac_addr info h =
     (let (r, info, context, h) = save_device_vlan env context mac_addr info h
      in (if r < 0 then info\<lparr>mi_vlanid := - 1\<rparr> else info, context, h))"

text \<open>Reading the ticket and freeing it.\<close>

definition use_ticket ::
  "supervisor_context \<Rightarrow> auth_ticket \<Rightarrow> mac_conn_info \<Rightarrow> hist \<Rightarrow>
   mac_conn_info \<times> supervisor_context \<times> hist" where
  "use_ticket context tk info h =
     (let h = (case ticket context of Ticket_Dangling _ \<Rightarrow> E_ub Use_After_Free # h | _ \<Rightarrow> h);
          info = info\<lparr>mi_vlanid := tk_vlanid tk, mi_pass_len := tk_passphrase_len tk,
                      mi_pass := put_pass (take (nat (tk_passphrase_len tk)) (tk_passphrase tk)) (mi_pass info),
                      mi_label := tk_device_label tk\<rparr>;
          (context, h) = free_ticket context h
      in (info, context, h))"

definition get_mac_conn_cmd ::
  "env \<Rightarrow> supervisor_context \<Rightarrow> mac \<Rightarrow> hist \<Rightarrow> mac_conn_info \<times> supervisor_context \<times> hist" where
  "get_mac_conn_cmd env context mac_addr h =
     (let (alloc_vlanid, h) =
            (if allocate_vlans context then allocate_vlan env context mac_addr VLAN_ALLOCATE_HASH 0 h
             else (default_open_vlanid context, h));
          (find_mac, info) = get_mac_mapper (mac_mapper context) mac_addr
             (init_default_mac_info alloc_vlanid (allow_all_nat context))
      in if allow_all_connections context \<and> (find_mac = 0 \<or> find_mac = 1 \<and> mi_allow_connection info) then
           let info =
                 (if find_mac = 0 then
                    configure_mac_info info True alloc_vlanid (wpa_passphrase_len context) (wpa_passphrase context) None
                  else if mi_pass_len info = 0 then
                    info\<lparr>mi_pass_len := wpa_passphrase_len context,
                         mi_pass := put_pass (take (nat (wpa_passphrase_len context)) (wpa_passphrase context)) (mi_pass info)\<rparr>
                  else info)
           in admit env context mac_addr info h
         else if \<not> allow_all_connections context \<and>
                 (find_mac = 1 \<and> mi_allow_connection info \<and> mi_pass_len info \<noteq> 0) then
           admit env context mac_addr info h
         else if \<not> allow_all_connections context \<and>
                 (find_mac = 0 \<or> find_mac = 1 \<and> mi_allow_connection info \<and> mi_pass_len info = 0) then
           let info = info\<lparr>mi_allow_connection := True\<rparr>;
               (info, context, h) =
                 (case ticket context of
                    Ticket_Live tk \<Rightarrow> use_ticket context tk info h
                  | Ticket_Dangling tk \<Rightarrow> use_ticket context tk info h
                  | Ticket_Null \<Rightarrow>
                      (info\<lparr>mi_vlanid := alloc_vlanid, mi_pass_len := wpa_passphrase_len context,
                            mi_pass := put_pass (take (nat (wpa_passphrase_len context)) (wpa_passphrase context)) (mi_pass info)\<rparr>,
                       context, h))
           in admit env context mac_addr info h
         else (info\<lparr>mi_vlanid := - 1\<rparr>, context, h))"

section \<open>Events of the access point\<close>

definition ap_service_callback ::
  "env \<Rightarrow> supervisor_context \<Rightarrow> mac \<Rightarrow> AP_CONNECTION_STATUS \<Rightarrow> hist \<Rightarrow> supervisor_context \<times> hist" where
  "ap_service_callback env context mac_addr st h =
     (let (context, h) =
            (case map_of (mac_mapper context) mac_addr of
               None \<Rightarrow> (context, h)
             | Some info \<Rightarrow>
                 let (_, context, h) = save_device env context mac_addr (info\<lparr>mi_status := status_code st\<rparr>) h
                 in (context, h));
          (_, h) = send_events_subscriber env context SUBSCRIBER_EVENT_AP
                     (mac2str mac_addr @ '' '' @ show_int (status_code st)) h
      in (context, h))"

definition ap_sock_handler :: "env \<Rightarrow> int \<Rightarrow> supervisor_context \<Rightarrow> hist \<Rightarrow> supervisor_context \<times> hist" where
  "ap_sock_handler env sock context h =
     (let h = E_fionread sock # h in
      case env_fionread env h of
        None \<Rightarrow> (context, h)
      | Some bytes_available \<Rightarrow>
          let (ok, h) = os_malloc env h in
          if \<not> ok then (context, h)
          else
            let (n, data, path, h) = read_domain_data_s env sock bytes_available (ctrl_interface_path context) h;
                context = context\<lparr>ctrl_interface_path := path\<rparr>
            in if n < 0 then (context, h)
               else (case find_ap_status env (rtrim (c_str data)) h of
                       (None, h) \<Rightarrow> (context, h)
                     | (Some (m, st), h) \<Rightarrow> ap_service_callback env context m st h))"

end
