(* ===== verification/Cmd_Processor.thy ===== *)
theory Cmd_Processor
  imports Supervisor
begin

text \<open>
  supervisor/cmd_processor.c, built without the crypt service, and the reading of a command in
  supervisor/supervisor.c: the text of a datagram is split at blanks, the first word selects
  the command, the others are its arguments.
\<close>

type_synonym process_cmd_fn =
  "env \<Rightarrow> int \<Rightarrow> client_address \<Rightarrow> supervisor_context \<Rightarrow> string list \<Rightarrow> hist \<Rightarrow>
   int \<times> supervisor_context \<times> hist"

definition OK_REPLY :: string where
  "OK_REPLY = ''OK'' @ [CHR 0x0A]"

definition FAIL_REPLY :: string where
  "FAIL_REPLY = ''FAIL'' @ [CHR 0x0A]"

section \<open>Words and replies\<close>

definition process_domain_buffer ::
  "env \<Rightarrow> string \<Rightarrow> char \<Rightarrow> hist \<Rightarrow> string list option \<times> hist" where
  "process_domain_buffer env domain_buffer sep h =
     (if domain_buffer = [] then (None, h)
      else let (ok, h) = os_malloc env h in
      if \<not> ok then (None, h)
      else let (count, cmd_arr, h) = split_string_array env (rtrim (c_str domain_buffer)) sep h
           in (if count < 0 then None else Some cmd_arr, h))"

definition write_newline_socket_data ::
  "env \<Rightarrow> int \<Rightarrow> string \<Rightarrow> client_address \<Rightarrow> hist \<Rightarrow> int \<times> hist" where
  "write_newline_socket_data env sock data client_addr h =
     (case string_append_char env data (CHR 0x0A) h of
        (None, h) \<Rightarrow> write_socket_data env sock FAIL_REPLY client_addr h
      | (Some msg, h) \<Rightarrow> write_socket_data env sock msg client_addr h)"

text \<open>Sending a reply, with the context of the command.\<close>

definition send_reply ::
  "env \<Rightarrow> int \<Rightarrow> client_address \<Rightarrow> string \<Rightarrow> supervisor_context \<Rightarrow> hist \<Rightarrow> int \<times> supervisor_context \<times> hist" where
  "send_reply env sock client_addr msg context h =
     (let (r, h) = write_socket_data env sock msg client_addr h in (r, context, h))"

text \<open>The reply to the result of a command: OK, or FAIL for a negative code.\<close>

definition reply_code ::
  "env \<Rightarrow> int \<Rightarrow> client_address \<Rightarrow> cmd_result \<Rightarrow> int \<times> supervisor_context \<times> hist" where
  "reply_code env sock client_addr res =
     (case res of (r, context, h) \<Rightarrow>
        send_reply env sock client_addr (if r < 0 then FAIL_REPLY else OK_REPLY) context h)"

text \<open>An argument of a command, None behind the last one.\<close>

definition cmd_arg :: "string list \<Rightarrow> nat \<Rightarrow> string option" where
  "cmd_arg cmd_arr i = (if i < length cmd_arr then Some (cmd_arr ! i) else None)"

definition cmd_mac :: "string list \<Rightarrow> nat \<Rightarrow> mac option" where
  "cmd_mac cmd_arr i = Option.bind (cmd_arg cmd_arr i) hwaddr_aton2"

text \<open>\<open>(int)strtoul(...)\<close> with the checks of \<open>errno\<close> and \<open>is_number\<close>.\<close>

definition cmd_vlanid :: "string list \<Rightarrow> nat \<Rightarrow> int option" where
  "cmd_vlanid cmd_arr i =
     (case cmd_arg cmd_arr i of
        None \<Rightarrow> None
      | Some s \<Rightarrow> (case strtoul10 s of (v, erange) \<Rightarrow>
          if \<not> erange \<and> is_number s then Some (to_int32 v) else None))"

section \<open>Commands\<close>

definition process_ping_cmd :: process_cmd_fn where
  "process_ping_cmd env sock client_addr context cmd_arr h =
     (case ping_cmd env h of
        (Some reply, h) \<Rightarrow> send_reply env sock client_addr reply context h
      | (None, h) \<Rightarrow> send_reply env sock client_addr FAIL_REPLY context h)"

definition process_subscribe_events_cmd :: process_cmd_fn where
  "process_subscribe_events_cmd env sock client_addr context cmd_arr h =
     reply_code env sock client_addr (subscribe_events_cmd context client_addr h)"

definition process_accept_mac_cmd :: process_cmd_fn where
  "process_accept_mac_cmd env sock client_addr context cmd_arr h =
     (case cmd_mac cmd_arr 1 of
        None \<Rightarrow> send_reply env sock client_addr FAIL_REPLY context h
      | Some addr \<Rightarrow>
          (case cmd_vlanid cmd_arr 2 of
             None \<Rightarrow> send_reply env sock client_addr FAIL_REPLY context h
           | Some vlan \<Rightarrow> reply_code env sock client_addr (accept_mac_cmd env context addr vlan h)))"

definition process_deny_mac_cmd :: process_cmd_fn where
  "process_deny_mac_cmd env sock client_addr context cmd_arr h =
     (case cmd_mac cmd_arr 1 of
        None \<Rightarrow> send_reply env sock client_addr FAIL_REPLY context h
      | Some addr \<Rightarrow> reply_code env sock client_addr (deny_mac_cmd env context addr h))"

definition process_add_nat_cmd :: process_cmd_fn where
  "process_add_nat_cmd env sock client_addr context cmd_arr h =
     (case cmd_mac cmd_arr 1 of
        None \<Rightarrow> send_reply env sock client_addr FAIL_REPLY context h
      | Some addr \<Rightarrow> reply_code env sock client_addr (add_nat_cmd env context addr h))"

definition process_remove_nat_cmd :: process_cmd_fn where
  "process_remove_nat_cmd env sock client_addr context cmd_arr h =
     (case cmd_mac cmd_arr 1 of
        None \<Rightarrow> send_reply env sock client_addr FAIL_REPLY context h
      | Some addr \<Rightarrow> reply_code env sock client_addr (remove_nat_cmd env context addr h))"

definition process_assign_psk_cmd :: process_cmd_fn where
  "process_assign_psk_cmd env sock client_addr context cmd_arr h =
     (case cmd_mac cmd_arr 1 of
        None \<Rightarrow> send_reply env sock client_addr FAIL_REPLY context h
      | Some addr \<Rightarrow>
          (case cmd_arg cmd_arr 2 of
             None \<Rightarrow> send_reply env sock client_addr FAIL_REPLY context h
           | Some psk \<Rightarrow>
               if length psk \<le> AP_SECRET_LEN \<and> length psk \<noteq> 0
               then reply_code env sock client_addr (assign_psk_cmd env context addr psk h)
               else send_reply env sock client_addr FAIL_REPLY context h))"

text \<open>The line of a device in the replies to \<open>GET_MAP\<close> and \<open>GET_ALL\<close>.\<close>

definition map_line :: "mac \<Rightarrow> mac_conn_info \<Rightarrow> string" where
  "map_line m info =
     (if mi_allow_connection info then ''a'' else ''d'') @ '','' @ mac2str m @ '','' @ mi_ip_addr info @ '','' @
     mi_ip_sec_addr info @ '','' @ show_int (mi_vlanid info) @ '','' @ show_int (of_bool_int (mi_nat info)) @ '','' @
     mi_label info @ '','' @ mi_id info @ '','' @ (if mi_pass_len info \<noteq> 0 then ''1'' else ''0'') @ '','' @
     show_nat (unat (mi_join_timestamp info)) @ '','' @ show_int (mi_status info) @ [CHR 0x0A]"

text \<open>
  \<open>snprintf\<close> into 255 bytes returns the length of the whole line, and \<open>GET_MAP\<close> sends that many
  bytes: from a line of 255 characters on the cut text and its NUL, and for a longer line also
  what lies behind the buffer, which is not determined.
\<close>

definition process_get_map_cmd :: process_cmd_fn where
  "process_get_map_cmd env sock client_addr context cmd_arr h =
     (case cmd_mac cmd_arr 1 of
        None \<Rightarrow> send_reply env sock client_addr FAIL_REPLY context h
      | Some addr \<Rightarrow>
          (case map_of (mac_mapper context) addr of
             Some info \<Rightarrow>
               let line = map_line addr info;
                   h = (if 255 < length line then E_ub Over_Read # h else h)
               in send_reply env sock client_addr
                    (if length line < 255 then line else take 254 line @ [CHR 0x00]) context h
           | None \<Rightarrow> send_reply env sock client_addr OK_REPLY context h))"

text \<open>The reply to \<open>GET_ALL\<close> grows by \<open>realloc\<close> and \<open>strcat\<close>, line by line, cut at 254 characters.\<close>

fun get_all_loop :: "env \<Rightarrow> mac_conn list \<Rightarrow> string \<Rightarrow> hist \<Rightarrow> string option \<times> hist" where
  "get_all_loop env [] buf h = (Some buf, h)"
| "get_all_loop env (el # els) buf h =
     (let (ok, h) = os_malloc env h in
      if \<not> ok then (None, h)
      else get_all_loop env els (buf @ take 254 (map_line (mc_mac_addr el) (mc_info el))) h)"

definition process_get_all_cmd :: process_cmd_fn where
  "process_get_all_cmd env sock client_addr context cmd_arr h =
     (let (_, mac_list, h) = get_mac_list env (mac_mapper context) h in
      case mac_list of
        None \<Rightarrow> send_reply env sock client_addr OK_REPLY context h
      | Some l \<Rightarrow>
          let (ok, h) = os_malloc env h in
          if \<not> ok then (- 1, context, h)
          else (case get_all_loop env l [] h of
                  (None, h) \<Rightarrow> (- 1, context, h)
                | (Some buf, h) \<Rightarrow> send_reply env sock client_addr buf context h))"

definition dhcp_type_of :: "string \<Rightarrow> DHCP_IP_TYPE" where
  "dhcp_type_of s =
     (let t = strlcpy s 4 in
      if t = ''add'' then DHCP_IP_NEW
      else if t = ''old'' then DHCP_IP_OLD
      else if t = ''del'' then DHCP_IP_DEL
      else if t = ''arp'' then DHCP_IP_ARP
      else DHCP_IP_NONE)"

definition process_set_ip_cmd :: process_cmd_fn where
  "process_set_ip_cmd env sock client_addr context cmd_arr h =
     (case cmd_arg cmd_arr 1 of
        None \<Rightarrow> send_reply env sock client_addr FAIL_REPLY context h
      | Some ty \<Rightarrow>
          (let ip_type = dhcp_type_of ty in
           if ip_type = DHCP_IP_ARP then send_reply env sock client_addr OK_REPLY context h
           else if ip_type = DHCP_IP_NONE then send_reply env sock client_addr FAIL_REPLY context h
           else case cmd_mac cmd_arr 2 of
                  None \<Rightarrow> send_reply env sock client_addr FAIL_REPLY context h
                | Some addr \<Rightarrow>
                    (case cmd_arg cmd_arr 3 of
                       None \<Rightarrow> send_reply env sock client_addr FAIL_REPLY context h
                     | Some ip \<Rightarrow>
                         let (ok, h) = check_ipv4 ip h in
                         if ok then reply_code env sock client_addr (set_ip_cmd env context addr ip ip_type h)
                         else send_reply env sock client_addr FAIL_REPLY context h)))"

definition process_add_bridge_cmd :: process_cmd_fn where
  "process_add_bridge_cmd env sock client_addr context cmd_arr h =
     (case cmd_arg cmd_arr 1 of
        None \<Rightarrow> send_reply env sock client_addr FAIL_REPLY context h
      | Some left \<Rightarrow>
          (case hwaddr_aton2 left of
             Some left_addr \<Rightarrow>
               (case cmd_mac cmd_arr 2 of
                  None \<Rightarrow> send_reply env sock client_addr FAIL_REPLY context h
                | Some right_addr \<Rightarrow>
                    reply_code env sock client_addr (add_bridge_mac_cmd env context left_addr right_addr h))
           | None \<Rightarrow>
               let (ok, h) = check_ipv4 left h in
               if \<not> ok then send_reply env sock client_addr FAIL_REPLY context h
               else (case cmd_arg cmd_arr 2 of
                       None \<Rightarrow> send_reply env sock client_addr FAIL_REPLY context h
                     | Some right \<Rightarrow>
                         let (ok, h) = check_ipv4 right h in
                         if \<not> ok then send_reply env sock client_addr FAIL_REPLY context h
                         else reply_code env sock client_addr
                                (add_bridge_ip_cmd env context (strlcpy left OS_INET_ADDRSTRLEN)
                                   (strlcpy right OS_INET_ADDRSTRLEN) h))))"

definition process_remove_bridge_cmd :: process_cmd_fn where
  "process_remove_bridge_cmd env sock client_addr context cmd_arr h =
     (case (cmd_mac cmd_arr 1, cmd_mac cmd_arr 2) of
        (Some left_addr, Some right_addr) \<Rightarrow>
          reply_code env sock client_addr (remove_bridge_cmd env context left_addr right_addr h)
      | _ \<Rightarrow> send_reply env sock client_addr FAIL_REPLY context h)"

definition process_clear_bridges_cmd :: process_cmd_fn where
  "process_clear_bridges_cmd env sock client_addr context cmd_arr h =
     (case cmd_mac cmd_arr 1 of
        None \<Rightarrow> send_reply env sock client_addr FAIL_REPLY context h
      | Some left_addr \<Rightarrow> reply_code env sock client_addr (clear_bridges_cmd env context left_addr h))"

fun get_bridges_loop :: "env \<Rightarrow> bridge_mac_tuple list \<Rightarrow> string \<Rightarrow> hist \<Rightarrow> string option \<times> hist" where
  "get_bridges_loop env [] buf h = (Some buf, h)"
| "get_bridges_loop env (p # ps) buf h =
     (let (ok, h) = os_malloc env h in
      if \<not> ok then (None, h)
      else get_bridges_loop env ps
             (buf @ take 254 (mac2str (src_addr p) @ '','' @ mac2str (dst_addr p) @ [CHR 0x0A])) h)"

definition process_get_bridges_cmd :: process_cmd_fn where
  "process_get_bridges_cmd env sock client_addr context cmd_arr h =
     (let (n, tuples) = get_all_bridge_edges (bridge_list context) in
      if n \<le> 0 then send_reply env sock client_addr FAIL_REPLY context h
      else (case get_bridges_loop env tuples [] h of
              (None, h) \<Rightarrow> (- 1, context, h)
            | (Some buf, h) \<Rightarrow> send_reply env sock client_addr buf context h))"

definition process_register_ticket_cmd :: process_cmd_fn where
  "process_register_ticket_cmd env sock client_addr context cmd_arr h =
     (case cmd_mac cmd_arr 1 of
        None \<Rightarrow> send_reply env sock client_addr FAIL_REPLY context h
      | Some m \<Rightarrow>
          (case cmd_arg cmd_arr 2 of
             None \<Rightarrow> send_reply env sock client_addr FAIL_REPLY context h
           | Some lbl \<Rightarrow>
               if \<not> os_strnlen_s lbl MAX_DEVICE_LABEL_SIZE < MAX_DEVICE_LABEL_SIZE
               then send_reply env sock client_addr FAIL_REPLY context h
               else (case cmd_vlanid cmd_arr 3 of
                       None \<Rightarrow> send_reply env sock client_addr FAIL_REPLY context h
                     | Some vlan \<Rightarrow>
                         (case register_ticket_cmd env context m (strlcpy lbl MAX_DEVICE_LABEL_SIZE) vlan h of
                            (Some psk, context, h) \<Rightarrow>
                              let (r, h) = write_newline_socket_data env sock (c_str (string_of_bytes psk)) client_addr h
                              in (r, context, h)
                          | (None, context, h) \<Rightarrow> send_reply env sock client_addr FAIL_REPLY context h))))"

definition process_clear_psk_cmd :: process_cmd_fn where
  "process_clear_psk_cmd env sock client_addr context cmd_arr h =
     (case cmd_mac cmd_arr 1 of
        None \<Rightarrow> send_reply env sock client_addr FAIL_REPLY context h
      | Some m \<Rightarrow> reply_code env sock client_addr (clear_psk_cmd env context m h))"

definition command_table :: "(string \<times> process_cmd_fn) list" where
  "command_table =
     [(''PING_SUPERVISOR'', process_ping_cmd),
      (''SUBSCRIBE_EVENTS'', process_subscribe_events_cmd),
      (''ACCEPT_MAC'', process_accept_mac_cmd),
      (''DENY_MAC'', process_deny_mac_cmd),
      (''ADD_NAT'', process_add_nat_cmd),
      (''REMOVE_NAT'', process_remove_nat_cmd),
      (''ASSIGN_PSK'', process_assign_psk_cmd),
      (''GET_MAP'', process_get_map_cmd),
      (''GET_ALL'', process_get_all_cmd),
      (''SET_IP'', process_set_ip_cmd),
      (''ADD_BRIDGE'', process_add_bridge_cmd),
      (''REMOVE_BRIDGE'', process_remove_bridge_cmd),
      (''CLEAR_BRIDGE'', process_clear_bridges_cmd),
      (''GET_BRIDGES'', process_get_bridges_cmd),
      (''REGISTER_TICKET'', process_register_ticket_cmd),
      (''CLEAR_PSK'', process_clear_psk_cmd)]"

definition get_command_function :: "string \<Rightarrow> process_cmd_fn option" where
  "get_command_function cmd = map_of command_table cmd"

section \<open>A datagram\<close>

text \<open>The function of a command, run on its arguments; an unknown word is ignored.\<close>

definition dispatch_command :: process_cmd_fn where
  "dispatch_command env sock claddr context args h =
     (case get_command_function (args ! 0) of
        None \<Rightarrow> (0, context, h)
      | Some cfn \<Rightarrow>
          let (r, context, h) = cfn env sock claddr context args h
          in (if r = - 1 then - 1 else 0, context, h))"

definition process_received_data ::
  "env \<Rightarrow> int \<Rightarrow> client_address \<Rightarrow> supervisor_context \<Rightarrow> hist \<Rightarrow> int \<times> supervisor_context \<times> hist" where
  "process_received_data env sock claddr context h =
     (let h = E_fionread sock # h in
      case env_fionread env h of
        None \<Rightarrow> (- 1, context, h)
      | Some bytes_available \<Rightarrow>
          let (ok, h) = os_malloc env h in
          if \<not> ok then (- 1, context, h)
          else
            let (received, buf, claddr, h) = read_socket_data env sock bytes_available claddr h in
            if received = - 1 then (- 1, context, h)
            else (case process_domain_buffer env buf CHR '' '' h of
                    (None, h) \<Rightarrow> (- 1, context, h)
                  | (Some args, h) \<Rightarrow> dispatch_command env sock claddr context args h))"

definition eloop_read_domain_handler ::
  "env \<Rightarrow> int \<Rightarrow> supervisor_context \<Rightarrow> hist \<Rightarrow> supervisor_context \<times> hist" where
  "eloop_read_domain_handler env sock context h =
     snd (process_received_data env sock (blank_address SOCKET_TYPE_DOMAIN) context h)"

definition eloop_read_udp_handler ::
  "env \<Rightarrow> int \<Rightarrow> supervisor_context \<Rightarrow> hist \<Rightarrow> supervisor_context \<times> hist" where
  "eloop_read_udp_handler env sock context h =
     snd (process_received_data env sock (blank_address SOCKET_TYPE_UDP) context h)"

end
