(* ===== verification/Supervisor_Frame.thy ===== *)
theory Supervisor_Frame
  imports Cmd_Processor
begin

text \<open>
  What the commands leave unchanged.  \<open>keeps A\<close> says that a step keeps every device that is in the
  table, with its permission, except for the devices in \<open>A\<close>; every command keeps all devices
  except that \<open>ACCEPT_MAC\<close> and \<open>DENY_MAC\<close> may change the permission of the one they name.
\<close>

definition keeps :: "mac set \<Rightarrow> supervisor_context \<Rightarrow> supervisor_context \<Rightarrow> bool" where
  "keeps A c c' \<longleftrightarrow>
     (\<forall>m info. map_of (mac_mapper c) m = Some info \<and> m \<notin> A \<longrightarrow>
        (\<exists>info'. map_of (mac_mapper c') m = Some info' \<and>
                 mi_allow_connection info' = mi_allow_connection info))"

lemma keeps_same: "mac_mapper c' = mac_mapper c \<Longrightarrow> keeps A c c'"
  by (simp add: keeps_def)

lemma keeps_refl [simp]: "keeps A c c"
  by (simp add: keeps_def)

lemma keeps_trans: "keeps A c1 c2 \<Longrightarrow> keeps A c2 c3 \<Longrightarrow> keeps A c1 c3"
  unfolding keeps_def by (metis (no_types))

lemma keeps_mono: "keeps A c c' \<Longrightarrow> A \<subseteq> B \<Longrightarrow> keeps B c c'"
  unfolding keeps_def by blast

section \<open>The table of devices\<close>

lemma save_device_table:
  assumes "save_device env c m info h = (r, c', h')"
  shows "\<exists>hmap. c' = c\<lparr>mac_mapper := hmap\<rparr> \<and>
           (hmap = mac_mapper c \<and> r < 0 \<or>
            (\<exists>i. hmap = AList.update m (info\<lparr>mi_id := i\<rparr>) (mac_mapper c) \<and> (i = mi_id info \<or> length i \<le> 36)))"
proof -
  define i where "i = (if mi_id info = [] then take 36 (env_uuid env (E_uuid # h)) else mi_id info)"
  have "i = mi_id info \<or> length i \<le> 36"
    by (simp add: i_def)
  moreover have "c' = c\<lparr>mac_mapper := mac_mapper c\<rparr> \<and> r < 0 \<or>
      c' = c\<lparr>mac_mapper := AList.update m (info\<lparr>mi_id := i\<rparr>) (mac_mapper c)\<rparr>"
    using assms by (cases "mi_id info = []")
      (auto simp: i_def save_device_def save_mac_mapper_def generate_radom_uuid_def Let_def
        split: prod.splits if_splits dest!: put_mac_mapper_cases)
  ultimately show ?thesis
    by metis
qed

lemma keeps_save_device:
  assumes "save_device env c m info h = (r, c', h')"
    and "\<And>i. map_of (mac_mapper c) m = Some i \<Longrightarrow> m \<notin> A \<Longrightarrow> mi_allow_connection info = mi_allow_connection i"
  shows "keeps A c c'"
  using save_device_table [OF assms(1)] assms(2)
  by (auto simp: keeps_def map_of_update)

lemma device_info_known: "map_of (mac_mapper c) m = Some i \<Longrightarrow> device_info c m = i"
  by (simp add: device_info_def get_mac_mapper_def)

section \<open>Operations that do not touch the table\<close>

named_theorems same_table \<open>operations that leave the table of devices as it is\<close>

lemma disconnect_device_table [same_table]:
  "disconnect_device env c s h = (r, c', h') \<Longrightarrow> mac_mapper c' = mac_mapper c"
  by (auto simp: disconnect_device_def Let_def split: prod.splits)

lemma add_nat_ip_table [same_table]:
  "add_nat_ip env c ip h = (r, c', h') \<Longrightarrow> mac_mapper c' = mac_mapper c"
  by (auto simp: add_nat_ip_def Let_def split: prod.splits if_splits)

lemma remove_nat_ip_table [same_table]:
  "remove_nat_ip env c ip h = (r, c', h') \<Longrightarrow> mac_mapper c' = mac_mapper c"
  by (auto simp: remove_nat_ip_def Let_def split: prod.splits if_splits)

lemma add_bridge_ip_table [same_table]:
  "add_bridge_ip env c a b h = (r, c', h') \<Longrightarrow> mac_mapper c' = mac_mapper c"
  by (auto simp: add_bridge_ip_def Let_def split: prod.splits if_splits)

lemma delete_bridge_ip_table [same_table]:
  "delete_bridge_ip env c a b h = (r, c', h') \<Longrightarrow> mac_mapper c' = mac_mapper c"
  by (auto simp: delete_bridge_ip_def Let_def split: prod.splits if_splits)

lemma bridge_pairs_table:
  assumes "\<And>c a b h r c' h'. f c a b h = (r, c', h') \<Longrightarrow> mac_mapper c' = mac_mapper c"
  shows "bridge_pairs f c ps h = (r, c', h') \<Longrightarrow> mac_mapper c' = mac_mapper c"
proof (induction ps arbitrary: c h r)
  case (Cons p ps)
  obtain a b where p: "p = (a, b)"
    by (cases p)
  obtain r1 c1 h1 where f: "f c a b h = (r1, c1, h1)"
    by (metis prod_cases3)
  then have "mac_mapper c1 = mac_mapper c"
    by (rule assms)
  with Cons.IH [of c1 h1] Cons.prems f show ?case
    by (auto simp: p split: if_splits)
qed simp

lemma bridge_pairs_tables [same_table]:
  "bridge_pairs (add_bridge_ip env) c ps h = (r, c', h') \<Longrightarrow> mac_mapper c' = mac_mapper c"
  "bridge_pairs (delete_bridge_ip env) c ps h = (r, c', h') \<Longrightarrow> mac_mapper c' = mac_mapper c"
  by (erule bridge_pairs_table [rotated], erule add_bridge_ip_table)
     (erule bridge_pairs_table [rotated], erule delete_bridge_ip_table)

lemma add_bridge_mac_cmd_table [same_table]:
  "add_bridge_mac_cmd env c a b h = (r, c', h') \<Longrightarrow> mac_mapper c' = mac_mapper c"
  by (auto simp: add_bridge_mac_cmd_def Let_def split: prod.splits if_splits option.splits
      dest!: bridge_pairs_tables)

lemma add_bridge_ip_cmd_table [same_table]:
  "add_bridge_ip_cmd env c a b h = (r, c', h') \<Longrightarrow> mac_mapper c' = mac_mapper c"
  by (auto simp: add_bridge_ip_cmd_def Let_def split: prod.splits if_splits option.splits
      dest!: add_bridge_mac_cmd_table)

lemma remove_bridge_cmd_table [same_table]:
  "remove_bridge_cmd env c a b h = (r, c', h') \<Longrightarrow> mac_mapper c' = mac_mapper c"
  by (auto simp: remove_bridge_cmd_def Let_def split: prod.splits if_splits option.splits
      dest!: bridge_pairs_tables)

lemma clear_bridges_loop_table:
  "clear_bridges_loop env c m els h = (c', h') \<Longrightarrow> mac_mapper c' = mac_mapper c"
  by (induction els arbitrary: c h) (auto split: prod.splits dest!: remove_bridge_cmd_table)

lemma clear_bridges_cmd_table [same_table]:
  "clear_bridges_cmd env c m h = (r, c', h') \<Longrightarrow> mac_mapper c' = mac_mapper c"
  by (auto simp: clear_bridges_cmd_def Let_def split: prod.splits option.splits
      dest!: clear_bridges_loop_table)

lemma free_ticket_table [same_table]: "free_ticket c h = (c', h') \<Longrightarrow> mac_mapper c' = mac_mapper c"
  by (auto simp: free_ticket_def split: ticket_ptr.splits)

lemma register_ticket_cmd_table [same_table]:
  "register_ticket_cmd env c m l v h = (r, c', h') \<Longrightarrow> mac_mapper c' = mac_mapper c"
  by (auto simp: register_ticket_cmd_def Let_def split: prod.splits if_splits option.splits)

lemma subscribe_events_cmd_table [same_table]:
  "subscribe_events_cmd c a h = (r, c', h') \<Longrightarrow> mac_mapper c' = mac_mapper c"
  by (auto simp: subscribe_events_cmd_def split: prod.splits option.splits)

lemma schedule_analyser_table [same_table]:
  "schedule_analyser env c v h = (r, c', h') \<Longrightarrow> mac_mapper c' = mac_mapper c"
  by (auto simp: schedule_analyser_def Let_def split: prod.splits if_splits option.splits)

lemma use_ticket_table [same_table]:
  "use_ticket c tk i h = (i', c', h') \<Longrightarrow> mac_mapper c' = mac_mapper c"
  by (auto simp: use_ticket_def Let_def split: prod.splits dest!: free_ticket_table)

lemma bridge_rules_loop_table [same_table]:
  "bridge_rules_loop env add ip c ms h = (r, c', h') \<Longrightarrow> mac_mapper c' = mac_mapper c"
proof (induction ms arbitrary: c h r)
  case (Cons m ms)
  show ?case
  proof (cases "map_of (mac_mapper c) m")
    case None
    with Cons show ?thesis by auto
  next
    case (Some i)
    obtain r1 c1 h1 where b: "bridge_pairs (if add then add_bridge_ip env else delete_bridge_ip env) c
        [(ip, mi_ip_addr i), (ip, mi_ip_sec_addr i)] h = (r1, c1, h1)"
      by (metis prod_cases3)
    then have "mac_mapper c1 = mac_mapper c"
      by (cases add) (simp_all add: bridge_pairs_tables del: bridge_pairs.simps)
    with Cons.IH [of c1 h1] Cons.prems Some b show ?thesis
      by (auto simp del: bridge_pairs.simps split: if_splits)
  qed
qed simp

section \<open>Commands\<close>

lemma keeps_save:
  assumes "save_device env c1 m info h = (r, c', h')" and "mac_mapper c1 = mac_mapper c"
    and "m \<in> A \<or> mi_allow_connection info = mi_allow_connection (device_info c m)"
  shows "keeps A c c'"
proof -
  have "keeps A c1 c'"
    using assms(2,3) device_info_known by (intro keeps_save_device [OF assms(1)]) auto
  then show ?thesis
    using assms(2) by (simp add: keeps_def)
qed

lemma keeps_then:
  "keeps A c c1 \<Longrightarrow> mac_mapper c2 = mac_mapper c1 \<Longrightarrow> keeps A c c2"
  by (simp add: keeps_def)

lemma accept_mac_cmd_keeps:
  assumes "accept_mac_cmd env c m v h = (r, c', h')"
  shows "keeps {m} c c'"
proof -
  obtain x ovc where gv: "get_vlan_mapper (vlan_mapper c) v = (x, ovc)"
    by fastforce
  show ?thesis
  proof (cases ovc)
    case None
    with assms gv show ?thesis
      by (simp add: accept_mac_cmd_def Let_def)
  next
    case (Some vc)
    let ?info = "(device_info c m)\<lparr>mi_allow_connection := True, mi_vlanid := v, mi_ifname := vc_ifname vc\<rparr>"
    obtain r1 c1 h1 where sv: "save_device env c m ?info h = (r1, c1, h1)"
      by (metis prod_cases3)
    then have "keeps {m} c c1"
      by (rule keeps_save) auto
    moreover have "mac_mapper c' = mac_mapper c1"
      using assms sv Some gv
      by (auto simp: accept_mac_cmd_def Let_def split: prod.splits if_splits
          dest!: disconnect_device_table)
    ultimately show ?thesis
      by (rule keeps_then)
  qed
qed

lemma deny_mac_cmd_keeps:
  assumes "deny_mac_cmd env c m h = (r, c', h')"
  shows "keeps {m} c c'"
proof -
  let ?info = "(device_info c m)\<lparr>mi_allow_connection := False\<rparr>"
  obtain r1 c1 h1 where sv: "save_device env c m ?info h = (r1, c1, h1)"
    by (metis prod_cases3)
  then have "keeps {m} c c1"
    by (rule keeps_save) auto
  moreover have "mac_mapper c' = mac_mapper c1"
    using assms sv
    by (auto simp: deny_mac_cmd_def Let_def split: prod.splits if_splits dest!: disconnect_device_table)
  ultimately show ?thesis
    by (rule keeps_then)
qed

lemma add_nat_cmd_keeps: "add_nat_cmd env c m h = (r, c', h') \<Longrightarrow> keeps {} c c'"
  by (auto simp: add_nat_cmd_def Let_def split: prod.splits if_splits
      dest!: add_nat_ip_table intro: keeps_same elim!: keeps_save)

lemma remove_nat_cmd_keeps: "remove_nat_cmd env c m h = (r, c', h') \<Longrightarrow> keeps {} c c'"
  by (auto simp: remove_nat_cmd_def Let_def split: prod.splits if_splits
      dest!: remove_nat_ip_table intro: keeps_same elim!: keeps_save)

lemma assign_psk_cmd_keeps: "assign_psk_cmd env c m p h = (r, c', h') \<Longrightarrow> keeps {} c c'"
  by (auto simp: assign_psk_cmd_def Let_def split: prod.splits elim!: keeps_save)

lemma clear_psk_cmd_keeps: "clear_psk_cmd env c m h = (r, c', h') \<Longrightarrow> keeps {} c c'"
  by (auto simp: clear_psk_cmd_def Let_def split: prod.splits elim!: keeps_save)

lemma assign_ip_allow:
  "assign_ip info ip ty = Inr (info', p) \<Longrightarrow> mi_allow_connection info' = mi_allow_connection info"
  by (auto simp: assign_ip_def Let_def split: DHCP_IP_TYPE.splits if_splits)

lemma set_ip_cmd_keeps:
  assumes "set_ip_cmd env c m ip ty h = (r, c', h')"
  shows "keeps {} c c'"
proof (cases "get_ifname_from_ip (config_ifinfo_array c) ip")
  case None
  with assms show ?thesis
    by (simp add: set_ip_cmd_def)
next
  case (Some ifn)
  show ?thesis
  proof (cases "assign_ip (device_info c m) ip ty")
    case (Inl x)
    with assms Some show ?thesis
      by (simp add: set_ip_cmd_def)
  next
    case (Inr y)
    obtain info p where y: "y = (info, p)"
      by (cases y)
    obtain r1 c1 h1 where sv: "save_device env c m (info\<lparr>mi_ifname := ifn\<rparr>) h = (r1, c1, h1)"
      by (metis prod_cases3)
    then have "keeps {} c c1"
      using Inr y assign_ip_allow by (intro keeps_save [OF sv]) auto
    moreover have "mac_mapper c' = mac_mapper c1"
      using assms Some Inr y sv
      by (auto simp: set_ip_cmd_def Let_def split: prod.splits if_splits
          dest!: add_nat_ip_table remove_nat_ip_table bridge_rules_loop_table)
    ultimately show ?thesis
      by (rule keeps_then)
  qed
qed

section \<open>Joining and events\<close>

lemma admit_keeps:
  assumes "admit env c1 m info h = (i, c', h')" and "mac_mapper c1 = mac_mapper c"
    and "map_of (mac_mapper c) m \<noteq> None \<Longrightarrow> mi_allow_connection info = mi_allow_connection (device_info c m)"
  shows "keeps {} c c'"
proof -
  obtain r2 c2 h2 where cap: "(if exec_capture c1 then schedule_analyser env c1 (mi_vlanid info) h
      else (0, c1, h)) = (r2, c2, h2)"
    by (metis prod_cases3)
  then have c2: "mac_mapper c2 = mac_mapper c"
    using assms(2) by (auto split: if_splits dest!: schedule_analyser_table)
  have sv: "keeps {} c c3" if "save_device env c2 m (info\<lparr>mi_join_timestamp := ts\<rparr>) h3 = (r3, c3, h4)" for ts h3 r3 c3 h4
  proof -
    have "keeps {} c2 c3"
      using assms(3) c2 by (intro keeps_save_device [OF that]) (auto simp: device_info_known)
    then show ?thesis
      using c2 by (simp add: keeps_def)
  qed
  show ?thesis
    using assms(1) cap c2 sv
    by (auto simp: admit_def save_device_vlan_def Let_def intro: keeps_same split: prod.splits if_splits)
qed

lemma get_mac_conn_cmd_denied:
  assumes "map_of (mac_mapper c) m = Some info" and "\<not> mi_allow_connection info"
  shows "\<exists>h'. get_mac_conn_cmd env c m h = (info\<lparr>mi_vlanid := - 1\<rparr>, c, h')"
  using assms by (auto simp: get_mac_conn_cmd_def get_mac_mapper_def Let_def split: prod.splits)

lemma get_mac_conn_cmd_keeps:
  assumes "get_mac_conn_cmd env c m h = (i, c', h')"
  shows "keeps {} c c'"
proof (cases "map_of (mac_mapper c) m")
  case None
  then have find: "get_mac_mapper (mac_mapper c) m d = (0, d)" for d
    by (simp add: get_mac_mapper_def)
  from assms show ?thesis
    by (auto simp: get_mac_conn_cmd_def find Let_def None split: prod.splits if_splits ticket_ptr.splits
        elim!: admit_keeps dest!: use_ticket_table)
next
  case (Some info)
  then have find: "get_mac_mapper (mac_mapper c) m d = (1, info)" for d
    by (simp add: get_mac_mapper_def)
  show ?thesis
  proof (cases "mi_allow_connection info")
    case False
    then show ?thesis
      using get_mac_conn_cmd_denied [OF Some False, of env h] assms by auto
  next
    case True
    have use: "mi_allow_connection i1 = mi_allow_connection i0" if "use_ticket c1 tk i0 h0 = (i1, c2, h2)" for c1 tk i0 h0 i1 c2 h2
      using that by (auto simp: use_ticket_def Let_def split: prod.splits)
    from assms True show ?thesis
      by (auto simp: get_mac_conn_cmd_def find Let_def device_info_known [OF Some]
          split: prod.splits if_splits ticket_ptr.splits
          elim!: admit_keeps dest: use_ticket_table use)
  qed
qed

lemma ap_service_callback_keeps:
  "ap_service_callback env c m st h = (c', h') \<Longrightarrow> keeps {} c c'"
  by (auto simp: ap_service_callback_def Let_def split: prod.splits option.splits
      elim!: keeps_save simp: device_info_known)

section \<open>Commands as they arrive\<close>

lemma send_reply_context [simp]: "send_reply env sock addr msg c h = (r, c', h') \<Longrightarrow> c' = c"
  by (auto simp: send_reply_def split: prod.splits)

lemma reply_code_context: "reply_code env sock addr res = (r, c', h') \<Longrightarrow> c' = fst (snd res)"
  by (cases res) (auto simp: reply_code_def)

lemma reply_code_keeps:
  assumes "reply_code env sock addr res = (r, c', h')"
    and "\<And>r1 c1 h1. res = (r1, c1, h1) \<Longrightarrow> keeps A c c1"
  shows "keeps A c c'"
  using assms reply_code_context [OF assms(1)] by (cases res) auto

text \<open>The devices whose permission a command may change.\<close>

definition permission_targets :: "string list \<Rightarrow> mac set" where
  "permission_targets args =
     (if args ! 0 = ''ACCEPT_MAC'' \<or> args ! 0 = ''DENY_MAC'' then set_option (cmd_mac args 1) else {})"

lemma process_accept_mac_cmd_keeps:
  "process_accept_mac_cmd env sock addr c args h = (r, c', h') \<Longrightarrow> keeps (set_option (cmd_mac args 1)) c c'"
  by (auto simp: process_accept_mac_cmd_def split: option.splits
      dest!: send_reply_context elim!: reply_code_keeps dest: accept_mac_cmd_keeps)

lemma process_deny_mac_cmd_keeps:
  "process_deny_mac_cmd env sock addr c args h = (r, c', h') \<Longrightarrow> keeps (set_option (cmd_mac args 1)) c c'"
  by (auto simp: process_deny_mac_cmd_def split: option.splits
      dest!: send_reply_context elim!: reply_code_keeps dest: deny_mac_cmd_keeps)

lemma process_table_cmds_keep:
  "process_add_nat_cmd env sock addr c args h = (r, c', h') \<Longrightarrow> keeps {} c c'"
  "process_remove_nat_cmd env sock addr c args h = (r, c', h') \<Longrightarrow> keeps {} c c'"
  "process_assign_psk_cmd env sock addr c args h = (r, c', h') \<Longrightarrow> keeps {} c c'"
  "process_clear_psk_cmd env sock addr c args h = (r, c', h') \<Longrightarrow> keeps {} c c'"
  "process_set_ip_cmd env sock addr c args h = (r, c', h') \<Longrightarrow> keeps {} c c'"
  by (auto simp: process_add_nat_cmd_def process_remove_nat_cmd_def process_assign_psk_cmd_def
      process_clear_psk_cmd_def process_set_ip_cmd_def Let_def split: option.splits if_splits prod.splits
      dest!: send_reply_context elim!: reply_code_keeps
      dest: add_nat_cmd_keeps remove_nat_cmd_keeps assign_psk_cmd_keeps clear_psk_cmd_keeps set_ip_cmd_keeps)

lemma process_other_cmds_keep:
  "process_ping_cmd env sock addr c args h = (r, c', h') \<Longrightarrow> keeps {} c c'"
  "process_subscribe_events_cmd env sock addr c args h = (r, c', h') \<Longrightarrow> keeps {} c c'"
  "process_get_map_cmd env sock addr c args h = (r, c', h') \<Longrightarrow> keeps {} c c'"
  "process_get_all_cmd env sock addr c args h = (r, c', h') \<Longrightarrow> keeps {} c c'"
  "process_get_bridges_cmd env sock addr c args h = (r, c', h') \<Longrightarrow> keeps {} c c'"
  by (auto simp: process_ping_cmd_def process_subscribe_events_cmd_def process_get_map_cmd_def
      process_get_all_cmd_def process_get_bridges_cmd_def Let_def split: option.splits if_splits prod.splits
      dest!: send_reply_context elim!: reply_code_keeps intro: keeps_same
      dest: subscribe_events_cmd_table)

lemma process_bridge_cmds_keep:
  "process_add_bridge_cmd env sock addr c args h = (r, c', h') \<Longrightarrow> keeps {} c c'"
  "process_remove_bridge_cmd env sock addr c args h = (r, c', h') \<Longrightarrow> keeps {} c c'"
  "process_clear_bridges_cmd env sock addr c args h = (r, c', h') \<Longrightarrow> keeps {} c c'"
  "process_register_ticket_cmd env sock addr c args h = (r, c', h') \<Longrightarrow> keeps {} c c'"
  by (auto simp: process_add_bridge_cmd_def process_remove_bridge_cmd_def process_clear_bridges_cmd_def
      process_register_ticket_cmd_def Let_def split: option.splits if_splits prod.splits
      dest!: send_reply_context register_ticket_cmd_table elim!: reply_code_keeps intro: keeps_same
      dest: add_bridge_mac_cmd_table add_bridge_ip_cmd_table remove_bridge_cmd_table clear_bridges_cmd_table)

lemmas process_cmds_keep =
  process_table_cmds_keep process_other_cmds_keep process_bridge_cmds_keep

lemma command_table_cases:
  assumes "get_command_function name = Some f"
  obtains (accept) "name = ''ACCEPT_MAC''" and "f = process_accept_mac_cmd"
    | (deny) "name = ''DENY_MAC''" and "f = process_deny_mac_cmd"
    | (other) "\<And>env sock addr c args h r c' h'. f env sock addr c args h = (r, c', h') \<Longrightarrow> keeps {} c c'"
proof -
  have "(name, f) \<in> set command_table"
    using assms by (simp only: get_command_function_def map_of_SomeD)
  then show thesis
    unfolding command_table_def list.set insert_iff empty_iff prod.inject
    using that by (elim disjE conjE FalseE) (simp_all only: process_cmds_keep)
qed

lemma command_keeps:
  assumes "get_command_function (args ! 0) = Some f" and run: "f env sock addr c args h = (r, c', h')"
  shows "keeps (permission_targets args) c c'"
  using assms(1)
proof (cases rule: command_table_cases)
  case accept
  then show ?thesis
    using run process_accept_mac_cmd_keeps by (simp add: permission_targets_def)
next
  case deny
  then show ?thesis
    using run process_deny_mac_cmd_keeps by (simp add: permission_targets_def)
next
  case other
  from other [OF run] show ?thesis
    by (rule keeps_mono) simp
qed

end
