(* ===== verification/Supervisor_Invariant.thy ===== *)
theory Supervisor_Invariant
  imports Supervisor_Frame
begin

text \<open>
  The invariant of the supervisor's state: the table of devices has no key twice, every text and
  every passphrase fits its array, and the list of bridges is well formed.  \<open>calm c c'\<close> says that
  a step keeps the invariant and leaves the ticket alone; every operation is calm except the two
  that make and free the ticket.
\<close>

section \<open>The invariant\<close>

definition info_ok :: "mac_conn_info \<Rightarrow> bool" where
  "info_ok i \<longleftrightarrow>
     length (mi_pass i) = AP_SECRET_LEN \<and> 0 \<le> mi_pass_len i \<and> mi_pass_len i \<le> int AP_SECRET_LEN \<and>
     length (mi_ip_addr i) < OS_INET_ADDRSTRLEN \<and> length (mi_ip_sec_addr i) < OS_INET_ADDRSTRLEN \<and>
     length (mi_ifname i) < IF_NAMESIZE \<and> length (mi_label i) < MAX_DEVICE_LABEL_SIZE \<and>
     length (mi_id i) < MAX_RANDOM_UUID_LEN"

definition ticket_ok :: "ticket_ptr \<Rightarrow> bool" where
  "ticket_ok t \<longleftrightarrow>
     (case t of
        Ticket_Null \<Rightarrow> True
      | Ticket_Live tk \<Rightarrow> length (tk_passphrase tk) = AP_SECRET_LEN \<and>
          tk_passphrase_len tk = int TICKET_PASSPHRASE_SIZE \<and> length (tk_device_label tk) < MAX_DEVICE_LABEL_SIZE
      | Ticket_Dangling tk \<Rightarrow> length (tk_passphrase tk) = AP_SECRET_LEN \<and>
          tk_passphrase_len tk = int TICKET_PASSPHRASE_SIZE \<and> length (tk_device_label tk) < MAX_DEVICE_LABEL_SIZE)"

definition table_ok :: "hmap_mac_conn \<Rightarrow> bool" where
  "table_ok hmap \<longleftrightarrow> distinct (map fst hmap) \<and> (\<forall>kv \<in> set hmap. info_ok (snd kv))"

definition ctx_ok :: "supervisor_context \<Rightarrow> bool" where
  "ctx_ok c \<longleftrightarrow>
     table_ok (mac_mapper c) \<and>
     (\<forall>kv \<in> set (vlan_mapper c). length (vc_ifname (snd kv)) < IF_NAMESIZE) \<and>
     (\<forall>p \<in> set (config_ifinfo_array c). length (ifi_ifname p) < IF_NAMESIZE) \<and>
     length (wpa_passphrase c) = AP_SECRET_LEN \<and>
     0 \<le> wpa_passphrase_len c \<and> wpa_passphrase_len c \<le> int AP_SECRET_LEN \<and>
     bl_wf (bridge_list c) \<and> ticket_ok (ticket c)"

definition calm :: "supervisor_context \<Rightarrow> supervisor_context \<Rightarrow> bool" where
  "calm c c' \<longleftrightarrow> (ctx_ok c \<longrightarrow> ctx_ok c' \<and> ticket c' = ticket c)"

lemma calm_refl [simp, intro]: "calm c c"
  by (simp add: calm_def)

lemma calm_trans: "calm c1 c2 \<Longrightarrow> calm c2 c3 \<Longrightarrow> calm c1 c3"
  by (simp add: calm_def)

lemma calm_update [simp, intro]:
  "calm c (c\<lparr>fw_ctx := fw\<rparr>)" "calm c (c\<lparr>ctrl_interface_path := p\<rparr>)" "calm c (c\<lparr>subscribers_array := s\<rparr>)"
  by (simp_all add: calm_def ctx_ok_def)

section \<open>Records of devices\<close>

lemma table_ok_update: "table_ok al \<Longrightarrow> info_ok i \<Longrightarrow> table_ok (AList.update k i al)"
proof -
  assume ok: "table_ok al" "info_ok i"
  have "set (AList.update k i al) \<subseteq> insert (k, i) (set al)"
    by (induction al) auto
  then show ?thesis
    using ok by (auto simp: table_ok_def distinct_update)
qed

lemma known_info_ok: "ctx_ok c \<Longrightarrow> map_of (mac_mapper c) m = Some i \<Longrightarrow> info_ok i"
  by (auto simp: ctx_ok_def table_ok_def dest: map_of_SomeD)

lemma default_info_ok: "info_ok (init_default_mac_info v n)"
  by (simp add: info_ok_def init_default_mac_info_def AP_SECRET_LEN_def OS_INET_ADDRSTRLEN_def
      IF_NAMESIZE_def MAX_DEVICE_LABEL_SIZE_def MAX_RANDOM_UUID_LEN_def)

lemma get_mac_mapper_ok:
  "ctx_ok c \<Longrightarrow> get_mac_mapper (mac_mapper c) m (init_default_mac_info v n) = (r, i) \<Longrightarrow> info_ok i"
  by (auto simp: get_mac_mapper_def default_info_ok split: option.splits dest: known_info_ok)

lemma device_info_ok: "ctx_ok c \<Longrightarrow> info_ok (device_info c m)"
  unfolding device_info_def by (rule get_mac_mapper_ok, assumption, rule prod.collapse [symmetric])

lemma info_ok_update [simp]:
  "info_ok (i\<lparr>mi_allow_connection := b\<rparr>) = info_ok i"
  "info_ok (i\<lparr>mi_vlanid := v\<rparr>) = info_ok i"
  "info_ok (i\<lparr>mi_nat := b\<rparr>) = info_ok i"
  "info_ok (i\<lparr>mi_status := n\<rparr>) = info_ok i"
  "info_ok (i\<lparr>mi_join_timestamp := ts\<rparr>) = info_ok i"
  by (simp_all add: info_ok_def)

lemma info_ok_text:
  "info_ok i \<Longrightarrow> length s < IF_NAMESIZE \<Longrightarrow> info_ok (i\<lparr>mi_ifname := s\<rparr>)"
  "info_ok i \<Longrightarrow> length s < OS_INET_ADDRSTRLEN \<Longrightarrow> info_ok (i\<lparr>mi_ip_addr := s\<rparr>)"
  "info_ok i \<Longrightarrow> length s < OS_INET_ADDRSTRLEN \<Longrightarrow> info_ok (i\<lparr>mi_ip_sec_addr := s\<rparr>)"
  "info_ok i \<Longrightarrow> length s < MAX_RANDOM_UUID_LEN \<Longrightarrow> info_ok (i\<lparr>mi_id := s\<rparr>)"
  by (simp_all add: info_ok_def)

lemma info_ok_pass:
  "info_ok i \<Longrightarrow> length p \<le> AP_SECRET_LEN \<Longrightarrow> 0 \<le> n \<Longrightarrow> n \<le> int AP_SECRET_LEN \<Longrightarrow>
   info_ok (i\<lparr>mi_pass := put_pass p (mi_pass i), mi_pass_len := n\<rparr>)"
  by (simp add: info_ok_def put_pass_def)

lemma save_device_calm:
  assumes "save_device env c m info h = (r, c', h')" and "ctx_ok c \<Longrightarrow> info_ok info"
  shows "calm c c'"
proof -
  have "info_ok (info\<lparr>mi_id := i\<rparr>)" if "info_ok info" "i = mi_id info \<or> length i \<le> 36" for i
    using that by (auto simp: info_ok_def MAX_RANDOM_UUID_LEN_def)
  then show ?thesis
    using save_device_table [OF assms(1)] assms(2) table_ok_update [of "mac_mapper c"]
    by (auto simp: calm_def ctx_ok_def)
qed

section \<open>Operations\<close>

named_theorems calm_ops \<open>operations that keep the invariant and the ticket\<close>

lemma disconnect_device_calm [calm_ops]: "disconnect_device env c s h = (r, c', h') \<Longrightarrow> calm c c'"
  by (auto simp: disconnect_device_def Let_def split: prod.splits)

lemma fw_ops_calm [calm_ops]:
  "add_nat_ip env c ip h = (r, c', h') \<Longrightarrow> calm c c'"
  "remove_nat_ip env c ip h = (r, c', h') \<Longrightarrow> calm c c'"
  "add_bridge_ip env c a b h = (r, c', h') \<Longrightarrow> calm c c'"
  "delete_bridge_ip env c a b h = (r, c', h') \<Longrightarrow> calm c c'"
  by (auto simp: add_nat_ip_def remove_nat_ip_def add_bridge_ip_def delete_bridge_ip_def Let_def
      split: prod.splits if_splits)

lemma bridge_pairs_calm:
  assumes "\<And>c a b h r c' h'. f c a b h = (r, c', h') \<Longrightarrow> calm c c'"
  shows "bridge_pairs f c ps h = (r, c', h') \<Longrightarrow> calm c c'"
proof (induction ps arbitrary: c h r)
  case (Cons p ps)
  obtain a b where p: "p = (a, b)"
    by (cases p)
  obtain r1 c1 h1 where f: "f c a b h = (r1, c1, h1)"
    by (metis prod_cases3)
  then have "calm c c1"
    by (rule assms)
  with Cons.IH [of c1 h1] Cons.prems f calm_trans [of c c1] show ?case
    by (auto simp: p split: if_splits)
qed simp

lemma bridge_pairs_calms [calm_ops]:
  "bridge_pairs (add_bridge_ip env) c ps h = (r, c', h') \<Longrightarrow> calm c c'"
  "bridge_pairs (delete_bridge_ip env) c ps h = (r, c', h') \<Longrightarrow> calm c c'"
  by (erule bridge_pairs_calm [rotated], erule fw_ops_calm)
     (erule bridge_pairs_calm [rotated], erule fw_ops_calm)

lemma bridge_list_calm [calm_ops]:
  "add_bridge_mac env (bridge_list c) a b h = (r, ml, h') \<Longrightarrow> calm c (c\<lparr>bridge_list := ml\<rparr>)"
  "remove_bridge_mac (bridge_list c) a b h = (r, ml, h') \<Longrightarrow> calm c (c\<lparr>bridge_list := ml\<rparr>)"
  by (auto simp: calm_def ctx_ok_def intro: add_wf remove_wf)

lemma add_bridge_mac_cmd_calm [calm_ops]: "add_bridge_mac_cmd env c a b h = (r, c', h') \<Longrightarrow> calm c c'"
  by (auto simp: add_bridge_mac_cmd_def Let_def split: prod.splits if_splits option.splits
      dest!: bridge_list_calm bridge_pairs_calms intro: calm_trans)

lemma add_bridge_ip_cmd_calm [calm_ops]: "add_bridge_ip_cmd env c a b h = (r, c', h') \<Longrightarrow> calm c c'"
  by (auto simp: add_bridge_ip_cmd_def Let_def split: prod.splits if_splits option.splits
      dest!: add_bridge_mac_cmd_calm)

lemma remove_bridge_cmd_calm [calm_ops]: "remove_bridge_cmd env c a b h = (r, c', h') \<Longrightarrow> calm c c'"
  by (auto simp: remove_bridge_cmd_def Let_def split: prod.splits if_splits option.splits
      dest!: bridge_list_calm bridge_pairs_calms intro: calm_trans)

lemma clear_bridges_loop_calm: "clear_bridges_loop env c m els h = (c', h') \<Longrightarrow> calm c c'"
  by (induction els arbitrary: c h)
     (auto split: prod.splits dest!: remove_bridge_cmd_calm intro: calm_trans)

lemma clear_bridges_cmd_calm [calm_ops]: "clear_bridges_cmd env c m h = (r, c', h') \<Longrightarrow> calm c c'"
  by (auto simp: clear_bridges_cmd_def Let_def split: prod.splits option.splits
      dest!: clear_bridges_loop_calm)

lemma subscribe_events_cmd_calm [calm_ops]: "subscribe_events_cmd c a h = (r, c', h') \<Longrightarrow> calm c c'"
  by (auto simp: subscribe_events_cmd_def split: prod.splits option.splits)

lemma bridge_rules_loop_calm [calm_ops]: "bridge_rules_loop env add ip c ms h = (r, c', h') \<Longrightarrow> calm c c'"
proof (induction ms arbitrary: c h r)
  case (Cons m ms)
  show ?case
  proof (cases "map_of (mac_mapper c) m")
    case None
    with Cons show ?thesis by auto
  next
    case (Some i)
    obtain r1 c1 h1 where b: "bridge_pairs (if add then add_bridge_ip env else delete_bridge_ip env) c
        [(ip, mi_ip_addr i), (ip, mi_ip_sec_addr i)] h = (r1, c1, h1)"
      by (metis prod_cases3)
    then have "calm c c1"
      by (cases add) (simp_all add: bridge_pairs_calms del: bridge_pairs.simps)
    with Cons.IH [of c1 h1] Cons.prems Some b calm_trans [of c c1] show ?thesis
      by (auto simp del: bridge_pairs.simps split: if_splits)
  qed
qed simp

lemma vlan_ok_update:
  assumes "\<forall>kv \<in> set hmap. length (vc_ifname (snd kv)) < IF_NAMESIZE" and "length (vc_ifname v) < IF_NAMESIZE"
  shows "\<forall>kv \<in> set (AList.update k v hmap). length (vc_ifname (snd kv)) < IF_NAMESIZE"
proof -
  have "set (AList.update k v hmap) \<subseteq> insert (k, v) (set hmap)"
    by (induction hmap) auto
  then show ?thesis using assms by auto
qed

lemma get_vlan_mapper_ok:
  "ctx_ok c \<Longrightarrow> get_vlan_mapper (vlan_mapper c) v = (r, Some vc) \<Longrightarrow> length (vc_ifname vc) < IF_NAMESIZE"
  by (auto simp: get_vlan_mapper_def ctx_ok_def split: option.splits dest!: map_of_SomeD)

lemma put_vlan_mapper_cases:
  "put_vlan_mapper env hmap vc h = (ok, hmap', h') \<Longrightarrow>
   hmap' = hmap \<or> hmap' = AList.update (vc_vlanid vc) vc hmap"
  by (auto simp: put_vlan_mapper_def Let_def update_absent split: option.splits if_splits prod.splits)

lemma schedule_analyser_calm [calm_ops]:
  assumes "schedule_analyser env c v h = (r, c', h')"
  shows "calm c c'"
proof -
  have "c' = c \<or> (\<exists>x vc pid. get_vlan_mapper (vlan_mapper c) v = (x, Some vc) \<and>
      (c' = c\<lparr>vlan_mapper := vlan_mapper c\<rparr> \<or>
       c' = c\<lparr>vlan_mapper := AList.update (vc_vlanid vc) (vc\<lparr>vc_capture_pid := pid\<rparr>) (vlan_mapper c)\<rparr>))"
    using assms by (auto simp: schedule_analyser_def Let_def split: prod.splits option.splits if_splits
        dest!: put_vlan_mapper_cases)
  then show ?thesis
  proof (elim disjE exE conjE)
    fix x vc pid
    assume gv: "get_vlan_mapper (vlan_mapper c) v = (x, Some vc)"
      and c': "c' = c\<lparr>vlan_mapper := AList.update (vc_vlanid vc) (vc\<lparr>vc_capture_pid := pid\<rparr>) (vlan_mapper c)\<rparr>"
    show "calm c c'"
      unfolding calm_def
    proof
      assume "ctx_ok c"
      then show "ctx_ok c' \<and> ticket c' = ticket c"
        using get_vlan_mapper_ok [OF _ gv] vlan_ok_update [of "vlan_mapper c" "vc\<lparr>vc_capture_pid := pid\<rparr>"]
        by (simp add: c' ctx_ok_def)
    qed
  qed simp_all
qed

section \<open>Commands\<close>

lemma deny_mac_cmd_calm [calm_ops]: "deny_mac_cmd env c m h = (r, c', h') \<Longrightarrow> calm c c'"
  by (auto simp: deny_mac_cmd_def Let_def device_info_ok split: prod.splits if_splits
      dest!: save_device_calm disconnect_device_calm intro: calm_trans)

lemma accept_mac_cmd_calm [calm_ops]:
  assumes "accept_mac_cmd env c m v h = (r, c', h')"
  shows "calm c c'"
proof -
  obtain x ovc where gv: "get_vlan_mapper (vlan_mapper c) v = (x, ovc)"
    by fastforce
  show ?thesis
  proof (cases ovc)
    case None
    with assms gv show ?thesis
      by (simp add: accept_mac_cmd_def Let_def)
  next
    case (Some vc)
    let ?info = "(device_info c m)\<lparr>mi_allow_connection := True, mi_vlanid := v, mi_ifname := vc_ifname vc\<rparr>"
    obtain r1 c1 h1 where sv: "save_device env c m ?info h = (r1, c1, h1)"
      by (metis prod_cases3)
    then have "calm c c1"
      using gv Some get_vlan_mapper_ok device_info_ok by (auto intro!: info_ok_text elim!: save_device_calm)
    moreover have "calm c1 c'"
      using assms sv Some gv
      by (auto simp: accept_mac_cmd_def Let_def split: prod.splits if_splits
          dest!: disconnect_device_calm intro: calm_trans)
    ultimately show ?thesis
      by (rule calm_trans)
  qed
qed

lemma nat_cmds_calm [calm_ops]:
  "add_nat_cmd env c m h = (r, c', h') \<Longrightarrow> calm c c'"
  "remove_nat_cmd env c m h = (r, c', h') \<Longrightarrow> calm c c'"
proof -
  have save: "calm c c3" if "save_device env c2 m ((device_info c m)\<lparr>mi_nat := b\<rparr>) h2 = (r3, c3, h3)" "calm c c2"
    for c2 b h2 r3 c3 h3
  proof -
    have "ctx_ok c \<Longrightarrow> calm c2 c3"
      using that(1) by (rule save_device_calm) (simp add: device_info_ok)
    then show ?thesis
      using that(2) by (auto simp: calm_def)
  qed
  show "add_nat_cmd env c m h = (r, c', h') \<Longrightarrow> calm c c'"
    by (auto simp: add_nat_cmd_def Let_def split: prod.splits if_splits
        dest!: fw_ops_calm intro: calm_trans elim!: save)
  show "remove_nat_cmd env c m h = (r, c', h') \<Longrightarrow> calm c c'"
    by (auto simp: remove_nat_cmd_def Let_def split: prod.splits if_splits
        dest!: fw_ops_calm intro: calm_trans elim!: save)
qed

lemma assign_psk_cmd_calm:
  "assign_psk_cmd env c m p h = (r, c', h') \<Longrightarrow> length p \<le> AP_SECRET_LEN \<Longrightarrow> calm c c'"
  by (auto simp: assign_psk_cmd_def Let_def device_info_ok bytes_of_string_def split: prod.splits
      elim!: save_device_calm intro!: info_ok_pass)

lemma clear_psk_cmd_calm [calm_ops]: "clear_psk_cmd env c m h = (r, c', h') \<Longrightarrow> calm c c'"
  by (auto simp: clear_psk_cmd_def Let_def info_ok_def dest: device_info_ok split: prod.splits
      elim!: save_device_calm)

lemma get_ifname_from_ip_ok:
  "ctx_ok c \<Longrightarrow> get_ifname_from_ip (config_ifinfo_array c) ip = Some n \<Longrightarrow> length n < IF_NAMESIZE"
proof -
  have "snd (find_ifinfo ps ip) = Some p \<Longrightarrow> p \<in> set ps" for ps p
    by (induction ps) (auto split: option.splits if_splits)
  then show "ctx_ok c \<Longrightarrow> get_ifname_from_ip (config_ifinfo_array c) ip = Some n \<Longrightarrow> length n < IF_NAMESIZE"
    by (force simp: get_ifname_from_ip_def ctx_ok_def split: prod.splits option.splits if_splits)
qed

lemma assign_ip_ok: "info_ok i \<Longrightarrow> assign_ip i ip ty = Inr (i', p) \<Longrightarrow> info_ok i'"
  by (auto simp: assign_ip_def Let_def OS_INET_ADDRSTRLEN_def split: DHCP_IP_TYPE.splits if_splits
      intro!: info_ok_text length_strlcpy)

lemma set_ip_cmd_calm [calm_ops]:
  assumes "set_ip_cmd env c m ip ty h = (r, c', h')"
  shows "calm c c'"
proof (cases "get_ifname_from_ip (config_ifinfo_array c) ip")
  case None
  with assms show ?thesis
    by (simp add: set_ip_cmd_def)
next
  case (Some ifn)
  show ?thesis
  proof (cases "assign_ip (device_info c m) ip ty")
    case (Inl x)
    with assms Some show ?thesis
      by (simp add: set_ip_cmd_def)
  next
    case (Inr y)
    obtain info p where y: "y = (info, p)"
      by (cases y)
    obtain r1 c1 h1 where sv: "save_device env c m (info\<lparr>mi_ifname := ifn\<rparr>) h = (r1, c1, h1)"
      by (metis prod_cases3)
    have "calm c c1"
      using get_ifname_from_ip_ok [OF _ Some] assign_ip_ok [OF device_info_ok Inr [unfolded y]]
      by (intro save_device_calm [OF sv] info_ok_text)
    moreover have "calm c1 c'"
      using assms Some Inr y sv
      by (auto simp: set_ip_cmd_def Let_def split: prod.splits if_splits
          dest!: fw_ops_calm bridge_rules_loop_calm intro: calm_trans)
    ultimately show ?thesis
      by (rule calm_trans)
  qed
qed

lemma ap_service_callback_calm [calm_ops]: "ap_service_callback env c m st h = (c', h') \<Longrightarrow> calm c c'"
  by (auto simp: ap_service_callback_def Let_def split: prod.splits option.splits
      elim!: save_device_calm dest: known_info_ok)

section \<open>Joining\<close>

lemma admit_calm:
  assumes "admit env c m info h = (i, c', h')" and "ctx_ok c \<Longrightarrow> info_ok info"
  shows "calm c c'"
proof -
  obtain r2 c2 h2 where cap: "(if exec_capture c then schedule_analyser env c (mi_vlanid info) h
      else (0, c, h)) = (r2, c2, h2)"
    by (metis prod_cases3)
  then have c2: "calm c c2"
    by (auto split: if_splits dest: schedule_analyser_calm)
  have sv: "calm c c3" if "save_device env c2 m (info\<lparr>mi_join_timestamp := ts\<rparr>) h3 = (r3, c3, h4)" for ts h3 r3 c3 h4
  proof -
    have "ctx_ok c \<Longrightarrow> calm c2 c3"
      using assms(2) by (intro save_device_calm [OF that]) simp
    with c2 show ?thesis
      by (auto simp: calm_def)
  qed
  show ?thesis
    using assms(1) cap c2 sv
    by (auto simp: admit_def save_device_vlan_def Let_def split: prod.splits if_splits)
qed

lemma admit_info_ok:
  "admit env c m info h = (i, c', h') \<Longrightarrow> info_ok info \<Longrightarrow> info_ok i"
  by (auto simp: admit_def save_device_vlan_def Let_def split: prod.splits if_splits)

lemma free_ticket_ok: "free_ticket c h = (c', h') \<Longrightarrow> ctx_ok c \<Longrightarrow> ctx_ok c' \<and> ticket c' = Ticket_Null"
  by (auto simp: free_ticket_def ctx_ok_def ticket_ok_def split: ticket_ptr.splits)

lemma use_ticket_ok:
  assumes "use_ticket c tk i h = (i', c', h')" and "ctx_ok c" and "info_ok i"
    and "ticket c = Ticket_Live tk \<or> ticket c = Ticket_Dangling tk"
  shows "info_ok i' \<and> ctx_ok c' \<and> ticket c' = Ticket_Null"
proof -
  have tk: "length (tk_passphrase tk) = AP_SECRET_LEN" "tk_passphrase_len tk = int TICKET_PASSPHRASE_SIZE"
    "length (tk_device_label tk) < MAX_DEVICE_LABEL_SIZE"
    using assms(2,4) by (auto simp: ctx_ok_def ticket_ok_def)
  show ?thesis
    using assms(1,2,3) tk
    by (auto simp: use_ticket_def Let_def info_ok_def put_pass_def TICKET_PASSPHRASE_SIZE_def AP_SECRET_LEN_def
        split: prod.splits dest: free_ticket_ok)
qed

lemma network_pass_ok:
  "ctx_ok c \<Longrightarrow> info_ok i \<Longrightarrow>
   info_ok (i\<lparr>mi_pass_len := wpa_passphrase_len c,
              mi_pass := put_pass (take (nat (wpa_passphrase_len c)) (wpa_passphrase c)) (mi_pass i)\<rparr>)"
  "ctx_ok c \<Longrightarrow> info_ok i \<Longrightarrow>
   info_ok (i\<lparr>mi_allow_connection := b, mi_vlanid := v, mi_pass_len := wpa_passphrase_len c,
              mi_pass := put_pass (take (nat (wpa_passphrase_len c)) (wpa_passphrase c)) (mi_pass i)\<rparr>)"
  by (auto simp: ctx_ok_def info_ok_def put_pass_def)

lemma configure_mac_info_ok:
  "ctx_ok c \<Longrightarrow> info_ok i \<Longrightarrow>
   info_ok (configure_mac_info i b v (wpa_passphrase_len c) (wpa_passphrase c) None)"
  using network_pass_ok(2) [of c i] by (simp add: configure_mac_info_def info_ok_def)

text \<open>
  A join keeps the invariant and returns a well formed record; the ticket stays, or it is used up.
\<close>

lemma get_mac_conn_cmd_ok:
  assumes run: "get_mac_conn_cmd env c m h = (i, c', h')" and ok: "ctx_ok c"
  shows "ctx_ok c' \<and> (ticket c' = ticket c \<or> ticket c' = Ticket_Null) \<and> info_ok i"
proof -
  obtain v h0 where v: "(if allocate_vlans c then allocate_vlan env c m VLAN_ALLOCATE_HASH 0 h
      else (default_open_vlanid c, h)) = (v, h0)"
    by (metis surj_pair)
  obtain f info where f: "get_mac_mapper (mac_mapper c) m (init_default_mac_info v (allow_all_nat c)) = (f, info)"
    by (metis surj_pair)
  have info: "info_ok info"
    using ok f by (rule get_mac_mapper_ok)
  have admit: "ctx_ok c2 \<and> ticket c2 = ticket c1 \<and> info_ok k"
    if "admit env c1 m j h1 = (k, c2, h2)" "info_ok j" "ctx_ok c1" for c1 j h1 k c2 h2
    using admit_calm [OF that(1)] admit_info_ok [OF that(1)] that(2,3) by (simp add: calm_def)
  note run' = run [unfolded get_mac_conn_cmd_def v f Let_def prod.case]
  show ?thesis
    using run' info ok
    by (auto simp: network_pass_ok configure_mac_info_ok split: if_splits ticket_ptr.splits prod.splits
        dest!: admit dest: use_ticket_ok)
qed

lemma register_ticket_cmd_ok:
  assumes "register_ticket_cmd env c m l v h = (r, c', h')" and "ctx_ok c"
    and "length l < MAX_DEVICE_LABEL_SIZE"
  shows "ctx_ok c'"
  using assms
  by (auto simp: register_ticket_cmd_def os_get_random_number_s_def Let_def ctx_ok_def ticket_ok_def
      TICKET_PASSPHRASE_SIZE_def AP_SECRET_LEN_def
      split: prod.splits if_splits option.splits dest: os_get_random_length)

section \<open>Commands as they arrive\<close>

lemma reply_code_calm:
  assumes "reply_code env sock addr res = (r, c', h')" and "\<And>r1 c1 h1. res = (r1, c1, h1) \<Longrightarrow> calm c c1"
  shows "calm c c'"
  using reply_code_context [OF assms(1)] assms(2) by (cases res) auto

lemma process_table_cmds_calm:
  "process_accept_mac_cmd env sock addr c args h = (r, c', h') \<Longrightarrow> calm c c'"
  "process_deny_mac_cmd env sock addr c args h = (r, c', h') \<Longrightarrow> calm c c'"
  "process_add_nat_cmd env sock addr c args h = (r, c', h') \<Longrightarrow> calm c c'"
  "process_remove_nat_cmd env sock addr c args h = (r, c', h') \<Longrightarrow> calm c c'"
  "process_assign_psk_cmd env sock addr c args h = (r, c', h') \<Longrightarrow> calm c c'"
  "process_clear_psk_cmd env sock addr c args h = (r, c', h') \<Longrightarrow> calm c c'"
  "process_set_ip_cmd env sock addr c args h = (r, c', h') \<Longrightarrow> calm c c'"
  by (auto simp: process_accept_mac_cmd_def process_deny_mac_cmd_def process_add_nat_cmd_def
      process_remove_nat_cmd_def process_assign_psk_cmd_def
      process_clear_psk_cmd_def process_set_ip_cmd_def Let_def split: option.splits if_splits prod.splits
      dest!: send_reply_context elim!: reply_code_calm dest: calm_ops assign_psk_cmd_calm)

lemma process_other_cmds_calm:
  "process_ping_cmd env sock addr c args h = (r, c', h') \<Longrightarrow> calm c c'"
  "process_subscribe_events_cmd env sock addr c args h = (r, c', h') \<Longrightarrow> calm c c'"
  "process_get_map_cmd env sock addr c args h = (r, c', h') \<Longrightarrow> calm c c'"
  "process_get_all_cmd env sock addr c args h = (r, c', h') \<Longrightarrow> calm c c'"
  "process_get_bridges_cmd env sock addr c args h = (r, c', h') \<Longrightarrow> calm c c'"
  "process_add_bridge_cmd env sock addr c args h = (r, c', h') \<Longrightarrow> calm c c'"
  "process_remove_bridge_cmd env sock addr c args h = (r, c', h') \<Longrightarrow> calm c c'"
  "process_clear_bridges_cmd env sock addr c args h = (r, c', h') \<Longrightarrow> calm c c'"
  by (auto simp: process_ping_cmd_def process_subscribe_events_cmd_def process_get_map_cmd_def
      process_get_all_cmd_def process_get_bridges_cmd_def process_add_bridge_cmd_def
      process_remove_bridge_cmd_def process_clear_bridges_cmd_def Let_def
      split: option.splits if_splits prod.splits
      dest!: send_reply_context elim!: reply_code_calm dest: calm_ops)

lemma process_register_ticket_cmd_ok:
  assumes "process_register_ticket_cmd env sock addr c args h = (r, c', h')" and "ctx_ok c"
  shows "ctx_ok c'"
proof -
  have fits: "length (strlcpy l MAX_DEVICE_LABEL_SIZE) < MAX_DEVICE_LABEL_SIZE" for l
    by (simp add: length_strlcpy MAX_DEVICE_LABEL_SIZE_def)
  show ?thesis
    using assms
    by (auto simp: process_register_ticket_cmd_def Let_def split: option.splits if_splits prod.splits
        dest!: send_reply_context dest: register_ticket_cmd_ok [OF _ _ fits])
qed

lemmas process_cmds_calm = process_table_cmds_calm process_other_cmds_calm

lemma command_table_calm:
  assumes "get_command_function name = Some f"
  obtains (register) "name = ''REGISTER_TICKET''" and "f = process_register_ticket_cmd"
    | (other) "\<And>env sock addr c args h r c' h'. f env sock addr c args h = (r, c', h') \<Longrightarrow> calm c c'"
proof -
  have "(name, f) \<in> set command_table"
    using assms by (simp only: get_command_function_def map_of_SomeD)
  then show thesis
    unfolding command_table_def list.set insert_iff empty_iff prod.inject
    using that by (elim disjE conjE FalseE) (simp_all only: process_cmds_calm)
qed

lemma dispatch_command_ok:
  assumes run: "dispatch_command env sock addr c args h = (r, c', h')" and "ctx_ok c"
  shows "ctx_ok c' \<and> (args ! 0 = ''REGISTER_TICKET'' \<or> ticket c' = ticket c)"
proof (cases "get_command_function (args ! 0)")
  case None
  with assms show ?thesis by (simp add: dispatch_command_def)
next
  case (Some f)
  then obtain r1 where f: "f env sock addr c args h = (r1, c', h')"
    using run by (auto simp: dispatch_command_def split: prod.splits)
  from Some show ?thesis
  proof (cases rule: command_table_calm)
    case register
    then show ?thesis
      using process_register_ticket_cmd_ok f assms(2) by auto
  next
    case other
    then show ?thesis
      using other [OF f] assms(2) by (simp add: calm_def)
  qed
qed

end
