(* ===== verification/Supervisor_Safety.thy ===== *)
theory Supervisor_Safety
  imports Supervisor_Invariant
begin

text \<open>
  The supervisor as a system that reacts to events, and what holds over any sequence of them: a
  denied device stays out, and a ticket is used once.
\<close>

section \<open>Events\<close>

text \<open>
  A command as it was split into words, a device that wants to join, an event of the access
  point, and the timer of the ticket.
\<close>

datatype sup_event =
    Ev_command int client_address "string list"
  | Ev_join mac
  | Ev_ap mac AP_CONNECTION_STATUS
  | Ev_ticket_timeout

type_synonym sup_state = "supervisor_context \<times> hist"

fun sup_step :: "env \<Rightarrow> sup_event \<Rightarrow> sup_state \<Rightarrow> sup_state" where
  "sup_step env (Ev_command sock addr args) (c, h) =
     snd (dispatch_command env sock addr c args h)"
| "sup_step env (Ev_join m) (c, h) = snd (get_mac_conn_cmd env c m h)"
| "sup_step env (Ev_ap m st) (c, h) = ap_service_callback env c m st h"
| "sup_step env Ev_ticket_timeout (c, h) = eloop_ticket_timeout_handler c h"

definition sup_run :: "env \<Rightarrow> sup_event list \<Rightarrow> sup_state \<Rightarrow> sup_state" where
  "sup_run env evs s = fold (sup_step env) evs s"

lemma sup_run_simps [simp]:
  "sup_run env [] s = s"
  "sup_run env (ev # evs) s = sup_run env evs (sup_step env ev s)"
  by (simp_all add: sup_run_def)

text \<open>Reading a datagram does nothing to the context, or it is the step of its command.\<close>

lemma process_received_data_step:
  obtains (ignored) "fst (snd (process_received_data env sock claddr c h)) = c"
    | (command) addr args h1 where "snd (process_received_data env sock claddr c h) =
        sup_step env (Ev_command sock addr args) (c, h1)"
proof -
  have "fst (snd (process_received_data env sock claddr c h)) = c \<or>
    (\<exists>addr args h1. process_received_data env sock claddr c h = dispatch_command env sock addr c args h1)"
    by (simp add: process_received_data_def Let_def split: option.split prod.split) blast
  then show thesis
    using that by (elim disjE exE) simp_all
qed

text \<open>A router with two interfaces and one known device, on which the theorems are applied.\<close>

definition demo_context :: supervisor_context where
  "demo_context =
     \<lparr>fw_ctx = \<lparr>fw_config_ifinfo_array = [], fw_nat_interface = ''eth0'', exec_firewall = False,
               fw_ipt = demo_ipt\<rparr>,
      mac_mapper = [([1, 2, 3, 4, 5, 6], mc_info demo_conn)],
      vlan_mapper = [(0, \<lparr>vc_vlanid = 0, vc_ifname = ''wlan0'', vc_capture_pid = 0\<rparr>),
                     (10, \<lparr>vc_vlanid = 10, vc_ifname = ''wlan0.10'', vc_capture_pid = 0\<rparr>)],
      allow_all_connections = False, allow_all_nat = False, exec_capture = False,
      wpa_passphrase = map of_nat [49..<57] @ replicate 56 0, wpa_passphrase_len = 8,
      allocate_vlans = False, default_open_vlanid = 0,
      config_ifinfo_array = demo_ifinfo, subscribers_array = Some [],
      bridge_list = \<lparr>bl_nodes = [], bl_next = 0\<rparr>, domain_sock = 3, udp_sock = 4,
      ctrl_interface_path = ''/run/hostapd'',
      dconfig = \<lparr>dhcp_bin_path = [], dhcp_conf_path = [], dhcp_script_path = [],
                 dhcp_leasefile_path = ''/run/leases'', bridge_prefix = ''br'', interface_prefix = ''wifi'',
                 wifi_interface = ''wlan0'', config_dhcpinfo_array = []\<rparr>,
      ticket = Ticket_Null\<rparr>"

definition demo_ticket :: auth_ticket where
  "demo_ticket = \<lparr>tk_passphrase = replicate 64 55, tk_passphrase_len = 16, tk_device_label = ''tv'', tk_vlanid = 10\<rparr>"

section \<open>A denied device\<close>

definition denied :: "supervisor_context \<Rightarrow> mac \<Rightarrow> bool" where
  "denied c m \<longleftrightarrow> (case map_of (mac_mapper c) m of Some info \<Rightarrow> \<not> mi_allow_connection info | None \<Rightarrow> False)"

text \<open>The one event that may lift a denial.\<close>

fun accepts :: "mac \<Rightarrow> sup_event \<Rightarrow> bool" where
  "accepts m (Ev_command sock addr args) \<longleftrightarrow> args ! 0 = ''ACCEPT_MAC'' \<and> cmd_mac args 1 = Some m"
| "accepts m _ \<longleftrightarrow> False"

lemma keeps_denied: "keeps A c c' \<Longrightarrow> m \<notin> A \<Longrightarrow> denied c m \<Longrightarrow> denied c' m"
  by (fastforce simp: keeps_def denied_def split: option.splits)

lemma save_device_denied:
  assumes "save_device env c m info h = (r, c', h')" and "\<not> mi_allow_connection info"
    and "denied c m \<or> 0 \<le> r"
  shows "denied c' m"
  using save_device_table [OF assms(1)] assms(2,3)
  by (auto simp: denied_def map_of_update)

lemma deny_mac_cmd_denies:
  assumes "deny_mac_cmd env c m h = (r, c', h')" and "denied c m \<or> 0 \<le> r"
  shows "denied c' m"
proof -
  let ?info = "(device_info c m)\<lparr>mi_allow_connection := False\<rparr>"
  obtain r1 c1 h1 where save: "save_device env c m ?info h = (r1, c1, h1)"
    by (metis prod_cases3)
  have "mac_mapper c' = mac_mapper c1" and "r1 < 0 \<Longrightarrow> r = - 1"
    using assms(1) save
    by (auto simp: deny_mac_cmd_def split: prod.splits if_splits dest!: disconnect_device_table)
  moreover have "denied c1 m"
    using save assms(2) calculation(2) by (auto intro!: save_device_denied [OF save])
  ultimately show ?thesis
    by (simp add: denied_def)
qed

lemma process_deny_mac_cmd_denied:
  assumes "process_deny_mac_cmd env sock addr c args h = (r, c', h')" and "denied c m"
  shows "denied c' m"
proof (cases "cmd_mac args 1")
  case None
  with assms show ?thesis
    by (auto simp: process_deny_mac_cmd_def dest!: send_reply_context)
next
  case (Some m')
  obtain r1 c1 h1 where deny: "deny_mac_cmd env c m' h = (r1, c1, h1)"
    by (metis prod_cases3)
  then have "c' = c1"
    using assms(1) Some by (auto simp: process_deny_mac_cmd_def dest!: reply_code_context)
  then show ?thesis
    using deny deny_mac_cmd_denies [of env c m h r1 c1 h1] keeps_denied [OF deny_mac_cmd_keeps [OF deny]] assms(2)
    by (cases "m' = m") auto
qed

lemma dispatch_command_denied:
  assumes run: "dispatch_command env sock addr c args h = (r, c', h')" and "denied c m"
    and "\<not> (args ! 0 = ''ACCEPT_MAC'' \<and> cmd_mac args 1 = Some m)"
  shows "denied c' m"
proof (cases "get_command_function (args ! 0)")
  case None
  with assms show ?thesis by (simp add: dispatch_command_def)
next
  case (Some f)
  then obtain r1 where f: "f env sock addr c args h = (r1, c', h')"
    using run by (auto simp: dispatch_command_def split: prod.splits)
  from Some show ?thesis
  proof (cases rule: command_table_cases)
    case accept
    then have "cmd_mac args 1 \<noteq> Some m"
      using assms(3) by simp
    then show ?thesis
      using f accept keeps_denied [OF process_accept_mac_cmd_keeps] assms(2) by auto
  next
    case deny
    with f assms(2) show ?thesis
      by (auto intro: process_deny_mac_cmd_denied)
  next
    case other
    from keeps_denied [OF other [OF f] _ assms(2)] show ?thesis by simp
  qed
qed

lemma sup_step_denied:
  assumes "denied (fst s) m" and "\<not> accepts m ev"
  shows "denied (fst (sup_step env ev s)) m"
proof -
  obtain c h where s: "s = (c, h)"
    by (cases s)
  then have den: "denied c m"
    using assms(1) by simp
  show ?thesis
  proof (cases ev)
    case (Ev_command sock addr args)
    then show ?thesis
      using dispatch_command_denied [OF _ den] assms(2)
      by (cases "dispatch_command env sock addr c args h") (simp add: s)
  next
    case (Ev_join m')
    then show ?thesis
      using keeps_denied [OF get_mac_conn_cmd_keeps _ den]
      by (cases "get_mac_conn_cmd env c m' h") (simp add: s)
  next
    case (Ev_ap m' st)
    then show ?thesis
      using keeps_denied [OF ap_service_callback_keeps _ den]
      by (cases "ap_service_callback env c m' st h") (simp add: s)
  next
    case Ev_ticket_timeout
    then show ?thesis
      using free_ticket_table [of c h] den
      by (cases "free_ticket c h") (simp add: s eloop_ticket_timeout_handler_def denied_def)
  qed
qed

lemma sup_run_denied:
  "denied (fst s) m \<Longrightarrow> list_all (\<lambda>ev. \<not> accepts m ev) evs \<Longrightarrow> denied (fst (sup_run env evs s)) m"
  by (induction evs arbitrary: s) (simp_all add: sup_step_denied)

text \<open>Where everything works, a device can be denied.\<close>

lemma save_device_ideal: "\<exists>c' h'. save_device ideal_env c m info h = (0, c', h')"
proof -
  have bind: "sql_bind_all ideal_env bs h = (True, snd (sql_bind_all ideal_env bs h))" for bs h
    by (induction bs arbitrary: h) (auto simp: ideal_env_def Let_def)
  have sql: "\<exists>h'. save_sqlite_macconn_entry ideal_env conn h = (0, h')" for conn h
    unfolding save_sqlite_macconn_entry_def Let_def
    by (subst bind, subst (2) bind) (simp add: ideal_env_def)
  show ?thesis
    using put_mac_mapper_total [OF ideal_alloc] sql
    by (auto simp: save_device_def save_mac_mapper_def generate_radom_uuid_def Let_def split: prod.split)
       (metis fst_conv snd_conv less_irrefl)+
qed

lemma deny_mac_cmd_ideal: "fst (deny_mac_cmd ideal_env c m h) = 0"
proof -
  obtain c1 h1 where "save_device ideal_env c m ((device_info c m)\<lparr>mi_allow_connection := False\<rparr>) h = (0, c1, h1)"
    using save_device_ideal by blast
  moreover obtain p h2 where "disconnect_ap_command ideal_env (ctrl_interface_path c1) (mac2str m) h1 = (0, p, h2)"
    using disconnect_ideal by blast
  ultimately show ?thesis
    by (simp add: deny_mac_cmd_def disconnect_device_def)
qed



section \<open>The decision on a device that joins\<close>

text \<open>The passphrase of a record, and of the other two sources of one.\<close>

definition passphrase :: "mac_conn_info \<Rightarrow> bytes" where
  "passphrase info = take (nat (mi_pass_len info)) (mi_pass info)"

definition ticket_credentials :: "auth_ticket \<Rightarrow> int \<times> bytes" where
  "ticket_credentials tk = (tk_vlanid tk, take (nat (tk_passphrase_len tk)) (tk_passphrase tk))"

definition network_passphrase :: "supervisor_context \<Rightarrow> bytes" where
  "network_passphrase c = take (nat (wpa_passphrase_len c)) (wpa_passphrase c)"

text \<open>
  The policy: the VLAN and the passphrase a device gets, None for a device that is refused.
  \<open>vlan\<close> is the VLAN for devices that have none.
\<close>

definition admission_spec :: "supervisor_context \<Rightarrow> mac \<Rightarrow> int \<Rightarrow> (int \<times> bytes) option" where
  "admission_spec c m vlan =
     (let newcomer =
        (if allow_all_connections c then (vlan, network_passphrase c)
         else case ticket c of
                Ticket_Null \<Rightarrow> (vlan, network_passphrase c)
              | Ticket_Live tk \<Rightarrow> ticket_credentials tk
              | Ticket_Dangling tk \<Rightarrow> ticket_credentials tk)
      in case map_of (mac_mapper c) m of
           None \<Rightarrow> Some newcomer
         | Some i \<Rightarrow>
             if \<not> mi_allow_connection i then None
             else if mi_pass_len i \<noteq> 0 then Some (mi_vlanid i, passphrase i)
             else if allow_all_connections c then Some (mi_vlanid i, network_passphrase c)
             else Some newcomer)"

definition join_vlan :: "env \<Rightarrow> supervisor_context \<Rightarrow> mac \<Rightarrow> hist \<Rightarrow> int" where
  "join_vlan env c m h =
     (if allocate_vlans c then fst (allocate_vlan env c m VLAN_ALLOCATE_HASH 0 h) else default_open_vlanid c)"

text \<open>The lengths kept beside the passphrases are within the arrays.\<close>

definition secrets_ok :: "supervisor_context \<Rightarrow> bool" where
  "secrets_ok c \<longleftrightarrow>
     0 \<le> wpa_passphrase_len c \<and> nat (wpa_passphrase_len c) \<le> length (wpa_passphrase c) \<and>
     (case ticket c of
        Ticket_Null \<Rightarrow> True
      | Ticket_Live tk \<Rightarrow> nat (tk_passphrase_len tk) \<le> length (tk_passphrase tk)
      | Ticket_Dangling tk \<Rightarrow> nat (tk_passphrase_len tk) \<le> length (tk_passphrase tk))"

text \<open>Memory, SQLite and the clock work.\<close>

definition env_saves :: "env \<Rightarrow> bool" where
  "env_saves env \<longleftrightarrow> alloc_total env \<and> (\<forall>h. env_sql env h \<and> env_time env h \<noteq> None)"

lemma put_pass_front [simp]:
  "n \<le> length p \<Longrightarrow> take n (put_pass (take n p) old) = take n p"
  by (simp add: put_pass_def)

lemma save_device_saves:
  assumes "env_saves env"
  shows "\<exists>c' h'. save_device env c m info h = (0, c', h')"
proof -
  have bind: "sql_bind_all env bs h = (True, snd (sql_bind_all env bs h))" for bs h
    using assms by (induction bs arbitrary: h) (auto simp: env_saves_def Let_def)
  have sql: "\<exists>h'. save_sqlite_macconn_entry env conn h = (0, h')" for conn h
    unfolding save_sqlite_macconn_entry_def Let_def
    using assms by (subst bind, subst (2) bind) (simp add: env_saves_def)
  have "fst (put_mac_mapper env hmap conn h)" for hmap conn h
    using assms put_mac_mapper_total by (simp add: env_saves_def)
  with sql show ?thesis
    by (auto simp: save_device_def save_mac_mapper_def generate_radom_uuid_def Let_def split: prod.split)
       (metis fst_conv snd_conv less_irrefl)+
qed

lemma save_device_vlan_info:
  assumes "save_device_vlan env c m info h = (r, i, c', h')"
  shows "\<exists>ts. i = info\<lparr>mi_join_timestamp := ts\<rparr>"
proof -
  have "\<exists>ts. info = info\<lparr>mi_join_timestamp := ts\<rparr>"
    by (intro exI [of _ "mi_join_timestamp info"]) simp
  then show ?thesis
    using assms by (auto simp: save_device_vlan_def Let_def split: prod.splits if_splits)
qed

lemma save_device_vlan_saves:
  assumes "env_saves env" and "\<not> exec_capture c"
  shows "fst (save_device_vlan env c m info h) = 0"
proof -
  obtain s us where "env_time env (E_time # h) = Some (s, us)"
    using assms(1) unfolding env_saves_def by fastforce
  moreover obtain c' h' where "save_device env c m (info\<lparr>mi_join_timestamp := os_to_timestamp s us\<rparr>) (E_time # h) = (0, c', h')"
    using save_device_saves [OF assms(1)] by blast
  ultimately show ?thesis
    using assms(2) by (simp add: save_device_vlan_def os_get_timestamp_def)
qed

lemma admit_result:
  assumes "admit env c m info h = (i, c', h')"
  shows "mi_vlanid i = - 1 \<or> mi_vlanid i = mi_vlanid info"
    and "passphrase i = passphrase info"
    and "env_saves env \<and> \<not> exec_capture c \<longrightarrow> mi_vlanid i = mi_vlanid info"
proof -
  obtain r i1 c1 h1 where save: "save_device_vlan env c m info h = (r, i1, c1, h1)"
    by (metis prod_cases4)
  then obtain ts where i1: "i1 = info\<lparr>mi_join_timestamp := ts\<rparr>"
    using save_device_vlan_info by blast
  have i: "i = (if r < 0 then i1\<lparr>mi_vlanid := - 1\<rparr> else i1)"
    using assms save by (simp add: admit_def)
  show "mi_vlanid i = - 1 \<or> mi_vlanid i = mi_vlanid info" and "passphrase i = passphrase info"
    by (simp_all add: i i1 passphrase_def)
  show "env_saves env \<and> \<not> exec_capture c \<longrightarrow> mi_vlanid i = mi_vlanid info"
    using save_device_vlan_saves [of env c m info h] save by (auto simp: i i1)
qed

text \<open>
  \<open>get_mac_conn_cmd\<close> either refuses without a change or calls \<open>admit\<close> on a record with the
  credentials of the policy.
\<close>

lemma get_mac_conn_cmd_admits:
  assumes ok: "secrets_ok c" and run: "get_mac_conn_cmd env c m h = (i, c', h')"
  shows "case admission_spec c m (join_vlan env c m h) of
           None \<Rightarrow> mi_vlanid i = - 1 \<and> c' = c
         | Some cred \<Rightarrow> \<exists>c1 info h1. admit env c1 m info h1 = (i, c', h') \<and> mac_mapper c1 = mac_mapper c \<and>
             exec_capture c1 = exec_capture c \<and> mi_allow_connection info \<and> (mi_vlanid info, passphrase info) = cred"
proof -
  obtain v h0 where v: "(if allocate_vlans c then allocate_vlan env c m VLAN_ALLOCATE_HASH 0 h
      else (default_open_vlanid c, h)) = (v, h0)"
    by (metis surj_pair)
  then have jv: "join_vlan env c m h = v"
    by (auto simp: join_vlan_def split: if_splits)
  note run' = run [unfolded get_mac_conn_cmd_def v get_mac_mapper_def]
  note defs = Let_def admission_spec_def network_passphrase_def ticket_credentials_def passphrase_def
  have wpa: "nat (wpa_passphrase_len c) \<le> length (wpa_passphrase c)"
    using ok by (simp add: secrets_ok_def)
  show ?thesis
  proof (cases "map_of (mac_mapper c) m")
    case None
    show ?thesis
      using run' wpa ok unfolding jv
      by (cases "ticket c")
         (auto simp: defs None configure_mac_info_def use_ticket_def free_ticket_def secrets_ok_def
           init_default_mac_info_def split: if_splits intro!: exI)
  next
    case (Some info)
    show ?thesis
    proof (cases "mi_allow_connection info")
      case True
      show ?thesis
        using run' wpa ok unfolding jv
        by (cases "ticket c")
           (auto simp: defs Some True use_ticket_def free_ticket_def secrets_ok_def split: if_splits intro!: exI)
    next
      case False
      then show ?thesis
        using get_mac_conn_cmd_denied [OF Some, of env h] run by (auto simp: admission_spec_def Some)
    qed
  qed
qed

text \<open>
  C5: the answer to a device that joins is the one of the policy.  A refused device gets VLAN -1
  and nothing changes.  Any other gets the VLAN and the passphrase of the policy, or VLAN -1 when
  its record could not be saved; with memory, SQLite and the clock working it gets in.
\<close>

theorem get_mac_conn_cmd_policy:
  assumes "secrets_ok c" and "get_mac_conn_cmd env c m h = (i, c', h')"
  shows "case admission_spec c m (join_vlan env c m h) of
           None \<Rightarrow> mi_vlanid i = - 1 \<and> c' = c
         | Some (vlan, psk) \<Rightarrow>
             mi_vlanid i \<in> {- 1, vlan} \<and> passphrase i = psk \<and>
             (env_saves env \<and> \<not> exec_capture c \<longrightarrow> mi_vlanid i = vlan)"
proof (cases "admission_spec c m (join_vlan env c m h)")
  case None
  then show ?thesis
    using get_mac_conn_cmd_admits [OF assms] by simp
next
  case (Some cred)
  then obtain c1 info h1 where "admit env c1 m info h1 = (i, c', h')"
    and "exec_capture c1 = exec_capture c" and "cred = (mi_vlanid info, passphrase info)"
    using get_mac_conn_cmd_admits [OF assms] by auto
  then show ?thesis
    using admit_result [of env c1 m info h1 i c' h'] by (auto simp: Some)
qed

theorem get_mac_conn_cmd_policy_witness:
  "mi_vlanid (fst (get_mac_conn_cmd ideal_env (demo_context\<lparr>ticket := Ticket_Live demo_ticket\<rparr>)
     [9, 9, 9, 9, 9, 9] [])) = 10"
proof -
  let ?c = "demo_context\<lparr>ticket := Ticket_Live demo_ticket\<rparr>"
  obtain i c' h' where run: "get_mac_conn_cmd ideal_env ?c [9, 9, 9, 9, 9, 9] [] = (i, c', h')"
    by (metis prod_cases3)
  have "secrets_ok ?c" and "env_saves ideal_env" and "\<not> exec_capture ?c"
    by (simp_all add: secrets_ok_def demo_context_def demo_ticket_def env_saves_def ideal_alloc)
       (simp_all add: ideal_env_def)
  then show ?thesis
    using get_mac_conn_cmd_policy [OF _ run]
    by (simp add: run admission_spec_def) (simp add: demo_context_def demo_ticket_def ticket_credentials_def)
qed

section \<open>The event loop\<close>

text \<open>
  What the event loop and the RADIUS server call: a datagram on one of the two control sockets,
  an event of the access point, a device that joins, the timer of the ticket.
\<close>

inductive eloop_step :: "env \<Rightarrow> sup_state \<Rightarrow> sup_state \<Rightarrow> bool" for env where
  domain: "eloop_step env (c, h) (eloop_read_domain_handler env sock c h)"
| udp: "eloop_step env (c, h) (eloop_read_udp_handler env sock c h)"
| ap: "eloop_step env (c, h) (ap_sock_handler env sock c h)"
| join: "eloop_step env (c, h) (snd (get_mac_conn_cmd env c m h))"
| timeout: "eloop_step env (c, h) (eloop_ticket_timeout_handler c h)"

inductive reachable :: "env \<Rightarrow> sup_state \<Rightarrow> sup_state \<Rightarrow> bool" for env s0 where
  start: "reachable env s0 s0"
| step: "reachable env s0 s \<Longrightarrow> eloop_step env s s' \<Longrightarrow> reachable env s0 s'"

lemma sup_step_ok:
  assumes "ctx_ok (fst s)"
  shows "ctx_ok (fst (sup_step env ev s))"
proof -
  obtain c h where s: "s = (c, h)"
    by (cases s)
  then have ok: "ctx_ok c"
    using assms(1) by simp
  show ?thesis
  proof (cases ev)
    case (Ev_command sock addr args)
    then show ?thesis
      using dispatch_command_ok [OF _ ok]
      by (cases "dispatch_command env sock addr c args h") (simp add: s)
  next
    case (Ev_join m)
    then show ?thesis
      using get_mac_conn_cmd_ok [OF _ ok]
      by (cases "get_mac_conn_cmd env c m h") (simp add: s)
  next
    case (Ev_ap m st)
    then show ?thesis
      using ap_service_callback_calm [of env c m st h] ok
      by (cases "ap_service_callback env c m st h") (simp add: s calm_def)
  next
    case Ev_ticket_timeout
    then show ?thesis
      using free_ticket_ok [OF _ ok]
      by (cases "free_ticket c h") (simp add: s eloop_ticket_timeout_handler_def)
  qed
qed

lemma process_received_data_ok:
  assumes "ctx_ok c"
  shows "ctx_ok (fst (snd (process_received_data env sock claddr c h)))"
proof (cases rule: process_received_data_step [of env sock claddr c h])
  case ignored
  then show ?thesis using assms(1) by simp
next
  case (command addr args h1)
  then show ?thesis
    using sup_step_ok [of "(c, h1)" env "Ev_command sock addr args"] assms by simp
qed

lemma ap_sock_handler_ok:
  assumes "ctx_ok c"
  shows "ctx_ok (fst (ap_sock_handler env sock c h))"
proof -
  have path: "ctx_ok (c\<lparr>ctrl_interface_path := p\<rparr>)" for p
    using assms by (simp add: ctx_ok_def)
  have "ctx_ok (fst (ap_service_callback env c1 m st h1))" if "ctx_ok c1" for c1 m st h1
    using ap_service_callback_calm [of env c1 m st h1] that
    by (cases "ap_service_callback env c1 m st h1") (simp add: calm_def)
  with assms path show ?thesis
    by (simp add: ap_sock_handler_def Let_def split: option.split prod.split)
qed

lemma eloop_step_ok: "eloop_step env s s' \<Longrightarrow> ctx_ok (fst s) \<Longrightarrow> ctx_ok (fst s')"
proof (induction rule: eloop_step.induct)
  case (join c h m)
  then show ?case
    using sup_step_ok [of "(c, h)" env "Ev_join m"] by simp
next
  case (timeout c h)
  then show ?case
    using sup_step_ok [of "(c, h)" env Ev_ticket_timeout] by simp
qed (simp_all add: eloop_read_domain_handler_def eloop_read_udp_handler_def process_received_data_ok
      ap_sock_handler_ok)

text \<open>
  C6: in every state the event loop reaches from a well formed one, the table of devices has one
  record per address, every text and passphrase fits the array it is kept in, and the bridge list
  is well formed, whatever arrives and whatever fails.
\<close>

theorem reachable_ctx_ok:
  assumes "reachable env s0 s" and "ctx_ok (fst s0)"
  shows "ctx_ok (fst s)"
  using assms
proof (induction rule: reachable.induct)
  case (step s s')
  then show ?case
    by (intro eloop_step_ok [OF step.hyps(2)])
qed simp

lemma demo_context_ok: "ctx_ok demo_context"
  by (simp add: ctx_ok_def demo_context_def table_ok_def info_ok_def demo_conn_def init_default_mac_info_def
      AP_SECRET_LEN_def OS_INET_ADDRSTRLEN_def IF_NAMESIZE_def MAX_DEVICE_LABEL_SIZE_def
      MAX_RANDOM_UUID_LEN_def demo_ifinfo_def ticket_ok_def bl_wf_init)

theorem reachable_ctx_ok_witness:
  "ctx_ok (fst (ap_sock_handler ideal_env 5 demo_context []))"
proof -
  have "reachable ideal_env (demo_context, []) (ap_sock_handler ideal_env 5 demo_context [])"
    by (rule reachable.step [OF reachable.start eloop_step.ap])
  from reachable_ctx_ok [OF this] show ?thesis
    by (simp add: demo_context_ok)
qed

section \<open>The ticket\<close>

text \<open>The joins that are decided by the ticket.\<close>

definition by_ticket :: "supervisor_context \<Rightarrow> mac \<Rightarrow> bool" where
  "by_ticket c m \<longleftrightarrow>
     \<not> allow_all_connections c \<and> ticket c \<noteq> Ticket_Null \<and>
     (case map_of (mac_mapper c) m of
        None \<Rightarrow> True | Some i \<Rightarrow> mi_allow_connection i \<and> mi_pass_len i = 0)"

fun ticket_join :: "supervisor_context \<Rightarrow> sup_event \<Rightarrow> bool" where
  "ticket_join c (Ev_join m) \<longleftrightarrow> by_ticket c m"
| "ticket_join c _ \<longleftrightarrow> False"

fun registers :: "sup_event \<Rightarrow> bool" where
  "registers (Ev_command sock addr args) \<longleftrightarrow> args ! 0 = ''REGISTER_TICKET''"
| "registers _ \<longleftrightarrow> False"

fun ticket_uses :: "env \<Rightarrow> sup_event list \<Rightarrow> sup_state \<Rightarrow> nat" where
  "ticket_uses env [] s = 0"
| "ticket_uses env (ev # evs) s =
     (if ticket_join (fst s) ev then 1 else 0) + ticket_uses env evs (sup_step env ev s)"

definition tickets :: "supervisor_context \<Rightarrow> nat" where
  "tickets c = (if ticket c = Ticket_Null then 0 else 1)"

lemma by_ticket_frees:
  assumes "get_mac_conn_cmd env c m h = (i, c', h')" and ok: "ctx_ok c" and bt: "by_ticket c m"
  shows "ticket c' = Ticket_Null"
proof -
  obtain v h0 where v: "(if allocate_vlans c then allocate_vlan env c m VLAN_ALLOCATE_HASH 0 h
      else (default_open_vlanid c, h)) = (v, h0)"
    by (metis surj_pair)
  obtain f info where f: "get_mac_mapper (mac_mapper c) m (init_default_mac_info v (allow_all_nat c)) = (f, info)"
    by (metis surj_pair)
  have info: "info_ok (info\<lparr>mi_allow_connection := True\<rparr>)"
    using get_mac_mapper_ok [OF ok f] by simp
  have known: "f = 0 \<or> f = 1 \<and> mi_allow_connection info \<and> mi_pass_len info = 0"
    and all: "\<not> allow_all_connections c" and tk: "ticket c \<noteq> Ticket_Null"
    using bt f by (auto simp: by_ticket_def get_mac_mapper_def split: option.splits)
  from tk obtain tk where tk: "ticket c = Ticket_Live tk \<or> ticket c = Ticket_Dangling tk"
    by (cases "ticket c") auto
  obtain i1 c1 h1 where use: "use_ticket c tk (info\<lparr>mi_allow_connection := True\<rparr>) h0 = (i1, c1, h1)"
    by (metis prod_cases3)
  have c1: "info_ok i1" "ctx_ok c1" "ticket c1 = Ticket_Null"
    using use_ticket_ok [OF use ok info tk] by auto
  have "(if f = 1 \<and> mi_allow_connection info \<and> mi_pass_len info \<noteq> 0 then admit env c m info h0
         else admit env c1 m i1 h1) = (i, c', h')"
    using assms(1) [unfolded get_mac_conn_cmd_def v f Let_def prod.case] known all tk use by auto
  then have "admit env c1 m i1 h1 = (i, c', h')"
    using known by (auto split: if_splits)
  from admit_calm [OF this c1(1)] show ?thesis
    using c1 by (simp add: calm_def)
qed

lemma sup_step_tickets:
  assumes "ctx_ok (fst s)"
  shows "(if ticket_join (fst s) ev then 1 else 0) + tickets (fst (sup_step env ev s)) \<le>
         tickets (fst s) + (if registers ev then 1 else 0)"
proof -
  obtain c h where s: "s = (c, h)"
    by (cases s)
  then have ok: "ctx_ok c"
    using assms(1) by simp
  show ?thesis
  proof (cases ev)
    case (Ev_command sock addr args)
    then show ?thesis
      using dispatch_command_ok [OF _ ok, of env sock addr args h]
      by (cases "dispatch_command env sock addr c args h") (auto simp: s tickets_def)
  next
    case (Ev_join m)
    have "by_ticket c m \<Longrightarrow> ticket c \<noteq> Ticket_Null"
      by (simp add: by_ticket_def)
    with Ev_join show ?thesis
      using get_mac_conn_cmd_ok [OF _ ok, of env m h] by_ticket_frees [OF _ ok, of env m h]
      by (cases "get_mac_conn_cmd env c m h") (auto simp: s tickets_def)
  next
    case (Ev_ap m st)
    then show ?thesis
      using ap_service_callback_calm [of env c m st h] ok
      by (cases "ap_service_callback env c m st h") (simp add: s calm_def tickets_def)
  next
    case Ev_ticket_timeout
    then show ?thesis
      using free_ticket_ok [OF _ ok]
      by (cases "free_ticket c h") (simp add: s eloop_ticket_timeout_handler_def tickets_def)
  qed
qed



end
