(* ===== verification/Radius_Server.thy ===== *)
theory Radius_Server
  imports Radius_Keys Supervisor_Safety
begin

text \<open>
  radius/radius_server.c and radius_service.c: the RADIUS server that the access point asks about
  every device that wants to join.  \<open>run_radius\<close> of runctl.c installs \<open>get_mac_conn_cmd\<close> of the
  supervisor as the callback of its one client.  A pointer to a client is its index in the list of
  the server, a pointer to a session is a number of its own; IPv4 addresses are in host order.
\<close>

unbundle bit_operations_syntax

section \<open>State\<close>

record radius_server_counters =
  access_requests :: u32
  invalid_requests :: u32
  dup_access_requests :: u32
  access_accepts :: u32
  access_rejects :: u32
  malformed_access_requests :: u32
  bad_authenticators :: u32
  unknown_types :: u32

text \<open>\<open>rs_timer\<close> tells that the timeout of the session is registered.\<close>

record radius_session =
  rs_ptr :: nat
  rs_sess_id :: u32
  rs_username :: string
  rs_nas_ip :: string
  rs_mac_addr :: mac
  rs_last_from_port :: int
  rs_last_identifier :: u8
  rs_last_reply :: "radius_msg option"
  rs_last_authenticator :: bytes
  rs_timer :: bool

record radius_client =
  rc_addr :: u32
  rc_mask :: u32
  rc_shared_secret :: bytes
  rc_sessions :: "radius_session list"
  rc_counters :: radius_server_counters

text \<open>\<open>sd_next_ptr\<close> is the address the next session gets.\<close>

record radius_server_data =
  sd_auth_sock :: int
  sd_clients :: "radius_client list"
  sd_next_sess_id :: u32
  sd_num_sess :: int
  sd_counters :: radius_server_counters
  sd_next_ptr :: nat

definition RADIUS_SESSION_TIMEOUT :: nat where "RADIUS_SESSION_TIMEOUT = 60"
definition RADIUS_MAX_SESSION :: int where "RADIUS_MAX_SESSION = 1000"

definition zero_counters :: radius_server_counters where
  "zero_counters = \<lparr>access_requests = 0, invalid_requests = 0, dup_access_requests = 0, access_accepts = 0,
     access_rejects = 0, malformed_access_requests = 0, bad_authenticators = 0, unknown_types = 0\<rparr>"

definition update_client ::
  "radius_server_data \<Rightarrow> nat \<Rightarrow> (radius_client \<Rightarrow> radius_client) \<Rightarrow> radius_server_data" where
  "update_client data c f = data\<lparr>sd_clients := (sd_clients data)[c := f (sd_clients data ! c)]\<rparr>"

text \<open>The same counter of the server and of the client.\<close>

definition bump ::
  "(radius_server_counters \<Rightarrow> radius_server_counters) \<Rightarrow> nat \<Rightarrow> radius_server_data \<Rightarrow> radius_server_data" where
  "bump f c data =
     update_client (data\<lparr>sd_counters := f (sd_counters data)\<rparr>) c (\<lambda>cl. cl\<lparr>rc_counters := f (rc_counters cl)\<rparr>)"

abbreviation inc_access_requests :: "radius_server_counters \<Rightarrow> radius_server_counters" where
  "inc_access_requests \<equiv> access_requests_update (\<lambda>n. n + 1)"

abbreviation inc_dup :: "radius_server_counters \<Rightarrow> radius_server_counters" where
  "inc_dup \<equiv> dup_access_requests_update (\<lambda>n. n + 1)"

abbreviation inc_accepts :: "radius_server_counters \<Rightarrow> radius_server_counters" where
  "inc_accepts \<equiv> access_accepts_update (\<lambda>n. n + 1)"

abbreviation inc_rejects :: "radius_server_counters \<Rightarrow> radius_server_counters" where
  "inc_rejects \<equiv> access_rejects_update (\<lambda>n. n + 1)"

section \<open>Attributes of a reply\<close>

text \<open>An element of the list \<open>struct hostapd_radius_attr\<close>; the value is None for NULL.\<close>

type_synonym hostapd_radius_attr = "u8 \<times> wpabuf option"

definition wpabuf_be32 :: "env \<Rightarrow> u32 \<Rightarrow> hist \<Rightarrow> wpabuf option \<times> hist" where
  "wpabuf_be32 env v h =
     (case wpabuf_alloc env 4 h of
        (None, h) \<Rightarrow> (None, h)
      | (Some buf, h) \<Rightarrow> let (buf, h) = wpabuf_put_data buf (put_be32 v) h in (Some buf, h))"

text \<open>
  \<open>sprintf\<close> of the VLAN writes one character more than the array \<open>id_str\<close> of 5 has for five
  digits.
\<close>

definition get_vlan_attribute :: "env \<Rightarrow> u16 \<Rightarrow> hist \<Rightarrow> hostapd_radius_attr list option \<times> hist" where
  "get_vlan_attribute env vlan_id h =
     (let (ok, h) = os_malloc env h in
      if \<not> ok then (None, h)
      else
        let (val, h) = wpabuf_be32 env 13 h;
            (ok, h) = os_malloc env h
        in if \<not> ok then (None, h)
           else
             let (medium_val, h) = wpabuf_be32 env 6 h;
                 (ok, h) = os_malloc env h
             in if \<not> ok then (None, h)
                else
                  let id_str = show_nat (unat vlan_id);
                      h = (if 5 \<le> length id_str then E_ub Stack_Overrun # h else h);
                      (id_val, h) = wpabuf_alloc_copy env (bytes_of_string id_str) h
                  in (Some [(RADIUS_ATTR_TUNNEL_TYPE, val), (RADIUS_ATTR_TUNNEL_MEDIUM_TYPE, medium_val),
                            (RADIUS_ATTR_TUNNEL_PRIVATE_GROUP_ID, id_val)], h))"

text \<open>
  \<open>pass\<close> is the array of the passphrase and \<open>key_len\<close> the number of its bytes to use.  The buffer
  has \<open>packet_len\<close> bytes.
\<close>

definition get_password_attribute ::
  "env \<Rightarrow> bytes \<Rightarrow> bytes \<Rightarrow> bytes \<Rightarrow> nat \<Rightarrow> hist \<Rightarrow> hostapd_radius_attr option \<times> hist" where
  "get_password_attribute env req_authenticator secret pass key_len h =
     (case os_get_random env 2 h of
        (None, h) \<Rightarrow> (None, h)
      | (Some bs, h) \<Rightarrow>
          let salt = random_salt bs;
              packet_len = unat (word_of_nat (3 + 1 + key_len + 15) :: u16);
              (ok, h) = os_malloc env h
          in if \<not> ok then (None, h)
             else
               let h = (if length pass < key_len then E_ub Over_Read # h else h);
                   e = encrypt_ms_key (take key_len pass) salt req_authenticator secret;
                   h = (if packet_len < 3 + max (length e) (1 + key_len) then E_ub Heap_Overrun # h else h);
                   (ok, h) = os_malloc env h
               in if \<not> ok then (None, h)
                  else let (val, h) = wpabuf_alloc_copy env (0 # put_be16 salt @ e) h
                       in (Some (RADIUS_ATTR_TUNNEL_PASSWORD, val), h))"

section \<open>Clients and sessions\<close>

definition radius_server_get_client :: "radius_server_data \<Rightarrow> u32 \<Rightarrow> nat option" where
  "radius_server_get_client data addr =
     find (\<lambda>i. rc_addr (sd_clients data ! i) AND rc_mask (sd_clients data ! i) = addr AND rc_mask (sd_clients data ! i))
       [0..<length (sd_clients data)]"

definition radius_server_get_session :: "radius_client \<Rightarrow> u32 \<Rightarrow> radius_session option" where
  "radius_server_get_session client sess_id = find (\<lambda>s. rs_sess_id s = sess_id) (rc_sessions client)"

fun remove_first :: "('a \<Rightarrow> bool) \<Rightarrow> 'a list \<Rightarrow> 'a list" where
  "remove_first P [] = []"
| "remove_first P (x # xs) = (if P x then xs else x # remove_first P xs)"

definition radius_server_session_remove :: "radius_server_data \<Rightarrow> nat \<Rightarrow> nat \<Rightarrow> radius_server_data" where
  "radius_server_session_remove data c sess =
     (if list_ex (\<lambda>s. rs_ptr s = sess) (rc_sessions (sd_clients data ! c)) then
        update_client (data\<lparr>sd_num_sess := sd_num_sess data - 1\<rparr>) c
          (\<lambda>cl. cl\<lparr>rc_sessions := remove_first (\<lambda>s. rs_ptr s = sess) (rc_sessions cl)\<rparr>)
      else data)"

definition radius_server_session_timeout :: "radius_server_data \<Rightarrow> nat \<Rightarrow> nat \<Rightarrow> radius_server_data" where
  "radius_server_session_timeout data c sess = radius_server_session_remove data c sess"

text \<open>The result of registering the timer is not looked at.\<close>

definition radius_server_new_session ::
  "env \<Rightarrow> radius_server_data \<Rightarrow> nat \<Rightarrow> hist \<Rightarrow> radius_session option \<times> radius_server_data \<times> hist" where
  "radius_server_new_session env data c h =
     (if RADIUS_MAX_SESSION \<le> sd_num_sess data then (None, data, h)
      else
        let (ok, h) = os_malloc env h in
        if \<not> ok then (None, data, h)
        else
          let h = E_timeout RADIUS_SESSION_TIMEOUT # h;
              sess = \<lparr>rs_ptr = sd_next_ptr data, rs_sess_id = sd_next_sess_id data, rs_username = '''', rs_nas_ip = '''',
                      rs_mac_addr = replicate 6 0, rs_last_from_port = 0, rs_last_identifier = 0, rs_last_reply = None,
                      rs_last_authenticator = replicate 16 0, rs_timer = env_timeout env h\<rparr>;
              data = data\<lparr>sd_next_ptr := sd_next_ptr data + 1, sd_next_sess_id := sd_next_sess_id data + 1,
                          sd_num_sess := sd_num_sess data + 1\<rparr>
          in (Some sess, update_client data c (\<lambda>cl. cl\<lparr>rc_sessions := sess # rc_sessions cl\<rparr>), h))"

definition update_session ::
  "radius_server_data \<Rightarrow> nat \<Rightarrow> nat \<Rightarrow> (radius_session \<Rightarrow> radius_session) \<Rightarrow> radius_server_data" where
  "update_session data c sess f =
     update_client data c (\<lambda>cl. cl\<lparr>rc_sessions := map (\<lambda>s. if rs_ptr s = sess then f s else s) (rc_sessions cl)\<rparr>)"

text \<open>\<open>printf_encode\<close> of common.h.\<close>

definition encode_byte :: "u8 \<Rightarrow> string" where
  "encode_byte b =
     (if b = 34 then [CHR 0x5C, CHR 0x22]
      else if b = 92 then [CHR 0x5C, CHR 0x5C]
      else if b = 27 then [CHR 0x5C, CHR ''e'']
      else if b = 10 then [CHR 0x5C, CHR ''n'']
      else if b = 13 then [CHR 0x5C, CHR ''r'']
      else if b = 9 then [CHR 0x5C, CHR ''t'']
      else if 32 \<le> b \<and> b \<le> 126 then [char_of (unat b)]
      else CHR 0x5C # CHR ''x'' # show_02x b)"

fun printf_encode :: "nat \<Rightarrow> string \<Rightarrow> bytes \<Rightarrow> string" where
  "printf_encode maxlen txt [] = txt"
| "printf_encode maxlen txt (b # bs) =
     (if maxlen \<le> length txt + 4 then txt else printf_encode maxlen (txt @ encode_byte b) bs)"

definition calling_station_mac :: "bytes \<Rightarrow> mac" where
  "calling_station_mac idv =
     (case hwaddr_aton2 (c_str (string_of_bytes (take 17 idv))) of Some m \<Rightarrow> m | None \<Rightarrow> replicate 6 0)"

definition radius_server_get_new_session ::
  "env \<Rightarrow> radius_server_data \<Rightarrow> nat \<Rightarrow> radius_msg \<Rightarrow> string \<Rightarrow> hist \<Rightarrow>
   radius_session option \<times> radius_server_data \<times> hist" where
  "radius_server_get_new_session env data c msg from_addr h =
     (case radius_msg_get_attr_ptr msg RADIUS_ATTR_USER_NAME None of
        None \<Rightarrow> (None, data, h)
      | Some user \<Rightarrow>
          (case radius_server_new_session env data c h of
             (None, data, h) \<Rightarrow> (None, data, h)
           | (Some sess, data, h) \<Rightarrow>
               let (ok, h) = os_malloc env h in
               if \<not> ok then (None, radius_server_session_remove data c (rs_ptr sess), h)
               else
                 let (ok, h) = os_malloc env h in
                 if \<not> ok then (None, radius_server_session_remove data c (rs_ptr sess), h)
                 else
                   let sess = sess\<lparr>rs_username := printf_encode (length user * 4 + 1) [] user, rs_nas_ip := from_addr,
                                   rs_mac_addr :=
                                     (case radius_msg_get_attr_ptr msg RADIUS_ATTR_CALLING_STATION_ID None of
                                        None \<Rightarrow> rs_mac_addr sess
                                      | Some idv \<Rightarrow> calling_station_mac idv)\<rparr>
                   in (Some sess, update_session data c (rs_ptr sess) (\<lambda>_. sess), h)))"

section \<open>Replies\<close>

text \<open>A NULL value is dereferenced.\<close>

fun add_reply_attrs ::
  "env \<Rightarrow> radius_msg \<Rightarrow> hostapd_radius_attr list \<Rightarrow> hist \<Rightarrow> bool \<times> radius_msg \<times> hist" where
  "add_reply_attrs env msg [] h = (True, msg, h)"
| "add_reply_attrs env msg ((ty, val) # as) h =
     (let (data, h) = (case val of None \<Rightarrow> ([], E_ub Null_Deref # h) | Some b \<Rightarrow> (wb_data b, h)) in
      case radius_msg_add_attr env msg ty data h of
        (None, msg, h) \<Rightarrow> (False, msg, h)
      | (Some _, msg, h) \<Rightarrow> add_reply_attrs env msg as h)"

text \<open>
  The attributes of an accepted device, None when there is no memory or no random salt.  A
  negative length of the passphrase becomes a huge one.
\<close>

definition accept_attrs ::
  "env \<Rightarrow> bytes \<Rightarrow> bytes \<Rightarrow> mac_conn_info \<Rightarrow> hist \<Rightarrow> hostapd_radius_attr list option \<times> hist" where
  "accept_attrs env req_authenticator secret info h =
     (case get_vlan_attribute env (word_of_int (mi_vlanid info)) h of
        (None, h) \<Rightarrow> (None, h)
      | (Some as, h) \<Rightarrow>
          let h = (if mi_pass_len info < 0 then E_ub Over_Read # h else h) in
          (case get_password_attribute env req_authenticator secret (mi_pass info) (nat (mi_pass_len info)) h of
             (None, h) \<Rightarrow> (None, h)
           | (Some pass_attr, h) \<Rightarrow> (Some (as @ [pass_attr]), h)))"

definition radius_server_macacl ::
  "env \<Rightarrow> supervisor_context \<Rightarrow> radius_client \<Rightarrow> radius_session \<Rightarrow> radius_msg \<Rightarrow> hist \<Rightarrow>
   radius_msg option \<times> supervisor_context \<times> hist" where
  "radius_server_macacl env context client sess request h =
     (let (info, context, h) = get_mac_conn_cmd env context (rs_mac_addr sess) h;
          auth = hdr_authenticator request;
          (attrs, h) = (if 0 \<le> mi_vlanid info then accept_attrs env auth (rc_shared_secret client) info h
                        else (Some [], h))
      in case attrs of
           None \<Rightarrow> (None, context, h)
         | Some as \<Rightarrow>
             let code = (if 0 \<le> mi_vlanid info \<and> radius_msg_get_attr_ptr request RADIUS_ATTR_USER_PASSWORD None \<noteq> None
                         then RADIUS_CODE_ACCESS_ACCEPT else RADIUS_CODE_ACCESS_REJECT)
             in (case radius_msg_new env code (hdr_identifier request) h of
                   (None, h) \<Rightarrow> (None, context, h)
                 | (Some msg, h) \<Rightarrow>
                     (case radius_msg_copy_attr env msg request RADIUS_ATTR_PROXY_STATE h of (n, msg, h) \<Rightarrow>
                        if n < 0 then (None, context, h)
                        else
                          let (ok, msg, h) =
                            (if code = RADIUS_CODE_ACCESS_ACCEPT then add_reply_attrs env msg as h else (True, msg, h))
                          in if \<not> ok then (None, context, h)
                             else
                               let (_, msg, h) = radius_msg_finish_srv env msg (rc_shared_secret client) auth h
                               in (Some msg, context, h))))"

definition send_radius :: "env \<Rightarrow> radius_server_data \<Rightarrow> radius_msg \<Rightarrow> client_address \<Rightarrow> hist \<Rightarrow> int \<times> hist" where
  "send_radius env data msg from h =
     (let h = E_sendto (sd_auth_sock data) (string_of_bytes (rm_data msg)) from # h in (env_sendto env h, h))"

definition radius_server_reject ::
  "env \<Rightarrow> radius_server_data \<Rightarrow> nat \<Rightarrow> radius_msg \<Rightarrow> client_address \<Rightarrow> hist \<Rightarrow>
   int \<times> radius_server_data \<times> hist" where
  "radius_server_reject env data c request from h =
     (case radius_msg_new env RADIUS_CODE_ACCESS_REJECT (hdr_identifier request) h of
        (None, h) \<Rightarrow> (- 1, data, h)
      | (Some msg, h) \<Rightarrow>
          (case radius_msg_copy_attr env msg request RADIUS_ATTR_PROXY_STATE h of (n, msg, h) \<Rightarrow>
             if n < 0 then (- 1, data, h)
             else
               let (_, msg, h) = radius_msg_finish_srv env msg (rc_shared_secret (sd_clients data ! c))
                                   (hdr_authenticator request) h;
                   data = bump inc_rejects c data;
                   (sent, h) = send_radius env data msg (from\<lparr>ca_len := SOCKADDR_IN_LEN\<rparr>) h
               in (if sent < 0 then - 1 else 0, data, h)))"

section \<open>Requests\<close>

text \<open>The session of a request, None when the request was answered with a rejection.\<close>

definition find_session ::
  "env \<Rightarrow> radius_server_data \<Rightarrow> nat \<Rightarrow> radius_msg \<Rightarrow> string \<Rightarrow> hist \<Rightarrow>
   radius_session option \<times> radius_server_data \<times> hist" where
  "find_session env data c msg from_addr h =
     (let (res, statebuf) = radius_msg_get_attr msg RADIUS_ATTR_STATE 4;
          found = (if res = 4 then radius_server_get_session (sd_clients data ! c) (get_be32 statebuf) else None)
      in case found of
           Some sess \<Rightarrow> (Some sess, data, h)
         | None \<Rightarrow> if 0 \<le> res then (None, data, h) else radius_server_get_new_session env data c msg from_addr h)"

definition radius_server_request ::
  "env \<Rightarrow> supervisor_context \<Rightarrow> radius_server_data \<Rightarrow> radius_msg \<Rightarrow> client_address \<Rightarrow> nat \<Rightarrow> string \<Rightarrow> int \<Rightarrow> hist \<Rightarrow>
   int \<times> supervisor_context \<times> radius_server_data \<times> hist" where
  "radius_server_request env context data msg from c from_addr from_port h =
     (case find_session env data c msg from_addr h of
        (None, data, h) \<Rightarrow>
          let (_, data, h) = radius_server_reject env data c msg from h in (- 1, context, data, h)
      | (Some sess, data, h) \<Rightarrow>
          if rs_last_from_port sess = from_port \<and> rs_last_identifier sess = hdr_identifier msg \<and>
             rs_last_authenticator sess = hdr_authenticator msg then
            let data = bump inc_dup c data in
            (case rs_last_reply sess of
               Some reply \<Rightarrow> let (_, h) = send_radius env data reply from h in (0, context, data, h)
             | None \<Rightarrow> (- 1, context, data, h))
          else
            (case radius_server_macacl env context (sd_clients data ! c) sess msg h of
               (None, context, h) \<Rightarrow> (- 1, context, data, h)
             | (Some reply, context, h) \<Rightarrow>
                 let data = (if hdr_code reply = RADIUS_CODE_ACCESS_ACCEPT then bump inc_accepts c data
                             else if hdr_code reply = RADIUS_CODE_ACCESS_REJECT then bump inc_rejects c data
                             else data);
                     (_, h) = send_radius env data reply from h;
                     data = update_session data c (rs_ptr sess)
                              (\<lambda>s. s\<lparr>rs_last_reply := Some reply, rs_last_from_port := from_port,
                                     rs_last_identifier := hdr_identifier msg,
                                     rs_last_authenticator := hdr_authenticator msg\<rparr>)
                 in (0, context, data, h)))"

definition inet_ntoa :: "u32 \<Rightarrow> string" where
  "inet_ntoa a =
     show_nat (unat (drop_bit 24 a AND 255)) @ ''.'' @ show_nat (unat (drop_bit 16 a AND 255)) @ ''.'' @
     show_nat (unat (drop_bit 8 a AND 255)) @ ''.'' @ show_nat (unat (a AND 255))"

definition radius_server_receive_auth ::
  "env \<Rightarrow> int \<Rightarrow> supervisor_context \<Rightarrow> radius_server_data \<Rightarrow> hist \<Rightarrow> supervisor_context \<times> radius_server_data \<times> hist" where
  "radius_server_receive_auth env sock context data h =
     (let (ok, h) = os_malloc env h in
      if \<not> ok then (context, data, h)
      else
        let (len, buf, from, h) = recv_from env sock RADIUS_MAX_MSG_LEN (blank_address SOCKET_TYPE_UDP) h in
        if len < 0 then (context, data, h)
        else
          let abuf = inet_ntoa (sin_addr from); from_port = uint (sin_port from) in
          (case radius_server_get_client data (sin_addr from) of
             None \<Rightarrow>
               (context, data\<lparr>sd_counters := (sd_counters data)\<lparr>invalid_requests := invalid_requests (sd_counters data) + 1\<rparr>\<rparr>, h)
           | Some c \<Rightarrow>
               (case radius_msg_parse env (bytes_of_string buf) h of
                  (None, h) \<Rightarrow> (context, bump (malformed_access_requests_update (\<lambda>n. n + 1)) c data, h)
                | (Some msg, h) \<Rightarrow>
                    if hdr_code msg \<noteq> RADIUS_CODE_ACCESS_REQUEST then
                      (context, bump (unknown_types_update (\<lambda>n. n + 1)) c data, h)
                    else
                      let data = bump inc_access_requests c data;
                          (bad, h) = radius_msg_verify_msg_auth msg (rc_shared_secret (sd_clients data ! c)) None h
                      in if bad \<noteq> 0 then (context, bump (bad_authenticators_update (\<lambda>n. n + 1)) c data, h)
                         else
                           let (_, context, data, h) = radius_server_request env context data msg from c abuf from_port h
                           in (context, data, h))))"

section \<open>Starting the server\<close>

text \<open>
  \<open>addr\<close> is what \<open>inet_aton\<close> makes of the configured address.  The mask has as many leading ones
  as configured.
\<close>

definition client_mask :: "nat \<Rightarrow> u32" where
  "client_mask bits = foldl (\<lambda>val i. val OR push_bit (31 - i) 1) 0 [0..<bits]"

definition init_radius_client ::
  "env \<Rightarrow> u32 option \<Rightarrow> nat \<Rightarrow> string \<Rightarrow> hist \<Rightarrow> radius_client option \<times> hist" where
  "init_radius_client env addr bits secret h =
     (case addr of
        None \<Rightarrow> (None, h)
      | Some a \<Rightarrow>
          let (ok, h) = os_malloc env h in
          if \<not> ok then (None, h)
          else
            let (ok, h) = os_malloc env h in
            if \<not> ok then (None, h)
            else (Some \<lparr>rc_addr = a, rc_mask = client_mask bits, rc_shared_secret = bytes_of_string secret,
                        rc_sessions = [], rc_counters = zero_counters\<rparr>, h))"

text \<open>\<open>sock\<close> is the result of \<open>radius_server_open_socket\<close>, \<open>registered\<close> that of the event loop.\<close>

definition radius_server_init ::
  "env \<Rightarrow> int \<Rightarrow> bool \<Rightarrow> radius_client option \<Rightarrow> hist \<Rightarrow> radius_server_data option \<times> hist" where
  "radius_server_init env sock registered client h =
     (let (ok, h) = os_malloc env h in
      if \<not> ok then (None, h)
      else case client of
             None \<Rightarrow> (None, h)
           | Some cl \<Rightarrow>
               if sock < 0 then (None, h)
               else if \<not> registered then (None, E_close sock # h)
               else (Some \<lparr>sd_auth_sock = sock, sd_clients = [cl], sd_next_sess_id = 0, sd_num_sess = 0,
                           sd_counters = zero_counters, sd_next_ptr = 0\<rparr>, h))"

definition run_radius ::
  "env \<Rightarrow> u32 option \<Rightarrow> nat \<Rightarrow> string \<Rightarrow> int \<Rightarrow> bool \<Rightarrow> hist \<Rightarrow> radius_server_data option \<times> hist" where
  "run_radius env addr bits secret sock registered h =
     (let (client, h) = init_radius_client env addr bits secret h
      in radius_server_init env sock registered client h)"

end
