(* ===== verification/Radius_Policy.thy ===== *)
theory Radius_Policy
  imports Radius_Server
begin

text \<open>
  What the access point gets from the RADIUS server: the replies of radius_server.c, built with
  the functions of radius.c, read back with the functions of radius.c that a client uses.  The
  decision of the supervisor arrives as it was made.
\<close>

section \<open>What a reply holds\<close>

lemma wpabuf_be32_total:
  "alloc_total env \<Longrightarrow> wpabuf_be32 env v h = (Some \<lparr>wb_size = 4, wb_data = put_be32 v\<rparr>, E_malloc # h)"
  by (simp add: wpabuf_be32_def wpabuf_alloc_def os_malloc_total wpabuf_put_data_def put_be32_def Let_def)

lemma wpabuf_alloc_copy_total:
  "alloc_total env \<Longrightarrow> wpabuf_alloc_copy env d h = (Some \<lparr>wb_size = length d, wb_data = d\<rparr>, E_malloc # h)"
  by (simp add: wpabuf_alloc_copy_def wpabuf_alloc_def os_malloc_total wpabuf_put_data_def Let_def)

text \<open>The attributes that a list of \<open>hostapd_radius_attr\<close> stands for.\<close>

definition plain_attrs :: "hostapd_radius_attr list \<Rightarrow> (u8 \<times> bytes) list \<Rightarrow> bool" where
  "plain_attrs rs as \<longleftrightarrow> list_all2 (\<lambda>(t, v) (t', d). t = t' \<and> (\<exists>b. v = Some b \<and> wb_data b = d)) rs as"

lemma get_vlan_attribute_total:
  assumes "alloc_total env"
  shows "\<exists>rs. get_vlan_attribute env v h =
    (Some rs, (if 10000 \<le> unat v then [E_malloc, E_ub Stack_Overrun] else [E_malloc]) @
      [E_malloc, E_malloc, E_malloc, E_malloc, E_malloc] @ h) \<and>
    plain_attrs rs (vlan_attrs (unat v))"
proof -
  have "5 \<le> length (show_nat n) \<longleftrightarrow> 10000 \<le> n" for n
  proof
    assume "5 \<le> length (show_nat n)"
    then show "10000 \<le> n"
      using length_show_nat [of n 3] by (cases "n < 10 ^ Suc 3") simp_all
  next
    assume "10000 \<le> n"
    then show "5 \<le> length (show_nat n)"
      using length_show_nat_ge [of 4 n] by simp
  qed
  then show ?thesis
    by (simp add: get_vlan_attribute_def os_malloc_total [OF assms] wpabuf_be32_total [OF assms]
        wpabuf_alloc_copy_total [OF assms] plain_attrs_def vlan_attrs_def Let_def)
qed

lemma add_reply_attrs_total:
  assumes "alloc_total env" and "plain_attrs rs as" and "\<forall>a \<in> set as. length (snd a) \<le> RADIUS_MAX_ATTR_LEN"
    and "represents msg hdr bs" and "msg_fits msg"
  shows "\<exists>msg' n. add_reply_attrs env msg rs h = (True, msg', replicate n E_malloc @ h) \<and>
    represents msg' hdr (bs @ as) \<and> msg_fits msg'"
  using assms(2-)
proof (induction rs arbitrary: as bs msg h)
  case Nil
  then show ?case
    by (auto simp: plain_attrs_def intro: exI [of _ 0])
next
  case (Cons r rs)
  then obtain t b as' where r: "r = (t, Some b)" and as: "as = (t, wb_data b) # as'" and rest: "plain_attrs rs as'"
    by (cases r) (auto simp: plain_attrs_def list_all2_Cons1)
  obtain m n where add: "radius_msg_add_attr env msg t (wb_data b) h =
      (Some (length (rm_data msg)), m, replicate n E_malloc @ h)"
    and m: "represents m hdr (bs @ [(t, wb_data b)])" "msg_fits m"
    by (rule radius_msg_add_attr_total [OF assms(1) Cons.prems(4,3), of "wb_data b" t h])
      (use Cons.prems(2) as in simp)
  from Cons.IH [OF rest _ m, of "replicate n E_malloc @ h"] Cons.prems(2) as
  obtain m' l where "add_reply_attrs env m rs (replicate n E_malloc @ h) =
      (True, m', replicate l E_malloc @ replicate n E_malloc @ h)"
    "represents m' hdr ((bs @ [(t, wb_data b)]) @ as')" "msg_fits m'"
    by auto
  then show ?case
    by (intro exI [of _ m'] exI [of _ "l + n"]) (simp add: r as add replicate_add)
qed

lemma get_password_attribute_total:
  assumes "alloc_total env" and rnd: "os_get_random env 2 h = (Some bs, h0)"
    and "length pass = AP_SECRET_LEN" and "key_len \<le> AP_SECRET_LEN"
  shows "\<exists>b. get_password_attribute env auth secret pass key_len h =
      (Some (RADIUS_ATTR_TUNNEL_PASSWORD, Some b), E_malloc # E_malloc # E_malloc # h0) \<and>
    wb_data b = 0 # put_be16 (random_salt bs) @ encrypt_ms_key (take key_len pass) (random_salt bs) auth secret"
proof -
  let ?e = "encrypt_ms_key (take key_len pass) (random_salt bs) auth secret"
  have "key_len < 255" and key: "length (take key_len pass) = key_len"
    using assms(3,4) by (simp_all add: AP_SECRET_LEN_def)
  then have e: "length ?e = ms_key_len key_len" "ms_key_len key_len \<le> key_len + 16"
    using length_encrypt_ms_key [of "take key_len pass"] ms_key_len_bounds(3) by simp_all
  have "unat (word_of_nat (3 + 1 + key_len + 15) :: u16) = 3 + 1 + key_len + 15"
    unfolding unat_of_nat using assms(4) by (intro mod_less) (simp add: AP_SECRET_LEN_def)
  then have "\<not> unat (word_of_nat (3 + 1 + key_len + 15) :: u16) < 3 + max (length ?e) (1 + key_len)"
    using e by simp
  with assms show ?thesis
    by (simp add: get_password_attribute_def os_malloc_total [OF assms(1)] wpabuf_alloc_copy_total [OF assms(1)] Let_def
        del: of_nat_add)
qed

lemma accept_attrs_total:
  assumes "alloc_total env" and rnd: "\<And>h. \<exists>bs h'. os_get_random env 2 h = (Some bs, h')"
    and "length (mi_pass info) = AP_SECRET_LEN" and "0 \<le> mi_pass_len info" "mi_pass_len info \<le> int AP_SECRET_LEN"
  shows "\<exists>rs salt h'. accept_attrs env auth secret info h = (Some rs, h') \<and>
    plain_attrs rs (vlan_attrs (unat (word_of_int (mi_vlanid info) :: u16)) @
      [(RADIUS_ATTR_TUNNEL_PASSWORD,
        0 # put_be16 salt @ encrypt_ms_key (take (nat (mi_pass_len info)) (mi_pass info)) salt auth secret)])"
proof -
  obtain rs h1 where vlan: "get_vlan_attribute env (word_of_int (mi_vlanid info)) h = (Some rs, h1)"
    and rs: "plain_attrs rs (vlan_attrs (unat (word_of_int (mi_vlanid info) :: u16)))"
    using get_vlan_attribute_total [OF assms(1)] by blast
  obtain bs h2 where r: "os_get_random env 2 h1 = (Some bs, h2)"
    using rnd by blast
  have "nat (mi_pass_len info) \<le> AP_SECRET_LEN"
    using assms(5) by linarith
  from get_password_attribute_total [OF assms(1) r assms(3) this, of auth secret]
  obtain b where "get_password_attribute env auth secret (mi_pass info) (nat (mi_pass_len info)) h1 =
      (Some (RADIUS_ATTR_TUNNEL_PASSWORD, Some b), E_malloc # E_malloc # E_malloc # h2)"
    "wb_data b = 0 # put_be16 (random_salt bs) @ encrypt_ms_key (take (nat (mi_pass_len info)) (mi_pass info)) (random_salt bs) auth secret"
    by blast
  with vlan rs assms(4) show ?thesis
    by (intro exI [of _ "rs @ [(RADIUS_ATTR_TUNNEL_PASSWORD, Some b)]"] exI [of _ "random_salt bs"])
      (simp add: accept_attrs_def plain_attrs_def list_all2_appendI)
qed

lemma get_attr_ptr_represents:
  assumes "represents msg hdr as"
  shows "radius_msg_get_attr_ptr msg t None = map_of as t"
proof -
  let ?view = "\<lambda>pos. (attr_type msg pos, attr_value msg pos)"
  have "(case find (\<lambda>pos. attr_type msg pos = t) ps of None \<Rightarrow> None
         | Some pos \<Rightarrow> if attr_length msg pos < 2 then None else Some (attr_value msg pos)) = map_of (map ?view ps) t"
    if "\<forall>pos \<in> set ps. 2 \<le> attr_length msg pos" for ps
    using that by (induction ps) auto
  from this [of "rm_attr_pos msg"] represents_view [OF assms] show ?thesis
    by (simp add: radius_msg_get_attr_ptr_def)
qed

lemma get_be16_put: "get_be16 (put_be16 w @ xs) = w"
  by (rule bit_word_eqI)
    (auto simp: get_be16_def put_be16_def bit_simps not_less intro: order.strict_trans2)

lemma length_enc_attrs_filter: "length (enc_attrs (filter P as)) \<le> length (enc_attrs as)"
  by (induction as) auto

lemma length_hdr_authenticator: "represents msg hdr as \<Longrightarrow> length (hdr_authenticator msg) = 16"
  by (simp add: represents_def hdr_authenticator_def)

text \<open>The signed reply with code \<open>c\<close> and attributes \<open>as\<close>.\<close>

definition answers :: "radius_msg \<Rightarrow> bytes \<Rightarrow> u8 \<Rightarrow> (u8 \<times> bytes) list \<Rightarrow> radius_msg \<Rightarrow> bool" where
  "answers request secret c as reply \<longleftrightarrow>
     represents reply
       (signed_hdr c (hdr_identifier request) as @
        reply_auth secret (hdr_authenticator request) c (hdr_identifier request) as)
       (signed_attrs secret (hdr_authenticator request) c (hdr_identifier request) as)"

abbreviation proxy_states :: "(u8 \<times> bytes) list \<Rightarrow> (u8 \<times> bytes) list" where
  "proxy_states as \<equiv> filter (\<lambda>a. fst a = RADIUS_ATTR_PROXY_STATE) as"

lemma radius_msg_finish_srv_answers:
  assumes "alloc_total env" and "represents request rhdr ras"
    and "represents msg ([c, hdr_identifier request] @ hdr) as" and "msg_fits msg"
  obtains r reply h' where
    "radius_msg_finish_srv env msg secret (hdr_authenticator request) h = (r, reply, h')"
    "answers request secret c as reply"
  using radius_msg_finish_srv_signs [OF assms(1,3,4) length_hdr_authenticator [OF assms(2)], of secret h] that
  unfolding answers_def by blast

text \<open>The attributes of the reply to an accepted device, before it is signed.\<close>

definition accept_reply_attrs ::
  "(u8 \<times> bytes) list \<Rightarrow> nat \<Rightarrow> u16 \<Rightarrow> bytes \<Rightarrow> bytes \<Rightarrow> bytes \<Rightarrow> (u8 \<times> bytes) list" where
  "accept_reply_attrs ras v salt key auth secret =
     proxy_states ras @ vlan_attrs v @
     [(RADIUS_ATTR_TUNNEL_PASSWORD, 0 # put_be16 salt @ encrypt_ms_key key salt auth secret)]"

lemma accept_reply_attrs_size:
  assumes "length key \<le> AP_SECRET_LEN" and "v < 65536"
  shows "length (enc_attrs (accept_reply_attrs ras v salt key auth secret)) \<le> length (enc_attrs ras) + 104"
    and "\<forall>a \<in> set (drop (length (proxy_states ras))
           (accept_reply_attrs ras v salt key auth secret)). length (snd a) \<le> RADIUS_MAX_ATTR_LEN"
proof -
  have key: "length key < 255"
    using assms(1) by (simp add: AP_SECRET_LEN_def)
  have e: "length (encrypt_ms_key key salt auth secret) \<le> 80"
    using length_encrypt_ms_key [OF key, of salt auth secret] ms_key_len_bounds(3) [OF key] assms(1)
    by (simp add: AP_SECRET_LEN_def)
  have d: "length (bytes_of_string (show_nat v)) \<le> 5"
    using length_show_nat [of v 4] assms(2) by (simp add: bytes_of_string_def)
  show "length (enc_attrs (accept_reply_attrs ras v salt key auth secret)) \<le> length (enc_attrs ras) + 104"
    using e d length_enc_attrs_filter [of "\<lambda>a. fst a = RADIUS_ATTR_PROXY_STATE" ras]
    by (simp add: accept_reply_attrs_def vlan_attrs_def put_be32_def put_be16_def)
  show "\<forall>a \<in> set (drop (length (proxy_states ras))
           (accept_reply_attrs ras v salt key auth secret)). length (snd a) \<le> RADIUS_MAX_ATTR_LEN"
    using e d by (simp add: accept_reply_attrs_def vlan_attrs_def put_be32_def put_be16_def RADIUS_MAX_ATTR_LEN_def)
qed

lemma radius_server_macacl_accepts:
  assumes alloc: "alloc_total env" and rnd: "\<And>h. \<exists>bs h'. os_get_random env 2 h = (Some bs, h')"
    and req: "represents request rhdr ras" and pw: "map_of ras RADIUS_ATTR_USER_PASSWORD \<noteq> None"
    and dec: "get_mac_conn_cmd env context (rs_mac_addr sess) h = (info, context', h1)"
    and vlan: "0 \<le> mi_vlanid info" and ok: "info_ok info"
  shows "\<exists>reply salt h2.
    radius_server_macacl env context client sess request h = (Some reply, context', h2) \<and>
    answers request (rc_shared_secret client) RADIUS_CODE_ACCESS_ACCEPT
      (accept_reply_attrs ras (unat (word_of_int (mi_vlanid info) :: u16)) salt (passphrase info)
         (hdr_authenticator request) (rc_shared_secret client)) reply"
proof -
  let ?auth = "hdr_authenticator request" and ?secret = "rc_shared_secret client"
  let ?c = RADIUS_CODE_ACCESS_ACCEPT and ?i = "hdr_identifier request"
  let ?v = "unat (word_of_int (mi_vlanid info) :: u16)" and ?key = "passphrase info"
  have pass: "length (mi_pass info) = AP_SECRET_LEN" "0 \<le> mi_pass_len info" "mi_pass_len info \<le> int AP_SECRET_LEN"
    using ok by (simp_all add: info_ok_def)
  obtain rs salt h3 where acc: "accept_attrs env ?auth ?secret info h1 = (Some rs, h3)"
    and rs: "plain_attrs rs (vlan_attrs ?v @
      [(RADIUS_ATTR_TUNNEL_PASSWORD, 0 # put_be16 salt @ encrypt_ms_key ?key salt ?auth ?secret)])"
    using accept_attrs_total [OF alloc rnd pass] unfolding passphrase_def by blast
  obtain m0 h4 where new: "radius_msg_new env ?c ?i h3 = (Some m0, h4)"
    using radius_msg_new_total [OF alloc] by blast
  note m0 = radius_msg_new_represents [OF new]
  obtain k m1 n where copy: "radius_msg_copy_attr env m0 request RADIUS_ATTR_PROXY_STATE h4 =
      (int k, m1, replicate n E_malloc @ h4)"
    and m1: "represents m1 (?c # ?i # replicate 18 0) ([] @ proxy_states ras)" "msg_fits m1"
    by (rule radius_msg_copy_attr_represents [OF alloc req m0(1,2)])
  let ?as = "accept_reply_attrs ras ?v salt ?key ?auth ?secret"
  have "length ?key \<le> AP_SECRET_LEN" "?v < 65536"
    by (simp_all add: passphrase_def pass(1))
  from accept_reply_attrs_size(2) [OF this, of ras salt ?auth ?secret]
  have "\<forall>a \<in> set (vlan_attrs ?v @ [(RADIUS_ATTR_TUNNEL_PASSWORD, 0 # put_be16 salt @ encrypt_ms_key ?key salt ?auth ?secret)]).
      length (snd a) \<le> RADIUS_MAX_ATTR_LEN"
    by (simp add: accept_reply_attrs_def)
  from add_reply_attrs_total [OF alloc rs this m1, of "replicate n E_malloc @ h4"]
  obtain m2 n2 where add: "add_reply_attrs env m1 rs (replicate n E_malloc @ h4) =
      (True, m2, replicate n2 E_malloc @ replicate n E_malloc @ h4)"
    and m2: "represents m2 ([?c, ?i] @ replicate 18 0) ?as" "msg_fits m2"
    by (auto simp: accept_reply_attrs_def)
  obtain r m3 h5 where fin: "radius_msg_finish_srv env m2 ?secret ?auth (replicate n2 E_malloc @ replicate n E_malloc @ h4) =
      (r, m3, h5)" and m3: "answers request ?secret ?c ?as m3"
    by (rule radius_msg_finish_srv_answers [OF alloc req m2])
  have "radius_server_macacl env context client sess request h = (Some m3, context', h5)"
    using pw vlan
    by (simp add: radius_server_macacl_def dec acc get_attr_ptr_represents [OF req] new copy add fin Let_def)
  with m3 show ?thesis
    by blast
qed

lemma reject_is_not_accept [simp]: "RADIUS_CODE_ACCESS_REJECT \<noteq> RADIUS_CODE_ACCESS_ACCEPT"
  by (simp add: RADIUS_CODE_ACCESS_REJECT_def RADIUS_CODE_ACCESS_ACCEPT_def)

lemma radius_server_macacl_rejects:
  assumes alloc: "alloc_total env" and req: "represents request rhdr ras"
    and dec: "get_mac_conn_cmd env context (rs_mac_addr sess) h = (info, context', h1)"
    and vlan: "mi_vlanid info < 0"
  shows "\<exists>reply h2.
    radius_server_macacl env context client sess request h = (Some reply, context', h2) \<and>
    answers request (rc_shared_secret client) RADIUS_CODE_ACCESS_REJECT (proxy_states ras) reply"
proof -
  let ?auth = "hdr_authenticator request" and ?secret = "rc_shared_secret client"
  let ?c = RADIUS_CODE_ACCESS_REJECT and ?i = "hdr_identifier request"
  let ?as = "proxy_states ras"
  obtain m0 h4 where new: "radius_msg_new env ?c ?i h1 = (Some m0, h4)"
    using radius_msg_new_total [OF alloc] by blast
  note m0 = radius_msg_new_represents [OF new]
  obtain k m1 n where copy: "radius_msg_copy_attr env m0 request RADIUS_ATTR_PROXY_STATE h4 =
      (int k, m1, replicate n E_malloc @ h4)"
    and m1: "represents m1 (?c # ?i # replicate 18 0) ([] @ ?as)" "msg_fits m1"
    by (rule radius_msg_copy_attr_represents [OF alloc req m0(1,2)])
  then have "represents m1 ([?c, ?i] @ replicate 18 0) ?as"
    by simp
  then obtain r m3 h5 where fin: "radius_msg_finish_srv env m1 ?secret ?auth (replicate n E_malloc @ h4) = (r, m3, h5)"
    and m3: "answers request ?secret ?c ?as m3"
    by (rule radius_msg_finish_srv_answers [OF alloc req _ m1(2)])
  have "radius_server_macacl env context client sess request h = (Some m3, context', h5)"
    using vlan by (simp add: radius_server_macacl_def dec new copy fin Let_def)
  with m3 show ?thesis
    by blast
qed

text \<open>What the access point gets from a reply: code, VLAN and passphrase.\<close>

definition client_view :: "env \<Rightarrow> bytes \<Rightarrow> radius_msg \<Rightarrow> bytes \<Rightarrow> hist \<Rightarrow> (u8 \<times> int \<times> bytes option) option" where
  "client_view env secret request packet h =
     (case radius_msg_parse env packet h of
        (None, h) \<Rightarrow> None
      | (Some msg, h) \<Rightarrow>
          let (bad, h) = radius_msg_verify msg secret request True h in
          if bad \<noteq> 0 \<or> hdr_identifier msg \<noteq> hdr_identifier request then None
          else
            let (_, untagged, _) = radius_msg_get_vlanid msg 0;
                (psk, _) = radius_msg_get_tunnel_password env msg secret request 0 h
            in Some (hdr_code msg, untagged, psk))"

lemma answers_parses:
  assumes "alloc_total env" and "38 + length (enc_attrs as) \<le> 0xffff" and rep: "answers request secret c as reply"
  obtains msg h' where "radius_msg_parse env (rm_data reply) h = (Some msg, h')" "answers request secret c as msg"
proof -
  let ?i = "hdr_identifier request" and ?auth = "hdr_authenticator request"
  let ?hdr = "signed_hdr c ?i as @ reply_auth secret ?auth c ?i as"
  have "get_be16 (drop 2 ?hdr) = word_of_nat (38 + length (enc_attrs as))"
    by (simp add: signed_hdr_def get_be16_put del: of_nat_add)
  moreover have "unat (word_of_nat (38 + length (enc_attrs as)) :: u16) = 38 + length (enc_attrs as)"
    unfolding unat_of_nat using assms(2) by (intro mod_less) simp
  ultimately have "message_bytes (rm_data reply) ?hdr (signed_attrs secret ?auth c ?i as) []"
    using rep by (simp add: answers_def message_bytes_def represents_def)
  from radius_msg_parse_complete [OF assms(1) this, of h] that show ?thesis
    unfolding answers_def by blast
qed

lemma answers_view:
  assumes alloc: "alloc_total env" and small: "38 + length (enc_attrs as) \<le> 0xffff"
    and rep: "answers request secret c as reply"
    and req: "represents request rhdr ras" and none: "\<forall>a \<in> set as. fst a \<noteq> RADIUS_ATTR_MESSAGE_AUTHENTICATOR"
  obtains msg h' where "answers request secret c as msg"
    "client_view env secret request (rm_data reply) h =
       Some (c, fst (snd (radius_msg_get_vlanid msg 0)), fst (radius_msg_get_tunnel_password env msg secret request 0 h'))"
proof -
  obtain msg h' where parse: "radius_msg_parse env (rm_data reply) h = (Some msg, h')"
    and rep': "answers request secret c as msg"
    by (rule answers_parses [OF alloc small rep])
  have ver: "radius_msg_verify msg secret request True h' = (0, h')"
    by (rule radius_msg_verify_signed [OF rep' [unfolded answers_def] refl length_hdr_authenticator [OF req] none])
  have "hdr_code msg = c" "hdr_identifier msg = hdr_identifier request"
    using rep' by (simp_all add: answers_def represents_def hdr_code_def hdr_identifier_def signed_hdr_def)
  with parse ver rep' that show ?thesis
    by (simp add: client_view_def case_prod_unfold Let_def)
qed

lemmas attr_codes = RADIUS_ATTR_MESSAGE_AUTHENTICATOR_def RADIUS_ATTR_PROXY_STATE_def RADIUS_ATTR_TUNNEL_PASSWORD_def
  RADIUS_ATTR_TUNNEL_TYPE_def RADIUS_ATTR_TUNNEL_MEDIUM_TYPE_def RADIUS_ATTR_TUNNEL_PRIVATE_GROUP_ID_def
  RADIUS_ATTR_EGRESS_VLANID_def

lemma accept_view:
  assumes alloc: "alloc_total env" and req: "represents request rhdr ras" and len: "length (rm_data request) \<le> RADIUS_MAX_MSG_LEN"
    and v: "0 < v" "v < 65536" and key: "key \<noteq> []" "length key \<le> AP_SECRET_LEN"
    and as: "as = accept_reply_attrs ras v salt key (hdr_authenticator request) secret"
    and rep: "answers request secret RADIUS_CODE_ACCESS_ACCEPT as reply"
  shows "client_view env secret request (rm_data reply) h = Some (RADIUS_CODE_ACCESS_ACCEPT, int v, Some key)"
proof -
  have small: "38 + length (enc_attrs as) \<le> 0xffff"
    using accept_reply_attrs_size(1) [OF key(2) v(2), of ras salt "hdr_authenticator request" secret] len req
    by (simp add: as represents_def RADIUS_MAX_MSG_LEN_def)
  have none: "\<forall>a \<in> set as. fst a \<noteq> RADIUS_ATTR_MESSAGE_AUTHENTICATOR"
    by (auto simp: as accept_reply_attrs_def vlan_attrs_def attr_codes)
  obtain msg h' where msg: "answers request secret RADIUS_CODE_ACCESS_ACCEPT as msg"
    and view: "client_view env secret request (rm_data reply) h =
       Some (RADIUS_CODE_ACCESS_ACCEPT, fst (snd (radius_msg_get_vlanid msg 0)),
         fst (radius_msg_get_tunnel_password env msg secret request 0 h'))"
    by (rule answers_view [OF alloc small rep req none])
  note msg' = msg [unfolded answers_def signed_attrs_def as accept_reply_attrs_def append_assoc]
  have "radius_msg_get_vlanid msg 0 = (1, int v, [])"
    by (rule vlan_found [OF msg']) (use v in \<open>auto simp: vlan_attr_types_def attr_codes\<close>)
  moreover have "fst (radius_msg_get_tunnel_password env msg secret request 0 h') = Some key"
    by (rule tunnel_password_found [OF alloc msg', of 0 salt])
      (use key in \<open>simp_all add: vlan_attrs_def attr_codes AP_SECRET_LEN_def\<close>)
  ultimately show ?thesis
    by (simp add: view)
qed

lemma reject_view:
  assumes alloc: "alloc_total env" and req: "represents request rhdr ras" and len: "length (rm_data request) \<le> RADIUS_MAX_MSG_LEN"
    and as: "as = proxy_states ras"
    and rep: "answers request secret RADIUS_CODE_ACCESS_REJECT as reply"
  shows "client_view env secret request (rm_data reply) h = Some (RADIUS_CODE_ACCESS_REJECT, 0, None)"
proof -
  have small: "38 + length (enc_attrs as) \<le> 0xffff"
    using length_enc_attrs_filter [of "\<lambda>a. fst a = RADIUS_ATTR_PROXY_STATE" ras] len req
    by (simp add: as represents_def RADIUS_MAX_MSG_LEN_def)
  have none: "\<forall>a \<in> set as. fst a \<noteq> RADIUS_ATTR_MESSAGE_AUTHENTICATOR"
    by (auto simp: as attr_codes)
  obtain msg h' where msg: "answers request secret RADIUS_CODE_ACCESS_REJECT as msg"
    and view: "client_view env secret request (rm_data reply) h =
       Some (RADIUS_CODE_ACCESS_REJECT, fst (snd (radius_msg_get_vlanid msg 0)),
         fst (radius_msg_get_tunnel_password env msg secret request 0 h'))"
    by (rule answers_view [OF alloc small rep req none])
  note msg' = msg [unfolded answers_def]
  have "radius_msg_get_vlanid msg 0 = (0, 0, [])"
    by (rule vlan_not_found [OF msg']) (auto simp: signed_attrs_def as vlan_attr_types_def attr_codes)
  moreover have "tunnel_passwords msg = []"
    by (auto simp: tunnel_passwords_represents [OF msg'] signed_attrs_def as filter_empty_conv attr_codes)
  ultimately show ?thesis
    by (simp add: view radius_msg_get_tunnel_password_def)
qed

lemma ctx_ok_secrets: "ctx_ok c \<Longrightarrow> secrets_ok c"
  by (auto simp: ctx_ok_def secrets_ok_def ticket_ok_def TICKET_PASSPHRASE_SIZE_def AP_SECRET_LEN_def
      split: ticket_ptr.splits)

lemma join_decision:
  assumes "ctx_ok c" and "env_saves env" and "\<not> exec_capture c"
    and run: "get_mac_conn_cmd env c m h = (info, c', h')"
  shows "case admission_spec c m (join_vlan env c m h) of
           None \<Rightarrow> mi_vlanid info = - 1
         | Some (vlan, psk) \<Rightarrow> mi_vlanid info = vlan \<and> passphrase info = psk"
  using get_mac_conn_cmd_admits [OF ctx_ok_secrets [OF assms(1)] run] admit_result(2,3) assms(2,3)
  by (fastforce split: option.splits)

lemma unat_vlan: "0 \<le> v \<Longrightarrow> v < 65536 \<Longrightarrow> uint (word_of_int v :: u16) = v"
  by (simp add: unsigned_of_int take_bit_int_eq_self)


definition demo_request :: radius_msg where
  "demo_request =
     (let as = [(RADIUS_ATTR_USER_NAME, [65]), (RADIUS_ATTR_USER_PASSWORD, replicate 16 3), (RADIUS_ATTR_PROXY_STATE, [7])]
      in \<lparr>rm_buf = \<lparr>wb_size = 44, wb_data = [1, 5, 0, 44] @ replicate 16 9 @ enc_attrs as\<rparr>,
          rm_attr_pos = attr_offsets 20 as, rm_attr_size = 16\<rparr>)"

definition demo_session :: radius_session where
  "demo_session = \<lparr>rs_ptr = 0, rs_sess_id = 0, rs_username = ''A'', rs_nas_ip = ''127.0.0.1'',
     rs_mac_addr = [9, 9, 9, 9, 9, 9], rs_last_from_port = 0, rs_last_identifier = 0, rs_last_reply = None,
     rs_last_authenticator = replicate 16 0, rs_timer = True\<rparr>"

definition demo_client :: radius_client where
  "demo_client = \<lparr>rc_addr = 0x7f000001, rc_mask = 0xffffffff, rc_shared_secret = bytes_of_string ''radius'',
     rc_sessions = [demo_session], rc_counters = zero_counters\<rparr>"

lemma demo_request_represents:
  "represents demo_request ([1, 5, 0, 44] @ replicate 16 9)
     [(RADIUS_ATTR_USER_NAME, [65]), (RADIUS_ATTR_USER_PASSWORD, replicate 16 3), (RADIUS_ATTR_PROXY_STATE, [7])]"
  by (simp add: represents_def demo_request_def RADIUS_MAX_ATTR_LEN_def)

lemma ideal_random: "\<exists>bs h'. os_get_random ideal_env n h = (Some bs, h')"
  by (simp add: os_get_random_def ideal_env_def)


end
