(* ===== verification/Radius_Sessions.thy ===== *)
theory Radius_Sessions
  imports Radius_Policy "HOL-Library.Multiset"
begin

text \<open>
  The RADIUS server over time: datagrams that are not authentic change nothing, a denied device is
  rejected whatever fails, and the table of sessions stays consistent and bounded.
\<close>

section \<open>Operations that send nothing\<close>

lemma wpabuf_put_data_quiet [quiet_ops]: "wpabuf_put_data buf d h = (buf', h') \<Longrightarrow> quiet h h'"
  by (auto simp: wpabuf_put_data_def Let_def)

lemma wpabuf_alloc_copy_quiet [quiet_ops]: "wpabuf_alloc_copy env d h = (r, h') \<Longrightarrow> quiet h h'"
  by (auto simp: wpabuf_alloc_copy_def wpabuf_alloc_def wpabuf_put_data_def os_malloc_def Let_def
      split: prod.splits option.splits if_splits)

lemma add_attr_to_array_quiet [quiet_ops]:
  "radius_msg_add_attr_to_array env msg pos h = (r, msg', h') \<Longrightarrow> quiet h h'"
  using add_attr_to_array_frame(3) [of env msg pos h r msg' h'] quiet_malloc by blast

lemma parse_attrs_quiet: "parse_attrs env data msg pos h = (r, h') \<Longrightarrow> quiet h h'"
proof (induction env data msg pos h arbitrary: r h' rule: parse_attrs.induct)
  case (1 env data msg pos h)
  obtain r1 m1 h1 where arr: "radius_msg_add_attr_to_array env msg pos h = (r1, m1, h1)"
    by (metis prod_cases3)
  have "quiet h1 h'" if "parse_attrs env data m1 (pos + unat (data ! (pos + 1))) h1 = (r, h')"
    "\<not> length data \<le> pos" "\<not> length data - pos < 2"
    "\<not> (length data - pos < unat (data ! (pos + 1)) \<or> unat (data ! (pos + 1)) < 2)" "\<not> r1 \<noteq> 0"
    using "1.IH" [OF that(2,3) refl that(4) arr [symmetric] refl refl that(5,1)] .
  with "1.prems" add_attr_to_array_quiet [OF arr] show ?case
    by (subst (asm) parse_attrs.simps) (auto simp: Let_def arr split: if_splits intro: quiet_trans)
qed

lemma radius_msg_parse_quiet [quiet_ops]: "radius_msg_parse env data h = (r, h') \<Longrightarrow> quiet h h'"
  by (auto simp: radius_msg_parse_def os_malloc_def Let_def split: if_splits prod.splits option.splits
      dest!: wpabuf_alloc_copy_quiet parse_attrs_quiet
      intro: quiet_trans [rotated] quiet_trans [OF _ quiet_trans, rotated 1])

text \<open>Adding to a message leaves its bytes in front; signing it leaves code and identifier.\<close>

lemma radius_msg_add_attr_quiet [quiet_ops]:
  assumes "radius_msg_add_attr env msg t d h = (r, msg', h')"
  shows "quiet h h'" and "prefix (rm_data msg) (rm_data msg')"
proof -
  obtain r1 buf h1 where room: "(if wpabuf_tailroom (rm_buf msg) < 2 + length d
      then wpabuf_resize env (rm_buf msg) (2 + length d) h else (0, rm_buf msg, h)) = (r1, buf, h1)"
    by (metis prod_cases3)
  then have buf: "wb_data buf = rm_data msg" "quiet h h1"
    by (auto simp: wpabuf_resize_def os_malloc_def Let_def split: if_splits)
  note run = assms [unfolded radius_msg_add_attr_def Let_def room prod.case]
  show "quiet h h'" and "prefix (rm_data msg) (rm_data msg')"
    using run buf add_attr_to_array_frame(1)
    by (auto simp: wpabuf_put_data_def Let_def prefix_def split: if_splits prod.splits
        dest!: add_attr_to_array_quiet intro: quiet_trans [rotated])
qed

lemma copy_attrs_quiet:
  "copy_attrs env src t ps dst n h = (r, dst', h') \<Longrightarrow> quiet h h' \<and> prefix (rm_data dst) (rm_data dst')"
proof (induction ps arbitrary: dst n h)
  case (Cons p ps)
  show ?case
  proof (cases "attr_type src p = t \<and> 2 \<le> attr_length src p")
    case True
    obtain q d1 h1 where add: "radius_msg_add_attr env dst t (attr_value src p) h = (q, d1, h1)"
      by (metis prod_cases3)
    with Cons.prems True Cons.IH [of d1 "n + 1" h1] radius_msg_add_attr_quiet [OF add] show ?thesis
      by (auto split: option.splits intro: quiet_trans prefix_order.trans)
  qed (use Cons in auto)
qed simp

lemma radius_msg_copy_attr_quiet [quiet_ops]:
  "radius_msg_copy_attr env dst src t h = (r, dst', h') \<Longrightarrow> quiet h h'"
  "radius_msg_copy_attr env dst src t h = (r, dst', h') \<Longrightarrow> prefix (rm_data dst) (rm_data dst')"
  using copy_attrs_quiet by (auto simp: radius_msg_copy_attr_def)

lemma radius_msg_new_quiet [quiet_ops]: "radius_msg_new env c i h = (r, h') \<Longrightarrow> quiet h h'"
  by (auto simp: radius_msg_new_def wpabuf_alloc_def wpabuf_put_data_def os_malloc_def Let_def
      split: if_splits prod.splits option.splits)

lemma poke_front: "n \<le> k \<Longrightarrow> n \<le> length xs \<Longrightarrow> take n (poke k ys xs) = take n xs"
  by (simp add: poke_def min_def)

lemma radius_msg_finish_srv_quiet [quiet_ops]:
  assumes "radius_msg_finish_srv env msg secret auth h = (r, msg', h')"
  shows "quiet h h'" and "2 \<le> length (rm_data msg) \<Longrightarrow> take 2 (rm_data msg') = take 2 (rm_data msg)"
proof -
  let ?z = "replicate MD5_MAC_LEN 0 :: bytes"
  obtain q m h1 where add: "radius_msg_add_attr env msg RADIUS_ATTR_MESSAGE_AUTHENTICATOR ?z h = (q, m, h1)"
    by (metis prod_cases3)
  note front = radius_msg_add_attr_quiet [OF add]
  show "quiet h h'"
    using assms front(1) by (auto simp: radius_msg_finish_srv_def add Let_def split: option.splits)
  assume len: "2 \<le> length (rm_data msg)"
  then have m: "take 2 (rm_data m) = take 2 (rm_data msg)" "2 \<le> length (rm_data m)"
    using front(2) by (auto simp: prefix_def)
  have len_poke: "length xs \<le> length (poke k ys xs)" for k and xs ys :: bytes
    by (simp add: poke_def)
  show "take 2 (rm_data msg') = take 2 (rm_data msg)"
    using assms m order_trans [OF m(2) len_poke] order_trans [OF order_trans [OF m(2) len_poke] len_poke]
      order_trans [OF order_trans [OF order_trans [OF m(2) len_poke] len_poke] len_poke] len
    by (cases q) (auto simp: radius_msg_finish_srv_def add put_authenticator_def put_length_def poke_front Let_def)
qed

lemma radius_msg_verify_msg_auth_quiet [quiet_ops]:
  "radius_msg_verify_msg_auth msg secret a h = (r, h') \<Longrightarrow> quiet h h'"
  by (auto simp: radius_msg_verify_msg_auth_def Let_def split: list.splits if_splits)

lemma allocate_vlan_quiet [quiet_ops]: "allocate_vlan env c m ty rnd h = (v, h') \<Longrightarrow> quiet h h'"
  by (auto simp: allocate_vlan_def os_malloc_def Let_def
      split: if_splits VLAN_ALLOCATION_TYPE.splits)

section \<open>Datagrams that are not authentic\<close>

text \<open>The request of a known client with a valid Message-Authenticator.\<close>

definition authentic_request ::
  "env \<Rightarrow> radius_server_data \<Rightarrow> string \<Rightarrow> client_address \<Rightarrow> hist \<Rightarrow> bool" where
  "authentic_request env data buf from h =
     (case radius_server_get_client data (sin_addr from) of
        None \<Rightarrow> False
      | Some c \<Rightarrow>
          (case radius_msg_parse env (bytes_of_string buf) h of
             (None, _) \<Rightarrow> False
           | (Some msg, h) \<Rightarrow>
               hdr_code msg = RADIUS_CODE_ACCESS_REQUEST \<and>
               fst (radius_msg_verify_msg_auth msg (rc_shared_secret (sd_clients data ! c)) None h) = 0))"

definition sessions :: "radius_server_data \<Rightarrow> radius_session list list" where
  "sessions data = map rc_sessions (sd_clients data)"

lemma bump_frame [simp]:
  "sessions (bump f c data) = sessions data"
  "sd_num_sess (bump f c data) = sd_num_sess data" "sd_next_ptr (bump f c data) = sd_next_ptr data"
  "length (sd_clients (bump f c data)) = length (sd_clients data)"
  "rc_shared_secret (sd_clients (bump f c data) ! c) = rc_shared_secret (sd_clients data ! c)"
  "rc_sessions (sd_clients (bump f c data) ! c) = rc_sessions (sd_clients data ! c)"
  by (cases "c < length (sd_clients data)";
      simp add: bump_def update_client_def sessions_def map_update list_update_beyond list_update_same_conv)+

text \<open>
  C14: a datagram from an unknown address, one that is not a well formed Access-Request, or one
  whose Message-Authenticator does not verify with the secret of the client, changes neither the
  supervisor nor the sessions, and nothing is sent.
\<close>

theorem unauthenticated_request_ignored:
  assumes run: "radius_server_receive_auth env sock context data h = (context', data', h')"
    and "\<forall>d from. env_recv env (E_recv sock RADIUS_MAX_MSG_LEN # E_malloc # h) = Some (d, from) \<longrightarrow>
           \<not> authentic_request env data (take RADIUS_MAX_MSG_LEN d) from (E_recv sock RADIUS_MAX_MSG_LEN # E_malloc # h)"
  shows "context' = context \<and> sessions data' = sessions data \<and> quiet h h'"
proof -
  let ?h = "E_recv sock RADIUS_MAX_MSG_LEN # E_malloc # h"
  consider "\<not> env_malloc env (E_malloc # h)" | "env_malloc env (E_malloc # h)" "env_recv env ?h = None"
    | d a where "env_malloc env (E_malloc # h)" "env_recv env ?h = Some (d, a)"
    by (cases "env_recv env ?h") auto
  then show ?thesis
  proof cases
    case 3
    then have bad: "\<not> authentic_request env data (take RADIUS_MAX_MSG_LEN d) a ?h"
      using assms(2) by blast
    obtain r h1 where parse: "radius_msg_parse env (bytes_of_string (take RADIUS_MAX_MSG_LEN d)) ?h = (r, h1)"
      by force
    have q: "quiet h h1"
      using quiet_trans [OF _ radius_msg_parse_quiet [OF parse]] by simp
    show ?thesis
    proof (cases "radius_server_get_client data (sin_addr a)")
      case None
      with run 3 show ?thesis
        by (auto simp: radius_server_receive_auth_def recv_from_def os_malloc_def sessions_def)
    next
      case (Some c)
      note run' = run [unfolded radius_server_receive_auth_def os_malloc_def recv_from_def]
      show ?thesis
      proof (cases r)
        case None
        with run' 3 Some parse q show ?thesis
          by auto
      next
        case (Some msg)
        obtain v h2 where v: "radius_msg_verify_msg_auth msg (rc_shared_secret (sd_clients data ! c)) None h1 = (v, h2)"
          by force
        have "quiet h h2"
          using quiet_trans [OF q radius_msg_verify_msg_auth_quiet [OF v]] .
        then show ?thesis
          using run' 3 Some \<open>radius_server_get_client data (sin_addr a) = Some c\<close> parse q v bad
          by (cases "hdr_code msg = RADIUS_CODE_ACCESS_REQUEST") (auto simp: authentic_request_def)
      qed
    qed
  qed (use run in \<open>auto simp: radius_server_receive_auth_def recv_from_def os_malloc_def\<close>)
qed

definition demo_data :: radius_server_data where
  "demo_data = \<lparr>sd_auth_sock = 4, sd_clients = [demo_client], sd_next_sess_id = 1, sd_num_sess = 1,
     sd_counters = zero_counters, sd_next_ptr = 1\<rparr>"

definition demo_peer :: client_address where
  "demo_peer = (blank_address SOCKET_TYPE_UDP)\<lparr>sin_addr := 0x7f000001, sin_port := 40000\<rparr>"

theorem unauthenticated_request_ignored_witness:
  "(let env = ideal_env\<lparr>env_recv := \<lambda>_. Some (''xyz'', demo_peer)\<rparr>;
        (context', data', h') = radius_server_receive_auth env 4 demo_context demo_data []
    in context' = demo_context \<and> sessions data' = [[demo_session]] \<and> quiet [] h')"
proof -
  let ?env = "ideal_env\<lparr>env_recv := \<lambda>_. Some (''xyz'', demo_peer)\<rparr>"
  obtain context' data' h' where run: "radius_server_receive_auth ?env 4 demo_context demo_data [] = (context', data', h')"
    by (metis prod_cases3)
  have "radius_msg_parse ?env (bytes_of_string ''xyz'') h = (None, h)" for h
    by (simp add: radius_msg_parse_def bytes_of_string_def)
  then have "\<not> authentic_request ?env demo_data ''xyz'' demo_peer h" for h
    by (simp add: authentic_request_def split: option.split)
  from unauthenticated_request_ignored [OF run] this show ?thesis
    unfolding run Let_def prod.case by (simp add: RADIUS_MAX_MSG_LEN_def sessions_def demo_data_def demo_client_def)
qed

section \<open>A denied device\<close>

text \<open>What is sent between two histories is an Access-Reject.\<close>

definition only_rejects :: "hist \<Rightarrow> hist \<Rightarrow> bool" where
  "only_rejects h h' \<longleftrightarrow>
     (\<exists>hs. h' = hs @ h \<and> (\<forall>s d a. E_sendto s d a \<in> set hs \<longrightarrow> take 1 (bytes_of_string d) = [RADIUS_CODE_ACCESS_REJECT]))"

lemma only_rejects_quiet: "quiet h h' \<Longrightarrow> only_rejects h h'"
  by (force simp: quiet_def only_rejects_def)

lemma only_rejects_trans [trans]:
  assumes "only_rejects h1 h2" and "only_rejects h2 h3"
  shows "only_rejects h1 h3"
proof -
  let ?R = "\<lambda>hs. \<forall>s d a. E_sendto s d a \<in> set hs \<longrightarrow> take 1 (bytes_of_string d) = [RADIUS_CODE_ACCESS_REJECT]"
  obtain ds where ds: "h2 = ds @ h1" "?R ds"
    using assms(1) unfolding only_rejects_def by (elim exE conjE)
  obtain es where es: "h3 = es @ h2" "?R es"
    using assms(2) unfolding only_rejects_def by (elim exE conjE)
  have "?R (es @ ds)"
    using ds(2) es(2) unfolding set_append Un_iff by blast
  with ds(1) es(1) show ?thesis
    unfolding only_rejects_def by (intro exI [of _ "es @ ds"] conjI) simp_all
qed

lemma send_radius_rejects:
  assumes "take 1 (rm_data msg) = [RADIUS_CODE_ACCESS_REJECT]" and "send_radius env data msg a h = (r, h')"
  shows "only_rejects h h'"
  using assms by (auto simp: send_radius_def only_rejects_def Let_def)

text \<open>The code of a reply is the one it was made with.\<close>

lemma signed_reply_code:
  assumes new: "radius_msg_new env code i h = (Some m, h1)"
    and copy: "radius_msg_copy_attr env m req t h1 = (n, m2, h2)"
    and fin: "radius_msg_finish_srv env m2 secret auth h2 = (r, m3, h3)"
  shows "quiet h h3 \<and> take 1 (rm_data m3) = [code]"
proof -
  have "take 2 (rm_data m) = [code, i] \<and> 2 \<le> length (rm_data m)"
    using new by (auto simp: radius_msg_new_def radius_msg_set_hdr_def poke_def RADIUS_DEFAULT_MSG_SIZE_def wpabuf_alloc_def wpabuf_put_data_def os_malloc_def Let_def
      split: if_splits prod.splits option.splits)
  then have m2: "take 2 (rm_data m2) = [code, i]" "2 \<le> length (rm_data m2)"
    using radius_msg_copy_attr_quiet(2) [OF copy] by (auto simp: prefix_def)
  then have "take 1 (take 2 (rm_data m3)) = [code]"
    using radius_msg_finish_srv_quiet(2) [OF fin] by simp
  moreover have "quiet h h3"
    using quiet_trans [OF quiet_trans [OF radius_msg_new_quiet [OF new] radius_msg_copy_attr_quiet(1) [OF copy]]
        radius_msg_finish_srv_quiet(1) [OF fin]] .
  ultimately show ?thesis
    by (simp add: min_def)
qed

lemma radius_server_reject_rejects:
  assumes "radius_server_reject env data c request a h = (r, data', h')"
  shows "only_rejects h h'"
proof -
  obtain m h1 where new: "radius_msg_new env RADIUS_CODE_ACCESS_REJECT (hdr_identifier request) h = (m, h1)"
    by force
  note run = assms [unfolded radius_server_reject_def new]
  show ?thesis
  proof (cases m)
    case None
    with run radius_msg_new_quiet [OF new] show ?thesis
      by (auto intro: only_rejects_quiet)
  next
    case (Some msg)
    obtain n m2 h2 where copy: "radius_msg_copy_attr env msg request RADIUS_ATTR_PROXY_STATE h1 = (n, m2, h2)"
      by (metis prod_cases3)
    obtain q m3 h3 where fin: "radius_msg_finish_srv env m2 (rc_shared_secret (sd_clients data ! c))
        (hdr_authenticator request) h2 = (q, m3, h3)"
      by (metis prod_cases3)
    note code = signed_reply_code [OF new [unfolded Some] copy fin]
    have "quiet h h2"
      using radius_msg_new_quiet [OF new] radius_msg_copy_attr_quiet(1) [OF copy] by (rule quiet_trans)
    then have "only_rejects h h2" and "only_rejects h h3"
      using code by (auto intro: only_rejects_quiet)
    obtain r4 h4 where send: "send_radius env (bump inc_rejects c data) m3 (a\<lparr>ca_len := SOCKADDR_IN_LEN\<rparr>) h3 = (r4, h4)"
      by force
    have "only_rejects h h4"
      using \<open>only_rejects h h3\<close> send_radius_rejects [OF conjunct2 [OF code] send] by (rule only_rejects_trans)
    with run \<open>only_rejects h h2\<close> show ?thesis
      by (auto simp: Some copy fin send split: if_splits)
  qed
qed

lemma get_mac_conn_cmd_denied_quiet:
  assumes "denied context m"
  shows "\<exists>info h'. get_mac_conn_cmd env context m h = (info, context, h') \<and> mi_vlanid info = - 1 \<and> quiet h h'"
proof -
  obtain info where "map_of (mac_mapper context) m = Some info" "\<not> mi_allow_connection info"
    using assms by (auto simp: denied_def split: option.splits)
  then show ?thesis
    by (auto simp: get_mac_conn_cmd_def get_mac_mapper_def Let_def split: prod.splits dest: allocate_vlan_quiet)
qed

lemma radius_server_macacl_denied:
  assumes "denied context (rs_mac_addr sess)"
    and "radius_server_macacl env context client sess request h = (r, context', h')"
  shows "context' = context \<and> quiet h h' \<and> (\<forall>reply. r = Some reply \<longrightarrow> take 1 (rm_data reply) = [RADIUS_CODE_ACCESS_REJECT])"
proof -
  obtain info h0 where conn: "get_mac_conn_cmd env context (rs_mac_addr sess) h = (info, context, h0)"
    and out: "\<not> 0 \<le> mi_vlanid info" and q0: "quiet h h0"
    using get_mac_conn_cmd_denied_quiet [OF assms(1), of env h] by auto
  obtain m h1 where new: "radius_msg_new env RADIUS_CODE_ACCESS_REJECT (hdr_identifier request) h0 = (m, h1)"
    by force
  have code: "\<not> (0 \<le> mi_vlanid info \<and> x)" "RADIUS_CODE_ACCESS_REJECT \<noteq> RADIUS_CODE_ACCESS_ACCEPT" for x
    using out by (auto simp: RADIUS_CODE_ACCESS_REJECT_def RADIUS_CODE_ACCESS_ACCEPT_def)
  note run = assms(2) [unfolded radius_server_macacl_def conn Let_def prod.case if_not_P [OF out] if_not_P [OF code(1)] option.case new]
  have q1: "quiet h h1"
    using q0 radius_msg_new_quiet [OF new] by (rule quiet_trans)
  show ?thesis
  proof (cases m)
    case None
    with run q1 show ?thesis
      by auto
  next
    case (Some msg)
    obtain n m2 h2 where copy: "radius_msg_copy_attr env msg request RADIUS_ATTR_PROXY_STATE h1 = (n, m2, h2)"
      by (metis prod_cases3)
    obtain q m3 h3 where fin: "radius_msg_finish_srv env m2 (rc_shared_secret client) (hdr_authenticator request) h2 = (q, m3, h3)"
      by (metis prod_cases3)
    have "quiet h h2"
      using q1 radius_msg_copy_attr_quiet(1) [OF copy] by (rule quiet_trans)
    moreover have "quiet h h3" and "take 1 (rm_data m3) = [RADIUS_CODE_ACCESS_REJECT]"
      using signed_reply_code [OF new [unfolded Some] copy fin] quiet_trans [OF q0] by auto
    ultimately show ?thesis
      using run code(2) by (auto simp: Some copy fin split: if_splits)
  qed
qed

text \<open>The session of a request without State is a new one, for the address of its Calling-Station-Id.\<close>

definition station_mac :: "radius_msg \<Rightarrow> mac" where
  "station_mac msg =
     (case radius_msg_get_attr_ptr msg RADIUS_ATTR_CALLING_STATION_ID None of
        None \<Rightarrow> replicate 6 0
      | Some idv \<Rightarrow> calling_station_mac idv)"

lemma find_session_new:
  assumes "find_attr msg RADIUS_ATTR_STATE = None"
    and "find_session env data c msg a h = (r, data', h')"
  shows "quiet h h' \<and> (\<forall>s. r = Some s \<longrightarrow> rs_mac_addr s = station_mac msg \<and> rs_last_reply s = None)"
  using assms
  by (auto simp: find_session_def radius_msg_get_attr_def radius_server_get_new_session_def radius_server_new_session_def
      station_mac_def os_malloc_def Let_def split: option.splits if_splits)



section \<open>The table of sessions\<close>

definition session_ptrs :: "radius_server_data \<Rightarrow> nat list" where
  "session_ptrs data = map rs_ptr (concat (sessions data))"

text \<open>
  The counter is the number of sessions, it stays within the limit, and no two sessions are at
  the same address.
\<close>

definition server_ok :: "radius_server_data \<Rightarrow> bool" where
  "server_ok data \<longleftrightarrow>
     sd_num_sess data = int (length (session_ptrs data)) \<and> sd_num_sess data \<le> RADIUS_MAX_SESSION \<and>
     distinct (session_ptrs data) \<and> (\<forall>p \<in> set (session_ptrs data). p < sd_next_ptr data)"

lemma mset_concat_update:
  "i < length xss \<Longrightarrow> mset (concat (xss[i := ys])) + mset (xss ! i) = mset (concat xss) + mset ys"
  by (induction xss arbitrary: i) (auto simp: nth_Cons add_ac split: nat.splits)

lemma update_client_ptrs:
  assumes "i < length (sd_clients data)"
  shows "mset (session_ptrs (update_client data i f)) + mset (map rs_ptr (rc_sessions (sd_clients data ! i))) =
    mset (session_ptrs data) + mset (map rs_ptr (rc_sessions (f (sd_clients data ! i))))"
  using mset_concat_update [of i "map (map rs_ptr \<circ> rc_sessions) (sd_clients data)"] assms
  by (simp add: session_ptrs_def sessions_def update_client_def map_concat comp_def map_update)

lemma remove_first_ptrs:
  "list_ex (\<lambda>s. rs_ptr s = p) xs \<Longrightarrow>
   mset (map rs_ptr xs) = add_mset p (mset (map rs_ptr (remove_first (\<lambda>s. rs_ptr s = p) xs)))"
  by (induction xs) auto

lemma session_ptrs_frame [simp]:
  "session_ptrs (data\<lparr>sd_num_sess := n\<rparr>) = session_ptrs data"
  "session_ptrs (data\<lparr>sd_next_ptr := p\<rparr>) = session_ptrs data"
  "session_ptrs (data\<lparr>sd_next_sess_id := i\<rparr>) = session_ptrs data"
  "session_ptrs (data\<lparr>sd_counters := k\<rparr>) = session_ptrs data"
  by (simp_all add: session_ptrs_def sessions_def)

lemma server_ok_bump [simp]: "server_ok (bump f c data) = server_ok data"
  by (simp add: server_ok_def session_ptrs_def)

lemma update_session_ptrs [simp]:
  assumes "\<And>s. rs_ptr s = p \<Longrightarrow> rs_ptr (f s) = p"
  shows "session_ptrs (update_session data c p f) = session_ptrs data"
proof -
  have "map rs_ptr (map (\<lambda>s. if rs_ptr s = p then f s else s) xs) = map rs_ptr xs" for xs
    using assms by (induction xs) auto
  then have "map (map rs_ptr \<circ> rc_sessions) (sd_clients (update_session data c p f)) = map (map rs_ptr \<circ> rc_sessions) (sd_clients data)"
    by (cases "c < length (sd_clients data)")
      (simp_all add: update_session_def update_client_def map_update list_update_same_conv list_update_beyond)
  then show ?thesis
    by (simp add: session_ptrs_def sessions_def map_concat)
qed

lemma server_ok_update_session:
  assumes "\<And>s. rs_ptr s = p \<Longrightarrow> rs_ptr (f s) = p"
  shows "server_ok (update_session data c p f) = server_ok data"
  using update_session_ptrs [OF assms]
  by (simp add: server_ok_def) (simp add: update_session_def update_client_def)

lemma session_remove_ok:
  assumes ok: "server_ok data" and c: "c < length (sd_clients data)"
  shows "server_ok (radius_server_session_remove data c p)"
proof (cases "list_ex (\<lambda>s. rs_ptr s = p) (rc_sessions (sd_clients data ! c))")
  case True
  let ?d = "radius_server_session_remove data c p"
  have "mset (session_ptrs data) = add_mset p (mset (session_ptrs ?d))"
    using update_client_ptrs [of c "data\<lparr>sd_num_sess := sd_num_sess data - 1\<rparr>"
        "\<lambda>cl. cl\<lparr>rc_sessions := remove_first (\<lambda>s. rs_ptr s = p) (rc_sessions cl)\<rparr>"] c True remove_first_ptrs [OF True]
    by (simp add: radius_server_session_remove_def)
  then have perm: "mset (session_ptrs data) = mset (p # session_ptrs ?d)"
    by simp
  then have "distinct (p # session_ptrs ?d)" "set (session_ptrs data) = insert p (set (session_ptrs ?d))"
    "length (session_ptrs data) = Suc (length (session_ptrs ?d))"
    using ok mset_eq_imp_distinct_iff [OF perm] mset_eq_setD [OF perm] mset_eq_length [OF perm]
    by (auto simp: server_ok_def)
  moreover have "sd_num_sess ?d = sd_num_sess data - 1" "sd_next_ptr ?d = sd_next_ptr data"
    using True by (simp_all add: radius_server_session_remove_def update_client_def)
  ultimately show ?thesis
    using ok by (simp add: server_ok_def)
qed (use ok in \<open>simp add: radius_server_session_remove_def\<close>)

lemma new_session_ok:
  assumes ok: "server_ok data" and c: "c < length (sd_clients data)"
    and run: "radius_server_new_session env data c h = (r, data', h')"
  shows "server_ok data' \<and> length (sd_clients data') = length (sd_clients data)"
proof (cases r)
  case None
  with run ok show ?thesis
    by (auto simp: radius_server_new_session_def Let_def split: if_splits prod.splits)
next
  case (Some s)
  have d: "data' = update_client (data\<lparr>sd_next_ptr := sd_next_ptr data + 1, sd_next_sess_id := sd_next_sess_id data + 1,
        sd_num_sess := sd_num_sess data + 1\<rparr>) c (\<lambda>cl. cl\<lparr>rc_sessions := s # rc_sessions cl\<rparr>)"
    and room: "sd_num_sess data < RADIUS_MAX_SESSION" and s: "rs_ptr s = sd_next_ptr data"
    using run Some by (auto simp: radius_server_new_session_def Let_def split: if_splits prod.splits)
  have perm: "mset (session_ptrs data') = mset (sd_next_ptr data # session_ptrs data)"
    using update_client_ptrs [of c "data\<lparr>sd_next_ptr := sd_next_ptr data + 1, sd_next_sess_id := sd_next_sess_id data + 1,
        sd_num_sess := sd_num_sess data + 1\<rparr>" "\<lambda>cl. cl\<lparr>rc_sessions := s # rc_sessions cl\<rparr>"] c
    by (simp add: d s)
  have "distinct (session_ptrs data')" "set (session_ptrs data') = insert (sd_next_ptr data) (set (session_ptrs data))"
    "length (session_ptrs data') = Suc (length (session_ptrs data))"
    using ok mset_eq_imp_distinct_iff [OF perm] mset_eq_setD [OF perm] mset_eq_length [OF perm]
    by (auto simp: server_ok_def)
  moreover have "sd_num_sess data' = sd_num_sess data + 1" "sd_next_ptr data' = sd_next_ptr data + 1"
    "length (sd_clients data') = length (sd_clients data)"
    by (simp_all add: d update_client_def)
  ultimately show ?thesis
    using ok room by (auto simp: server_ok_def)
qed

lemma get_new_session_ok:
  assumes ok: "server_ok data" and c: "c < length (sd_clients data)"
    and run: "radius_server_get_new_session env data c msg a h = (r, data', h')"
  shows "server_ok data'"
proof (cases "radius_msg_get_attr_ptr msg RADIUS_ATTR_USER_NAME None")
  case (Some user)
  obtain s d1 h1 where new: "radius_server_new_session env data c h = (s, d1, h1)"
    by (metis prod_cases3)
  note d1 = new_session_ok [OF ok c new]
  show ?thesis
    using run d1 c session_remove_ok [of d1 c]
    by (auto simp: radius_server_get_new_session_def Some new Let_def server_ok_update_session
        split: option.splits prod.splits if_splits)
qed (use run ok in \<open>auto simp: radius_server_get_new_session_def\<close>)

lemma find_session_ok:
  assumes "server_ok data" and "c < length (sd_clients data)" and "find_session env data c msg a h = (r, data', h')"
  shows "server_ok data'"
  using assms get_new_session_ok [OF assms(1,2)]
  by (auto simp: find_session_def split: option.splits prod.splits if_splits)

lemma reject_ok:
  "server_ok data \<Longrightarrow> radius_server_reject env data c msg a h = (r, data', h') \<Longrightarrow> server_ok data'"
  by (auto simp: radius_server_reject_def Let_def split: option.splits prod.splits if_splits)

lemma radius_server_macacl_ok:
  assumes "ctx_ok context" and "radius_server_macacl env context client sess msg h = (r, context', h')"
  shows "ctx_ok context'"
proof -
  obtain info c1 h1 where conn: "get_mac_conn_cmd env context (rs_mac_addr sess) h = (info, c1, h1)"
    by (metis prod_cases3)
  have "context' = c1"
    using assms(2) by (auto simp: radius_server_macacl_def conn Let_def split: option.splits prod.splits if_splits)
  then show ?thesis
    using get_mac_conn_cmd_ok [OF conn assms(1)] by simp
qed

lemma radius_server_request_ok:
  assumes ok: "server_ok data" "ctx_ok context" and c: "c < length (sd_clients data)"
    and "radius_server_request env context data msg src c from_addr from_port h = (r, context', data', h')"
  shows "server_ok data' \<and> ctx_ok context'"
proof -
  obtain s d1 h1 where find: "find_session env data c msg from_addr h = (s, d1, h1)"
    by (metis prod_cases3)
  note d1 = find_session_ok [OF ok(1) c find]
  note run = assms(4) [unfolded radius_server_request_def find]
  show ?thesis
  proof (cases s)
    case None
    with run d1 ok(2) reject_ok [of d1 env c msg src h1] show ?thesis
      by (auto split: prod.splits)
  next
    case (Some sess)
    obtain m c2 h2 where acl: "radius_server_macacl env context (sd_clients d1 ! c) sess msg h1 = (m, c2, h2)"
      by (metis prod_cases3)
    note c2 = radius_server_macacl_ok [OF ok(2) acl]
    show ?thesis
      using run d1 c2 ok(2)
      by (auto simp: Some acl Let_def server_ok_update_session split: option.splits prod.splits if_splits)
  qed
qed

lemma get_client_less: "radius_server_get_client data a = Some c \<Longrightarrow> c < length (sd_clients data)"
  by (auto simp: radius_server_get_client_def find_Some_iff)

lemma radius_server_receive_auth_ok:
  assumes "server_ok data" and "ctx_ok context"
    and "radius_server_receive_auth env sock context data h = (context', data', h')"
  shows "server_ok data' \<and> ctx_ok context'"
proof -
  have counters: "server_ok (data\<lparr>sd_counters := k\<rparr>) = server_ok data" for k
    by (simp add: server_ok_def)
  have request: "server_ok d2 \<and> ctx_ok c2"
    if "radius_server_request env context (bump f c data) msg src c fa fp h1 = (r, c2, d2, h2)"
      "radius_server_get_client data a = Some c" for f c msg src fa fp h1 r c2 d2 h2 a
    using radius_server_request_ok [OF _ assms(2) _ that(1)] assms(1) get_client_less [OF that(2)] by simp
  obtain ok h1 where m: "os_malloc env h = (ok, h1)"
    by force
  obtain len buf src h2 where rcv: "recv_from env sock RADIUS_MAX_MSG_LEN (blank_address SOCKET_TYPE_UDP) h1 = (len, buf, src, h2)"
    by (metis prod_cases4)
  show ?thesis
    using assms(3) assms(1,2)
    by (auto simp: radius_server_receive_auth_def m rcv Let_def counters split: if_splits option.splits prod.splits
        dest: request)
qed

text \<open>
  The event loop with the RADIUS server: a datagram arrives, the timer of a session expires, or a
  handler of the supervisor runs.
\<close>

type_synonym gateway = "supervisor_context \<times> radius_server_data \<times> hist"

inductive gateway_step :: "env \<Rightarrow> gateway \<Rightarrow> gateway \<Rightarrow> bool" for env where
  receive: "gateway_step env (c, d, h) (radius_server_receive_auth env sock c d h)"
| expire: "i < length (sd_clients d) \<Longrightarrow> s \<in> set (rc_sessions (sd_clients d ! i)) \<Longrightarrow> rs_timer s \<Longrightarrow>
    gateway_step env (c, d, h) (c, radius_server_session_timeout d i (rs_ptr s), h)"
| supervisor: "eloop_step env (c, h) (c', h') \<Longrightarrow> gateway_step env (c, d, h) (c', d, h')"

inductive gateway_reachable :: "env \<Rightarrow> gateway \<Rightarrow> bool" for env where
  boot: "run_radius env addr bits secret sock registered h = (Some d, h') \<Longrightarrow> ctx_ok c \<Longrightarrow> gateway_reachable env (c, d, h')"
| step: "gateway_reachable env s \<Longrightarrow> gateway_step env s s' \<Longrightarrow> gateway_reachable env s'"

lemma run_radius_ok: "run_radius env addr bits secret sock registered h = (Some d, h') \<Longrightarrow> server_ok d"
  by (auto simp: run_radius_def init_radius_client_def radius_server_init_def server_ok_def session_ptrs_def sessions_def
      RADIUS_MAX_SESSION_def Let_def split: option.splits prod.splits if_splits)

lemma gateway_step_ok:
  "gateway_step env s s' \<Longrightarrow> server_ok (fst (snd s)) \<and> ctx_ok (fst s) \<Longrightarrow> server_ok (fst (snd s')) \<and> ctx_ok (fst s')"
proof (induction rule: gateway_step.induct)
  case (receive c d h sock)
  then show ?case
    using radius_server_receive_auth_ok [of d c env sock h] by (cases "radius_server_receive_auth env sock c d h") auto
next
  case (expire i d s c h)
  then show ?case
    by (simp add: radius_server_session_timeout_def session_remove_ok)
next
  case (supervisor c h c' h' d)
  then show ?case
    using eloop_step_ok [OF supervisor.hyps] by simp
qed

text \<open>
  C3: in every state the gateway reaches, the session counter of the RADIUS server is the number
  of sessions, at most 1000, no two sessions share an address, so that a timer removes its own
  session only, and the state of the supervisor is well formed.
\<close>

theorem gateway_invariant:
  assumes "gateway_reachable env (context, data, h)"
  shows "server_ok data \<and> ctx_ok context"
proof -
  have "server_ok (fst (snd s)) \<and> ctx_ok (fst s)" if "gateway_reachable env s" for s
    using that
  proof (induction rule: gateway_reachable.induct)
    case (step s s')
    then show ?case
      using gateway_step_ok by blast
  qed (simp add: run_radius_ok)
  from this [OF assms] show ?thesis
    by simp
qed

theorem gateway_invariant_witness:
  "(case run_radius ideal_env (Some 0x7f000001) 32 ''radius'' 4 True [] of
      (Some d, h) \<Rightarrow> (case radius_server_receive_auth ideal_env 4 demo_context d h of (c, d, h) \<Rightarrow> server_ok d \<and> ctx_ok c)
    | (None, _) \<Rightarrow> False)"
proof -
  obtain d h where run: "run_radius ideal_env (Some 0x7f000001) 32 ''radius'' 4 True [] = (Some d, h)"
    by (simp add: run_radius_def init_radius_client_def radius_server_init_def os_malloc_total ideal_alloc)
  obtain c2 d2 h2 where rcv: "radius_server_receive_auth ideal_env 4 demo_context d h = (c2, d2, h2)"
    by (metis prod_cases3)
  have "gateway_reachable ideal_env (c2, d2, h2)"
    using gateway_reachable.step [OF gateway_reachable.boot [OF run demo_context_ok] gateway_step.receive [where sock = 4]]
    by (simp only: rcv)
  from gateway_invariant [OF this] show ?thesis
    by (simp add: run rcv)
qed

text \<open>
  C32: the five bytes \<open>get_vlan_attribute\<close> has for the number of the VLAN are overrun for the
  numbers from 10000, and only for those.
\<close>

theorem vlan_attribute_overrun:
  assumes "alloc_total env" and "get_vlan_attribute env v [] = (r, h)"
  shows "r \<noteq> None \<and> (E_ub Stack_Overrun \<in> set h \<longleftrightarrow> 10000 \<le> unat v)"
  using get_vlan_attribute_total [OF assms(1), of v "[]"] assms(2) by (auto split: if_splits)

theorem vlan_attribute_overrun_witness:
  "E_ub Stack_Overrun \<in> set (snd (get_vlan_attribute ideal_env 12345 []))"
  using vlan_attribute_overrun [OF ideal_alloc, of 12345, OF prod.collapse [symmetric]] by simp

end
