(* ===== verification/Base64.thy ===== *)
theory Base64
  imports Sockctl
begin

text \<open>
  utils/base64.c: the text the crypt service keeps keys and values in.  The buffers are the lists
  of the bytes written to them; a write past the size that was allocated is recorded.  The
  theorems say that neither function leaves its buffer and that decoding inverts encoding.
\<close>

unbundle bit_operations_syntax

section \<open>Encoding\<close>

definition base64_table :: bytes where
  "base64_table = bytes_of_string ''ABCDEFGHIJKLMNOPQRSTUVWXYZabcdefghijklmnopqrstuvwxyz0123456789+/''"

definition base64_url_table :: bytes where
  "base64_url_table = bytes_of_string ''ABCDEFGHIJKLMNOPQRSTUVWXYZabcdefghijklmnopqrstuvwxyz0123456789-_''"

abbreviation PAD :: u8 where "PAD \<equiv> 61"
abbreviation LF :: u8 where "LF \<equiv> 10"

abbreviation sextet :: "bytes \<Rightarrow> u8 \<Rightarrow> u8" where
  "sextet table v \<equiv> table ! unat (v AND 0x3f)"

text \<open>The loop over the blocks of three bytes: what is left, the text, the length of the last line.\<close>

fun encode_blocks :: "bytes \<Rightarrow> bool \<Rightarrow> bytes \<Rightarrow> nat \<Rightarrow> bytes \<Rightarrow> bytes \<times> bytes \<times> nat" where
  "encode_blocks table add_pad (a # b # c # src) line_len out =
     (let out = out @ [sextet table (drop_bit 2 a),
                       sextet table (push_bit 4 (a AND 0x03) OR drop_bit 4 b),
                       sextet table (push_bit 2 (b AND 0x0f) OR drop_bit 6 c),
                       sextet table c];
          line_len = line_len + 4
      in if add_pad \<and> 72 \<le> line_len then encode_blocks table add_pad src 0 (out @ [LF])
         else encode_blocks table add_pad src line_len out)"
| "encode_blocks table add_pad src line_len out = (src, out, line_len)"

text \<open>The one or two bytes that are left.\<close>

fun encode_tail :: "bytes \<Rightarrow> bool \<Rightarrow> bytes \<Rightarrow> bytes" where
  "encode_tail table add_pad [] = []"
| "encode_tail table add_pad [a] =
     [sextet table (drop_bit 2 a), sextet table (push_bit 4 (a AND 0x03))] @ (if add_pad then [PAD, PAD] else [])"
| "encode_tail table add_pad (a # b # _) =
     [sextet table (drop_bit 2 a), sextet table (push_bit 4 (a AND 0x03) OR drop_bit 4 b),
      sextet table (push_bit 2 (b AND 0x0f))] @ (if add_pad then [PAD] else [])"

definition SIZE_MAX :: nat where "SIZE_MAX = 2 ^ 64 - 1"

text \<open>The size of the buffer; it cannot wrap around for the lengths that are let through.\<close>

definition encode_size :: "nat \<Rightarrow> bool \<Rightarrow> nat" where
  "encode_size len add_pad =
     (let olen = len * 4 div 3 + 4; olen = (if add_pad then olen + olen div 72 else olen) in olen + 1)"

definition base64_gen_encode :: "env \<Rightarrow> bytes \<Rightarrow> bytes \<Rightarrow> bool \<Rightarrow> hist \<Rightarrow> bytes option \<times> hist" where
  "base64_gen_encode env src table add_pad h =
     (if SIZE_MAX div 4 \<le> length src then (None, h)
      else
        let olen = encode_size (length src) add_pad in
        if olen < length src then (None, h)
        else
          let (ok, h) = os_malloc env h in
          if \<not> ok then (None, h)
          else
            let (rest, out, line_len) = encode_blocks table add_pad src 0 [];
                out = out @ encode_tail table add_pad rest;
                line_len = (if rest \<noteq> [] then line_len + 4 else line_len);
                out = (if add_pad \<and> line_len \<noteq> 0 then out @ [LF] else out)
            in (Some out, if olen < length out + 1 then E_ub Heap_Overrun # h else h))"

definition base64_encode :: "env \<Rightarrow> bytes \<Rightarrow> hist \<Rightarrow> bytes option \<times> hist" where
  "base64_encode env src h = base64_gen_encode env src base64_table False h"

definition base64_url_encode :: "env \<Rightarrow> bytes \<Rightarrow> bool \<Rightarrow> hist \<Rightarrow> bytes option \<times> hist" where
  "base64_url_encode env src add_pad h = base64_gen_encode env src base64_url_table add_pad h"

section \<open>Decoding\<close>

text \<open>The table from characters to sextets, 0x80 for a character that is skipped.\<close>

definition decode_table :: "bytes \<Rightarrow> bytes" where
  "decode_table table =
     (foldl (\<lambda>dt i. dt[unat (table ! i) := word_of_nat i]) (replicate 256 0x80) [0..<64])[unat PAD := 0]"

text \<open>
  The loop over the characters, with the number of PAD seen and the characters of the current
  block.  The result is what was written to the buffer and how many bytes at its end are taken
  back, None for wrong padding.
\<close>

fun decode_loop :: "bytes \<Rightarrow> bytes \<Rightarrow> nat \<Rightarrow> bytes \<Rightarrow> bytes \<Rightarrow> bytes \<times> nat option" where
  "decode_loop dt [] pad block out = (out, Some 0)"
| "decode_loop dt (v # src) pad block out =
     (let tmp = dt ! unat v in
      if tmp = 0x80 then decode_loop dt src pad block out
      else
        let pad = (if v = PAD then pad + 1 else pad); block = block @ [tmp] in
        if length block = 4 then
          let out = out @ [push_bit 2 (block ! 0) OR drop_bit 4 (block ! 1),
                           push_bit 4 (block ! 1) OR drop_bit 2 (block ! 2),
                           push_bit 6 (block ! 2) OR block ! 3]
          in if pad = 0 then decode_loop dt src pad [] out
             else (out, if pad \<le> 2 then Some pad else None)
        else decode_loop dt src pad block out)"

definition base64_gen_decode :: "env \<Rightarrow> bytes \<Rightarrow> bytes \<Rightarrow> hist \<Rightarrow> bytes option \<times> hist" where
  "base64_gen_decode env src table h =
     (let dt = decode_table table;
          bump = length (filter (\<lambda>v. dt ! unat v \<noteq> 0x80) src)
      in if bump = 0 then (None, h)
         else
           let extra_pad = (4 - bump mod 4) mod 4;
               olen = (bump + extra_pad) div 4 * 3;
               (ok, h) = os_malloc env h
           in if \<not> ok then (None, h)
              else
                let (out, back) = decode_loop dt (src @ replicate extra_pad PAD) 0 [] [];
                    h = (if olen < length out then E_ub Heap_Overrun # h else h)
                in (case back of None \<Rightarrow> None | Some k \<Rightarrow> Some (take (length out - k) out), h))"

definition base64_decode :: "env \<Rightarrow> bytes \<Rightarrow> hist \<Rightarrow> bytes option \<times> hist" where
  "base64_decode env src h = base64_gen_decode env src base64_table h"

definition base64_url_decode :: "env \<Rightarrow> bytes \<Rightarrow> hist \<Rightarrow> bytes option \<times> hist" where
  "base64_url_decode env src h = base64_gen_decode env src base64_url_table h"

section \<open>The buffers are large enough\<close>

text \<open>With line feeds there is one for every 18 blocks.\<close>

lemma encode_blocks_length:
  "encode_blocks table add_pad src line_len out = (rest, out', line_len') \<Longrightarrow> (add_pad \<longrightarrow> line_len < 72 \<and> 4 dvd line_len) \<Longrightarrow>
   length rest = length src mod 3 \<and>
   (\<exists>lines. length out' = length out + length src div 3 * 4 + lines \<and>
      (if add_pad then length src div 3 * 4 + line_len = lines * 72 + line_len' \<and> line_len' < 72 else lines = 0))"
proof (induction table add_pad src line_len out rule: encode_blocks.induct)
  case (1 table add_pad a b c src line_len out)
  have div: "length (a # b # c # src) div 3 = Suc (length src div 3)" "length (a # b # c # src) mod 3 = length src mod 3"
    by simp_all
  show ?case
  proof (cases "add_pad \<and> 72 \<le> line_len + 4")
    case True
    then have ll: "line_len + 4 = 72"
      using 1(4) by (auto elim!: dvdE)
    have "encode_blocks table add_pad src 0 (out @ [sextet table (drop_bit 2 a),
             sextet table (push_bit 4 (a AND 0x03) OR drop_bit 4 b), sextet table (push_bit 2 (b AND 0x0f) OR drop_bit 6 c),
             sextet table c] @ [LF]) = (rest, out', line_len')"
      using 1(3) True by simp
    then obtain lines where "length rest = length src mod 3" "length out' = length out + 5 + length src div 3 * 4 + lines"
      "length src div 3 * 4 = lines * 72 + line_len'" "line_len' < 72"
      using 1(1) [OF refl refl] True by auto
    then show ?thesis
      unfolding div using ll True by (intro conjI exI [of _ "Suc lines"]) auto
  next
    case False
    have "encode_blocks table add_pad src (line_len + 4) (out @ [sextet table (drop_bit 2 a),
             sextet table (push_bit 4 (a AND 0x03) OR drop_bit 4 b), sextet table (push_bit 2 (b AND 0x0f) OR drop_bit 6 c),
             sextet table c]) = (rest, out', line_len')"
      using 1(3) False by auto
    then obtain lines where "length rest = length src mod 3" "length out' = length out + 4 + length src div 3 * 4 + lines"
      "if add_pad then length src div 3 * 4 + (line_len + 4) = lines * 72 + line_len' \<and> line_len' < 72 else lines = 0"
      using 1(2) [OF refl refl] False 1(4) by (auto simp: algebra_simps)
    then show ?thesis
      unfolding div by (intro conjI exI [of _ lines]) (auto split: if_splits)
  qed
qed auto

lemma encode_tail_length:
  "length src < 3 \<Longrightarrow> length (encode_tail table add_pad src) =
     (if src = [] then 0 else if add_pad then 4 else length src + 1)"
  by (induction table add_pad src rule: encode_tail.induct) auto

lemma encode_size_enough:
  assumes "length rest = n mod 3" and "n div 3 * 4 = lines * 72 + line_len" and "line_len < 72"
  shows "n div 3 * 4 + lines + (if rest = [] then 0 else 4) + (if line_len + (if rest = [] then 0 else 4) = 0 then 0 else 1)
    < encode_size n True"
proof -
  define k r where "k = n div 3" and "r = n mod 3"
  have n: "n = 3 * k + r" "r < 3"
    by (simp_all add: k_def r_def)
  have "n * 4 div 3 = 4 * k + r * 4 div 3"
    by (simp add: n(1))
  moreover have "r \<le> r * 4 div 3" "r = 0 \<longleftrightarrow> rest = []"
    using assms(1) by (auto simp: r_def)
  moreover have "lines \<le> (n * 4 div 3 + 4) div 72"
    using assms(2) calculation(1) by (simp add: k_def [symmetric] less_eq_div_iff_mult_less_eq)
  ultimately show ?thesis
    using assms(2) by (auto simp: encode_size_def k_def [symmetric] Let_def)
qed

lemma base64_gen_encode_text:
  assumes "length src < SIZE_MAX div 4"
  shows "base64_gen_encode env src table add_pad h =
    (if env_malloc env (E_malloc # h) then
       Some (case encode_blocks table add_pad src 0 [] of (rest, out, line_len) \<Rightarrow>
               out @ encode_tail table add_pad rest @ (if add_pad \<and> (line_len \<noteq> 0 \<or> rest \<noteq> []) then [LF] else []))
     else None, E_malloc # h)"
proof -
  obtain rest out line_len where blocks: "encode_blocks table add_pad src 0 [] = (rest, out, line_len)"
    by (metis prod_cases3)
  obtain lines where rest: "length rest = length src mod 3" and out: "length out = length src div 3 * 4 + lines"
    and lines: "if add_pad then length src div 3 * 4 + 0 = lines * 72 + line_len \<and> line_len < 72 else lines = 0"
    using encode_blocks_length [OF blocks] by auto
  have tail: "length (encode_tail table add_pad rest) = (if rest = [] then 0 else if add_pad then 4 else length rest + 1)"
    by (rule encode_tail_length) (simp add: rest)
  have "length src \<le> length src * 4 div 3"
    by simp
  then have size: "\<not> encode_size (length src) add_pad < length src"
    unfolding encode_size_def Let_def by (cases add_pad; simp only: if_True if_False; linarith)
  have fits: "\<not> encode_size (length src) add_pad <
      Suc (length out + length (encode_tail table add_pad rest) + (if add_pad \<and> (line_len \<noteq> 0 \<or> rest \<noteq> []) then 1 else 0))"
  proof (cases add_pad)
    case True
    then show ?thesis
      using encode_size_enough [OF rest, of lines line_len] lines out tail by (auto split: if_splits)
  next
    case False
    have "length src div 3 * 4 + length src mod 3 \<le> length src * 4 div 3"
      by presburger
    with False show ?thesis
      using lines out tail rest by (auto simp: encode_size_def Let_def)
  qed
  show ?thesis
    unfolding base64_gen_encode_def os_malloc_def blocks Let_def prod.case
    using assms size fits by (cases add_pad) (auto split: if_splits)
qed

lemma decode_loop_length:
  "decode_loop dt src pad block out = (out', back) \<Longrightarrow> length block < 4 \<Longrightarrow>
   length out' \<le> length out + (length block + length (filter (\<lambda>v. dt ! unat v \<noteq> 0x80) src)) div 4 * 3"
proof (induction dt src pad block out rule: decode_loop.induct)
  case (2 dt v src pad block out)
  show ?case
  proof (cases "dt ! unat v = 0x80")
    case False
    let ?block = "block @ [dt ! unat v]" and ?pad = "if v = PAD then pad + 1 else pad"
    show ?thesis
    proof (cases "length ?block = 4")
      case True
      then have "length block = 3" and "(4 + k) div 4 = Suc (k div 4)" for k :: nat
        by simp_all
      with "2.IH"(2) [OF refl False refl refl True refl] "2.prems" False True show ?thesis
        by (auto simp: Let_def split: if_splits)
    next
      case False': False
      have "length out' \<le> length out + (length ?block + length (filter (\<lambda>v. dt ! unat v \<noteq> 0x80) src)) div 4 * 3"
        using "2.IH"(3) [OF refl False refl refl False'] "2.prems" False False' by (simp add: Let_def)
      with False show ?thesis
        by simp
    qed
  qed (use 2 in simp)
qed simp

lemma decode_fits:
  assumes "decode_loop dt (src @ replicate e PAD) 0 [] [] = (out, k)"
  shows "length out \<le> (length (filter (\<lambda>v. dt ! unat v \<noteq> 0x80) src) + e) div 4 * 3"
proof -
  let ?n = "length (filter (\<lambda>v. dt ! unat v \<noteq> 0x80) src)"
  let ?m = "length (filter (\<lambda>v. dt ! unat v \<noteq> 0x80) (src @ replicate e PAD))"
  have "?m \<le> ?n + e"
    using length_filter_le [of _ "replicate e PAD"] by simp
  then have "?m div 4 * 3 \<le> (?n + e) div 4 * 3"
    by (intro mult_le_mono1 div_le_mono)
  moreover have "length out \<le> ?m div 4 * 3"
    using decode_loop_length [OF assms] by simp
  ultimately show ?thesis
    by (rule order_trans [rotated])
qed

text \<open>
  C33: decoding any text whatsoever stays within the buffer that was allocated for it.
\<close>

theorem base64_decode_safe:
  assumes "base64_gen_decode env src table h = (r, h')"
  shows "h' = h \<or> h' = E_malloc # h"
proof -
  let ?dt = "decode_table table"
  let ?e = "(4 - length (filter (\<lambda>v. ?dt ! unat v \<noteq> 0x80) src) mod 4) mod 4"
  obtain out k where loop: "decode_loop ?dt (src @ replicate ?e PAD) 0 [] [] = (out, k)"
    by force
  from decode_fits [OF this] show ?thesis
    using assms by (auto simp: base64_gen_decode_def os_malloc_def loop Let_def split: if_splits)
qed

theorem base64_decode_safe_witness:
  "(let h' = snd (base64_decode ideal_env (bytes_of_string ''QUJD!R=='') []) in h' = [] \<or> h' = [E_malloc])"
  unfolding base64_decode_def Let_def by (rule base64_decode_safe [OF prod.collapse [symmetric]])

section \<open>Decoding inverts encoding\<close>

lemma foldl_update_in:
  "inj_on k {..<n} \<Longrightarrow> (\<And>i. i < n \<Longrightarrow> k i < length xs) \<Longrightarrow> i < n \<Longrightarrow>
   foldl (\<lambda>xs i. xs[k i := v i]) xs [0..<n] ! k i = v i"
proof (induction n)
  case (Suc n)
  have len: "length (foldl (\<lambda>xs i. xs[k i := v i]) xs [0..<m]) = length xs" for m
    by (induction m) auto
  show ?case
  proof (cases "i = n")
    case False
    then have "k i \<noteq> k n"
      using Suc.prems(1,3) by (auto simp: inj_on_def)
    then show ?thesis
      using Suc False by (simp add: inj_on_def)
  qed (use Suc.prems(2) in \<open>simp add: len\<close>)
qed simp

lemma foldl_update_out:
  "(\<And>i. i < n \<Longrightarrow> k i \<noteq> j) \<Longrightarrow> foldl (\<lambda>xs i. xs[k i := v i]) xs [0..<n] ! j = xs ! j"
  by (induction n) auto

lemma foldl_update_length [simp]: "length (foldl (\<lambda>xs i. xs[k i := v i]) xs is) = length xs"
  by (induction "is" arbitrary: xs) auto

text \<open>The bytes come back from their sextets.\<close>

lemma sextets_join:
  fixes a b c :: u8
  shows "push_bit 2 (drop_bit 2 a AND 0x3f) OR drop_bit 4 ((push_bit 4 (a AND 0x03) OR drop_bit 4 b) AND 0x3f) = a"
    "push_bit 4 ((push_bit 4 (a AND 0x03) OR drop_bit 4 b) AND 0x3f) OR
       drop_bit 2 ((push_bit 2 (b AND 0x0f) OR drop_bit 6 c) AND 0x3f) = b"
    "push_bit 6 ((push_bit 2 (b AND 0x0f) OR drop_bit 6 c) AND 0x3f) OR (c AND 0x3f) = c"
    "drop_bit 4 (push_bit 4 (a AND 0x03) AND 0x3f) = a AND 0x03"
    "push_bit 2 (drop_bit 2 a AND 0x3f) OR drop_bit 4 (push_bit 4 (a AND 0x03) AND 0x3f) = a"
    "push_bit 4 ((push_bit 4 (a AND 0x03) OR drop_bit 4 b) AND 0x3f) OR drop_bit 2 (push_bit 2 (b AND 0x0f) AND 0x3f) = b"
proof -
  have masks: "(0x3f :: u8) = mask 6" "(0x0f :: u8) = mask 4" "(0x03 :: u8) = mask 2"
    by (simp_all add: mask_eq_exp_minus_1)
  have eq: "x = y" if "\<And>n. n \<in> {0, 1, 2, 3, 4, 5, 6, 7} \<Longrightarrow> bit x n = bit y n" for x y :: u8
  proof (rule bit_word_eqI)
    show "bit x n = bit y n" if "n < LENGTH(8)" for n
      using that by (intro \<open>\<And>n. n \<in> {0, 1, 2, 3, 4, 5, 6, 7} \<Longrightarrow> bit x n = bit y n\<close>) auto
  qed
  show "push_bit 2 (drop_bit 2 a AND 0x3f) OR drop_bit 4 ((push_bit 4 (a AND 0x03) OR drop_bit 4 b) AND 0x3f) = a"
    unfolding masks by (rule eq) (auto simp: bit_simps numeral_2_eq_2 [symmetric])
  show "push_bit 4 ((push_bit 4 (a AND 0x03) OR drop_bit 4 b) AND 0x3f) OR
       drop_bit 2 ((push_bit 2 (b AND 0x0f) OR drop_bit 6 c) AND 0x3f) = b"
    unfolding masks by (rule eq) (auto simp: bit_simps numeral_2_eq_2 [symmetric])
  show "push_bit 6 ((push_bit 2 (b AND 0x0f) OR drop_bit 6 c) AND 0x3f) OR (c AND 0x3f) = c"
    unfolding masks by (rule eq) (auto simp: bit_simps numeral_2_eq_2 [symmetric])
  show "drop_bit 4 (push_bit 4 (a AND 0x03) AND 0x3f) = a AND 0x03"
    unfolding masks by (rule eq) (auto simp: bit_simps numeral_2_eq_2 [symmetric])
  show "push_bit 2 (drop_bit 2 a AND 0x3f) OR drop_bit 4 (push_bit 4 (a AND 0x03) AND 0x3f) = a"
    unfolding masks by (rule eq) (auto simp: bit_simps numeral_2_eq_2 [symmetric])
  show "push_bit 4 ((push_bit 4 (a AND 0x03) OR drop_bit 4 b) AND 0x3f) OR drop_bit 2 (push_bit 2 (b AND 0x0f) AND 0x3f) = b"
    unfolding masks by (rule eq) (auto simp: bit_simps numeral_2_eq_2 [symmetric])
qed

text \<open>An alphabet: what the two functions need of the table they share.\<close>

locale base64_alphabet =
  fixes table :: bytes
  assumes size: "length table = 64" and distinct: "distinct table" and no_pad: "PAD \<notin> set table" and no_lf: "LF \<notin> set table"
begin

abbreviation dt :: bytes where "dt \<equiv> decode_table table"

lemma in_table: "sextet table v \<in> set table"
proof -
  have "unat (v AND 0x3f) \<le> unat (0x3f :: u8)"
    by (meson word_and_le1 word_le_nat_alt)
  then show ?thesis
    by (intro nth_mem) (simp add: size)
qed

lemma decode_sextet: "dt ! unat (sextet table v) = v AND 0x3f"
proof -
  have "unat (v AND 0x3f) \<le> unat (0x3f :: u8)"
    by (meson word_and_le1 word_le_nat_alt)
  then have i: "unat (v AND 0x3f) < 64"
    by simp
  have "inj_on (\<lambda>i. unat (table ! i)) {..<64}"
    using distinct size by (auto simp: inj_on_def nth_eq_iff_index_eq dest!: unsigned_word_eqI)
  moreover have "unat (sextet table v) \<noteq> unat PAD"
    using in_table no_pad by (metis unsigned_word_eqI)
  ultimately have "dt ! unat (sextet table v) = word_of_nat (unat (v AND 0x3f))"
    using foldl_update_in [of "\<lambda>i. unat (table ! i)" 64 "replicate 256 (0x80 :: u8)" "unat (v AND 0x3f)" word_of_nat] i
    by (simp add: decode_table_def)
  then show ?thesis
    by simp
qed

lemma decode_others: "dt ! unat PAD = 0" "dt ! unat LF = 0x80"
proof -
  have "unat (table ! i) \<noteq> unat LF" if "i < 64" for i
    using no_lf that size by (metis nth_mem unsigned_word_eqI)
  then show "dt ! unat LF = 0x80"
    using foldl_update_out [of 64 "\<lambda>i. unat (table ! i)" "unat LF" word_of_nat "replicate 256 (0x80 :: u8)"]
    by (simp add: decode_table_def)
qed (simp add: decode_table_def)

lemma sextet_valid: "v AND 0x3f \<noteq> (0x80 :: u8)" "sextet table v \<noteq> PAD"
proof -
  show "v AND 0x3f \<noteq> (0x80 :: u8)"
    using word_and_le1 [of v "0x3f"] by (auto simp: word_le_nat_alt)
  show "sextet table v \<noteq> PAD"
    using in_table no_pad by metis
qed

lemmas decode_char = decode_sextet sextet_valid decode_others [simplified]

lemma decode_block:
  "decode_loop dt (sextet table v # sextet table w # sextet table x # sextet table y # src) 0 [] out =
   decode_loop dt src 0 []
     (out @ [push_bit 2 (v AND 0x3f) OR drop_bit 4 (w AND 0x3f), push_bit 4 (w AND 0x3f) OR drop_bit 2 (x AND 0x3f),
             push_bit 6 (x AND 0x3f) OR (y AND 0x3f)])"
  by (simp add: decode_char)

lemma encode_blocks_decode:
  "encode_blocks table add_pad src line_len out = (rest, out', line_len') \<Longrightarrow>
   \<exists>o1 src1. out' = out @ o1 \<and> src = src1 @ rest \<and> length rest < 3 \<and>
     length (filter (\<lambda>v. dt ! unat v \<noteq> 0x80) o1) mod 4 = 0 \<and> (src1 \<noteq> [] \<longrightarrow> filter (\<lambda>v. dt ! unat v \<noteq> 0x80) o1 \<noteq> []) \<and>
     (\<forall>cs acc. decode_loop dt (o1 @ cs) 0 [] acc = decode_loop dt cs 0 [] (acc @ src1))"
proof (induction src arbitrary: line_len out rule: length_induct)
  case (1 src)
  show ?case
  proof (cases "length src < 3")
    case True
    then have "encode_blocks table add_pad src line_len out = (src, out, line_len)"
      by (cases "(table, add_pad, src, line_len, out)" rule: encode_blocks.cases) auto
    with "1.prems" True show ?thesis
      by (intro exI [of _ "[]"]) simp
  next
    case False
    then obtain a b c src' where src: "src = a # b # c # src'"
      by (cases "(table, add_pad, src, line_len, out)" rule: encode_blocks.cases) auto
    let ?q = "[sextet table (drop_bit 2 a), sextet table (push_bit 4 (a AND 0x03) OR drop_bit 4 b),
               sextet table (push_bit 2 (b AND 0x0f) OR drop_bit 6 c), sextet table c]"
    obtain lf ll where lf: "lf \<in> {[], [LF]}" and run: "encode_blocks table add_pad src' ll (out @ ?q @ lf) = (rest, out', line_len')"
      using "1.prems" by (auto simp: src Let_def split: if_splits)
    obtain o1 src1 where IH: "out' = (out @ ?q @ lf) @ o1" "src' = src1 @ rest" "length rest < 3"
      "length (filter (\<lambda>v. dt ! unat v \<noteq> 0x80) o1) mod 4 = 0"
      "\<forall>cs acc. decode_loop dt (o1 @ cs) 0 [] acc = decode_loop dt cs 0 [] (acc @ src1)"
    proof -
      have "length src' < length src"
        by (simp add: src)
      from "1.IH" [rule_format, OF this run] show ?thesis
        by (elim exE conjE) (rule that)
    qed
    have "decode_loop dt ((?q @ lf @ o1) @ cs) 0 [] acc = decode_loop dt ((lf @ o1) @ cs) 0 [] (acc @ [a, b, c])" for cs acc
      by (simp only: append.simps decode_block sextets_join)
    moreover have "decode_loop dt ((lf @ o1) @ cs) 0 [] acc = decode_loop dt cs 0 [] (acc @ src1)" for cs acc
      using lf IH(5) by (auto simp: decode_others [simplified])
    ultimately have "decode_loop dt ((?q @ lf @ o1) @ cs) 0 [] acc = decode_loop dt cs 0 [] (acc @ a # b # c # src1)" for cs acc
      by (simp only: append.simps append_assoc)
    moreover have "length (filter (\<lambda>v. dt ! unat v \<noteq> 0x80) (?q @ lf @ o1)) mod 4 = 0"
      using lf IH(4) by (auto simp: decode_char)
    ultimately show ?thesis
      using IH(1-3) by (intro exI [of _ "?q @ lf @ o1"] exI [of _ "a # b # c # src1"]) (auto simp: src decode_char)
  qed
qed

lemma encode_tail_decode:
  assumes "rest \<noteq> []" and "length rest < 3"
  shows "\<exists>ws. length ws = 3 - length rest \<and>
    decode_loop dt (encode_tail table add_pad rest @ (if add_pad then [] else replicate (3 - length rest) PAD) @ cs) 0 [] acc =
      (acc @ rest @ ws, Some (length ws))"
proof -
  consider a where "rest = [a]" | a b where "rest = [a, b]"
    using assms by (cases rest; cases "tl rest"; auto)
  then show ?thesis
  proof cases
    case 1
    note join = sextets_join(5) [of a]
    have two: "replicate 2 PAD = [PAD, PAD]"
      by (simp add: numeral_2_eq_2)
    show ?thesis
      by (rule exI [of _ "[push_bit 4 (push_bit 4 (a AND 0x03) AND 0x3f), 0]"])
        (use join in \<open>simp add: 1 two decode_char\<close>)
  next
    case 2
    note join = sextets_join(1,6) [of a b]
    show ?thesis
      by (rule exI [of _ "[push_bit 6 (push_bit 2 (b AND 0x0f) AND 0x3f)]"])
        (use join in \<open>simp add: 2 decode_char\<close>)
  qed
qed

lemma gen_roundtrip:
  assumes mem: "alloc_total env" and src: "src \<noteq> []" "length src < SIZE_MAX div 4"
  shows "\<exists>txt. base64_gen_encode env src table add_pad h = (Some txt, E_malloc # h) \<and>
    base64_gen_decode env txt table h2 = (Some src, E_malloc # h2)"
proof -
  let ?valid = "\<lambda>cs. length (filter (\<lambda>v. dt ! unat v \<noteq> 0x80) cs)"
  obtain rest o1 ll where blocks: "encode_blocks table add_pad src 0 [] = (rest, o1, ll)"
    by (metis prod_cases3)
  obtain src1 where split: "src = src1 @ rest" "length rest < 3" and full: "?valid o1 mod 4 = 0"
    "src1 \<noteq> [] \<longrightarrow> filter (\<lambda>v. dt ! unat v \<noteq> 0x80) o1 \<noteq> []"
    and dec: "\<forall>cs acc. decode_loop dt (o1 @ cs) 0 [] acc = decode_loop dt cs 0 [] (acc @ src1)"
    using encode_blocks_decode [OF blocks] by (elim exE conjE) simp
  define lf where "lf = (if add_pad \<and> (ll \<noteq> 0 \<or> rest \<noteq> []) then [LF] else [])"
  let ?tail = "encode_tail table add_pad rest"
  let ?txt = "o1 @ ?tail @ lf"
  have enc: "base64_gen_encode env src table add_pad h = (Some ?txt, E_malloc # h)"
    using mem by (simp add: base64_gen_encode_text [OF src(2)] blocks lf_def alloc_total_def)
  have lf0: "filter (\<lambda>v. dt ! unat v \<noteq> 0x80) lf = []"
    by (simp add: lf_def decode_others [simplified])
  let ?e = "(4 - ?valid ?txt mod 4) mod 4"
  have tail: "?valid ?tail = (if rest = [] then 0 else if add_pad then 4 else Suc (length rest))"
    using split(2) by (cases "(table, add_pad, rest)" rule: encode_tail.cases) (auto simp: decode_char)
  then have mod: "?valid ?txt mod 4 = (if rest = [] \<or> add_pad then 0 else Suc (length rest))"
    using full(1) split(2) lf0 by (auto simp: mod_add_left_eq [symmetric] simp del: mod_add_left_eq)
  have some: "?valid ?txt \<noteq> 0"
    using tail full(2) src(1) split(1) by (cases "rest = []") auto
  have "\<exists>out k. decode_loop dt (?txt @ replicate ?e PAD) 0 [] [] = (out, Some k) \<and> take (length out - k) out = src"
  proof (cases "rest = []")
    case True
    then have "decode_loop dt (?txt @ replicate ?e PAD) 0 [] [] = (src1, Some 0)"
      unfolding mod using dec lf0 by (auto simp: lf_def decode_others [simplified])
    then show ?thesis
      using split(1) True by simp
  next
    case False
    have e: "?e = (if add_pad then 0 else 3 - length rest)"
      unfolding mod using split(2) False by (cases rest; cases "tl rest"; auto)
    have "lf @ replicate ?e PAD = (if add_pad then [] else replicate (3 - length rest) PAD) @ lf"
      unfolding e by (simp add: lf_def)
    then have "\<exists>ws. length ws = 3 - length rest \<and>
        decode_loop dt (?txt @ replicate ?e PAD) 0 [] [] = (src1 @ rest @ ws, Some (length ws))"
      using encode_tail_decode [OF False split(2), of add_pad lf src1] dec by simp
    then show ?thesis
      using split(1) by auto
  qed
  then obtain out k where loop: "decode_loop dt (?txt @ replicate ?e PAD) 0 [] [] = (out, Some k)"
    and cut: "take (length out - k) out = src"
    by blast
  have "base64_gen_decode env ?txt table h2 = (Some src, E_malloc # h2)"
    unfolding base64_gen_decode_def Let_def os_malloc_total [OF mem] prod.case if_not_P [OF some] loop
    using decode_fits [OF loop] cut by simp
  with enc show ?thesis
    by blast
qed

end

interpretation std: base64_alphabet base64_table
  by unfold_locales (simp_all add: base64_table_def bytes_of_string_def)

interpretation url: base64_alphabet base64_url_table
  by unfold_locales (simp_all add: base64_url_table_def bytes_of_string_def)

lemma base64_roundtrip_std:
  assumes "alloc_total env" and "src \<noteq> []" and "length src < SIZE_MAX div 4"
  shows "\<exists>txt. base64_encode env src h = (Some txt, E_malloc # h) \<and> base64_decode env txt h2 = (Some src, E_malloc # h2)"
  using std.gen_roundtrip [OF assms, of False h h2] by (simp add: base64_encode_def base64_decode_def)

text \<open>
  C10: what \<open>base64_encode\<close> or \<open>base64_url_encode\<close> makes of a non-empty text, with or without
  padding and line feeds, is decoded to the same bytes again, and neither call leaves its buffer.
\<close>

theorem base64_roundtrip:
  assumes "alloc_total env" and "src \<noteq> []" and "length src < SIZE_MAX div 4"
  shows "(\<exists>txt. base64_encode env src h = (Some txt, E_malloc # h) \<and> base64_decode env txt h2 = (Some src, E_malloc # h2)) \<and>
    (\<exists>txt. base64_url_encode env src add_pad h = (Some txt, E_malloc # h) \<and>
       base64_url_decode env txt h2 = (Some src, E_malloc # h2))"
  using base64_roundtrip_std [OF assms] url.gen_roundtrip [OF assms]
  by (simp add: base64_url_encode_def base64_url_decode_def)

theorem base64_roundtrip_witness:
  "\<exists>txt. base64_url_encode ideal_env [0, 255, 16, 32] True [] = (Some txt, [E_malloc]) \<and>
     base64_url_decode ideal_env txt [] = (Some [0, 255, 16, 32], [E_malloc])"
  using base64_roundtrip [OF ideal_alloc, of "[0, 255, 16, 32]" "[]" "[]" True] by (simp add: SIZE_MAX_def)

end
