(* ===== verification/Crypt_Service.thy ===== *)
theory Crypt_Service
  imports Base64 Sqlite_Macconn
begin

text \<open>
  The crypt service: crypt/crypt_service.c, crypt/sqlite_crypt_writer.c and the functions of
  utils/cryptou.c they call.  OpenSSL is a parameter: \<open>RAND_bytes\<close>, \<open>PKCS5_PBKDF2_HMAC\<close> and the
  EVP calls of one encryption or decryption with AES-256 in CBC mode, taken together.  The two
  tables of the database are lists of rows; a statement whose step fails changes nothing, and the
  results of the steps are not looked at.  The build has no hardware security module, so
  \<open>init_hsm\<close> returns NULL.
\<close>

record openssl =
  RAND_bytes :: "hist \<Rightarrow> int \<times> bytes"
  PBKDF2 :: "bytes \<Rightarrow> bytes \<Rightarrow> nat \<Rightarrow> nat \<Rightarrow> bytes option"
  EVP_encrypt :: "bytes \<Rightarrow> bytes \<Rightarrow> bytes \<Rightarrow> bytes option"
  EVP_decrypt :: "bytes \<Rightarrow> bytes \<Rightarrow> bytes \<Rightarrow> bytes option"

abbreviation AES_BLOCK_SIZE :: nat where "AES_BLOCK_SIZE \<equiv> 16"
abbreviation IV_SIZE :: nat where "IV_SIZE \<equiv> 16"
abbreviation SALT_SIZE :: nat where "SALT_SIZE \<equiv> 16"
abbreviation AES_KEY_SIZE :: nat where "AES_KEY_SIZE \<equiv> 32"
abbreviation MAX_KEY_ITERATIONS :: nat where "MAX_KEY_ITERATIONS \<equiv> 1000"
abbreviation MAX_KEY_ID_SIZE :: nat where "MAX_KEY_ID_SIZE \<equiv> 255"

section \<open>The primitives (utils/cryptou.c)\<close>

text \<open>
  \<open>crypto_geniv\<close>, \<open>crypto_gensalt\<close> and \<open>crypto_genkey\<close> are \<open>RAND_bytes\<close>, which returns 1, or 0 or -1
  when it failed and left the buffer as it was.  \<open>filled\<close> marks the use of a buffer that was left.
\<close>

definition crypto_random :: "openssl \<Rightarrow> nat \<Rightarrow> hist \<Rightarrow> int \<times> bytes \<times> hist" where
  "crypto_random ssl n h =
     (let h = E_random n # h; (r, bs) = RAND_bytes ssl h in (r, bs, h))"

definition filled :: "int \<Rightarrow> hist \<Rightarrow> hist" where
  "filled r h = (if r = 1 then h else E_ub Uninit_Read # h)"

lemma filled_1 [simp]: "filled 1 h = h"
  by (simp add: filled_def)

definition crypto_buf2key :: "openssl \<Rightarrow> bytes \<Rightarrow> bytes \<Rightarrow> nat \<Rightarrow> bytes option" where
  "crypto_buf2key ssl buf salt key_size = PBKDF2 ssl buf salt MAX_KEY_ITERATIONS key_size"

text \<open>The key and the IV are arrays of which 32 and 16 bytes are read.\<close>

definition crypto_encrypt :: "openssl \<Rightarrow> bytes \<Rightarrow> bytes \<Rightarrow> bytes \<Rightarrow> hist \<Rightarrow> bytes option \<times> hist" where
  "crypto_encrypt ssl src key iv h =
     (EVP_encrypt ssl (take AES_KEY_SIZE key) (take IV_SIZE iv) src,
      if length key < AES_KEY_SIZE \<or> length iv < IV_SIZE then E_ub Over_Read # h else h)"

definition crypto_decrypt :: "openssl \<Rightarrow> bytes \<Rightarrow> bytes \<Rightarrow> bytes \<Rightarrow> hist \<Rightarrow> bytes option \<times> hist" where
  "crypto_decrypt ssl src key iv h =
     (EVP_decrypt ssl (take AES_KEY_SIZE key) (take IV_SIZE iv) src,
      if length key < AES_KEY_SIZE \<or> length iv < IV_SIZE then E_ub Over_Read # h else h)"

section \<open>The database (crypt/sqlite_crypt_writer.c)\<close>

record store_row =
  st_key :: string
  st_value :: "string option"
  st_id :: string
  st_iv :: "string option"

record secrets_row =
  se_id :: "string option"
  se_value :: "string option"
  se_salt :: "string option"
  se_iv :: "string option"

record crypt_db =
  db_store :: "store_row list"
  db_secrets :: "secrets_row list"

definition sql_text :: "string option \<Rightarrow> sql_value" where
  "sql_text v = (case v of None \<Rightarrow> SqlNull | Some s \<Rightarrow> SqlText s)"

definition sql_step :: "env \<Rightarrow> (crypt_db \<Rightarrow> crypt_db) \<Rightarrow> crypt_db \<Rightarrow> hist \<Rightarrow> crypt_db \<times> hist" where
  "sql_step env f db h = (let h = E_sql_step # h in (if env_sql env h then f db else db, h))"

text \<open>The key of a table is its primary key: a second row with it is refused, and so is NULL.\<close>

definition insert_store :: "store_row \<Rightarrow> crypt_db \<Rightarrow> crypt_db" where
  "insert_store row db =
     (if st_key row \<in> set (map st_key (db_store db)) then db else db\<lparr>db_store := db_store db @ [row]\<rparr>)"

definition insert_secrets :: "secrets_row \<Rightarrow> crypt_db \<Rightarrow> crypt_db" where
  "insert_secrets row db =
     (if se_id row = None \<or> se_id row \<in> set (map se_id (db_secrets db)) then db else db\<lparr>db_secrets := db_secrets db @ [row]\<rparr>)"

definition save_sqlite_store_entry :: "env \<Rightarrow> crypt_db \<Rightarrow> store_row \<Rightarrow> hist \<Rightarrow> int \<times> crypt_db \<times> hist" where
  "save_sqlite_store_entry env db row h =
     (let h = E_sql_prepare ''DELETE FROM store WHERE key=@key;'' # h in
      if \<not> env_sql env h then (- 1, db, h)
      else let (ok, h) = sql_bind_all env [(''@key'', SqlText (st_key row))] h in
      if \<not> ok then (- 1, db, h)
      else
        let (db, h) = sql_step env (\<lambda>db. db\<lparr>db_store := filter (\<lambda>r. st_key r \<noteq> st_key row) (db_store db)\<rparr>) db h;
            h = E_sql_prepare ''INSERT INTO store VALUES(@key, @value, @id, @iv);'' # h
        in if \<not> env_sql env h then (- 1, db, h)
           else
             let (ok, h) = sql_bind_all env [(''@key'', SqlText (st_key row)), (''@value'', sql_text (st_value row)),
                                             (''@id'', SqlText (st_id row)), (''@iv'', sql_text (st_iv row))] h
             in if \<not> ok then (- 1, db, h)
                else let (db, h) = sql_step env (insert_store row) db h in (0, db, h))"

definition save_sqlite_secrets_entry :: "env \<Rightarrow> crypt_db \<Rightarrow> secrets_row \<Rightarrow> hist \<Rightarrow> int \<times> crypt_db \<times> hist" where
  "save_sqlite_secrets_entry env db row h =
     (let h = E_sql_prepare ''INSERT INTO secrets VALUES(@id, @value, @salt, @iv);'' # h in
      if \<not> env_sql env h then (- 1, db, h)
      else
        let (ok, h) = sql_bind_all env [(''@id'', sql_text (se_id row)), (''@value'', sql_text (se_value row)),
                                        (''@salt'', sql_text (se_salt row)), (''@iv'', sql_text (se_iv row))] h
        in if \<not> ok then (- 1, db, h)
           else let (db, h) = sql_step env (insert_secrets row) db h in (0, db, h))"

text \<open>A column that is not NULL is copied; without memory the copy is NULL.\<close>

definition dup_column :: "env \<Rightarrow> string option \<Rightarrow> hist \<Rightarrow> string option \<times> hist" where
  "dup_column env v h =
     (case v of None \<Rightarrow> (None, h) | Some s \<Rightarrow> let (ok, h) = os_malloc env h in (if ok then Some s else None, h))"

text \<open>
  The result is None for NULL and \<open>Some None\<close> for a row without a key.  The allocation of the row is
  not checked, nor is the result of binding the key.
\<close>

definition get_sqlite_store_row :: "env \<Rightarrow> crypt_db \<Rightarrow> string \<Rightarrow> hist \<Rightarrow> store_row option option \<times> hist" where
  "get_sqlite_store_row env db key h =
     (let (ok, h) = os_malloc env h; h = E_sql_prepare ''SELECT value, id, iv FROM  store WHERE key=?;'' # h in
      if \<not> env_sql env h then (None, h)
      else
        let h = E_sql_step # E_sql_bind ''?'' (SqlText key) # h in
        if \<not> env_sql env h then (None, h)
        else
          let h = (if ok then h else E_ub Null_Deref # h) in
          (case find (\<lambda>r. st_key r = key) (db_store db) of
             None \<Rightarrow> (Some None, h)
           | Some r \<Rightarrow>
               let (val, h) = dup_column env (st_value r) h;
                   (_, h) = os_malloc env h;
                   (iv, h) = dup_column env (st_iv r) h
               in (Some (Some \<lparr>st_key = key, st_value = val, st_id = st_id r, st_iv = iv\<rparr>), h)))"

definition get_sqlite_secrets_row :: "env \<Rightarrow> crypt_db \<Rightarrow> string \<Rightarrow> hist \<Rightarrow> secrets_row option option \<times> hist" where
  "get_sqlite_secrets_row env db key_id h =
     (let (ok, h) = os_malloc env h; h = E_sql_prepare ''SELECT value, salt, iv FROM  secrets WHERE id=?;'' # h in
      if \<not> env_sql env h then (None, h)
      else
        let h = E_sql_step # E_sql_bind ''?'' (SqlText key_id) # h in
        if \<not> env_sql env h then (None, h)
        else
          let h = (if ok then h else E_ub Null_Deref # h) in
          (case find (\<lambda>r. se_id r = Some key_id) (db_secrets db) of
             None \<Rightarrow> (Some None, h)
           | Some r \<Rightarrow>
               let (id', h) = dup_column env (Some key_id) h;
                   (val, h) = dup_column env (se_value r) h;
                   (salt, h) = dup_column env (se_salt r) h;
                   (iv, h) = dup_column env (se_iv r) h
               in (Some (if id' = None then None else Some \<lparr>se_id = id', se_value = val, se_salt = salt, se_iv = iv\<rparr>), h)))"

section \<open>Keys (crypt/crypt_service.c)\<close>

text \<open>\<open>cc_crypto_key\<close> is the array of 48 bytes.\<close>

record crypt_context =
  cc_db :: crypt_db
  cc_key_id :: string
  cc_crypto_key :: bytes

definition generate_user_key :: "openssl \<Rightarrow> bytes \<Rightarrow> bytes \<Rightarrow> bytes option" where
  "generate_user_key ssl user_secret salt = crypto_buf2key ssl user_secret salt AES_KEY_SIZE"

definition encode_column :: "env \<Rightarrow> bytes \<Rightarrow> hist \<Rightarrow> string option \<times> hist" where
  "encode_column env bs h = (let (t, h) = base64_encode env bs h in (map_option string_of_bytes t, h))"

text \<open>No result but the first is checked.\<close>

definition prepare_secret_entry ::
  "env \<Rightarrow> string \<Rightarrow> bytes \<Rightarrow> bytes \<Rightarrow> bytes \<Rightarrow> hist \<Rightarrow> secrets_row option \<times> hist" where
  "prepare_secret_entry env key_id key salt iv h =
     (let (ok, h) = os_malloc env h in
      if \<not> ok then (None, h)
      else
        let (i, h) = dup_column env (Some key_id) h;
            (k, h) = encode_column env key h;
            (s, h) = encode_column env salt h;
            (v, h) = encode_column env iv h
        in (Some \<lparr>se_id = i, se_value = k, se_salt = s, se_iv = v\<rparr>, h))"

text \<open>
  A column decoded into an array of \<open>room\<close> bytes: its bytes, none for NULL, and None when
  decoding fails.  The length is compared with the size of the array only afterwards.
\<close>

definition decode_column :: "env \<Rightarrow> string option \<Rightarrow> nat \<Rightarrow> hist \<Rightarrow> bytes option \<times> hist" where
  "decode_column env v room h =
     (case v of
        None \<Rightarrow> (Some [], h)
      | Some t \<Rightarrow>
          (case base64_decode env (bytes_of_string t) h of
             (None, h) \<Rightarrow> (None, h)
           | (Some bs, h) \<Rightarrow> (Some bs, if room < length bs then E_ub Stack_Overrun # h else h)))"

definition extract_secret_entry ::
  "env \<Rightarrow> secrets_row \<Rightarrow> hist \<Rightarrow> (bytes \<times> bytes \<times> bytes) option \<times> hist" where
  "extract_secret_entry env row h =
     (case decode_column env (se_value row) (AES_KEY_SIZE + AES_BLOCK_SIZE) h of
        (None, h) \<Rightarrow> (None, h)
      | (Some key, h) \<Rightarrow>
          (case decode_column env (se_salt row) SALT_SIZE h of
             (None, h) \<Rightarrow> (None, h)
           | (Some salt, h) \<Rightarrow>
               (case decode_column env (se_iv row) IV_SIZE h of
                  (None, h) \<Rightarrow> (None, h)
                | (Some iv, h) \<Rightarrow> (Some (key, salt, iv), h))))"

definition extract_user_crypto_key_entry ::
  "env \<Rightarrow> openssl \<Rightarrow> secrets_row \<Rightarrow> bytes \<Rightarrow> hist \<Rightarrow> bytes option \<times> hist" where
  "extract_user_crypto_key_entry env ssl row user_secret h =
     (case extract_secret_entry env row h of
        (None, h) \<Rightarrow> (None, h)
      | (Some (enc, salt, iv), h) \<Rightarrow>
          if length salt \<noteq> SALT_SIZE \<or> length iv \<noteq> IV_SIZE then (None, h)
          else (case generate_user_key ssl user_secret salt of
                  None \<Rightarrow> (None, h)
                | Some user_key \<Rightarrow> crypto_decrypt ssl enc user_key iv h))"

definition generate_user_crypto_key_entry ::
  "env \<Rightarrow> openssl \<Rightarrow> string \<Rightarrow> bytes \<Rightarrow> bytes \<Rightarrow> hist \<Rightarrow> secrets_row option \<times> hist" where
  "generate_user_crypto_key_entry env ssl key_id user_secret crypto_key h =
     (let (r, salt, h) = crypto_random ssl SALT_SIZE h in
      if r = 0 then (None, h)
      else
        let h = filled r h in
        (case generate_user_key ssl user_secret salt of
           None \<Rightarrow> (None, h)
         | Some user_key \<Rightarrow>
             let (r, iv, h) = crypto_random ssl IV_SIZE h in
             if r = 0 then (None, h)
             else
               (case crypto_encrypt ssl (take AES_KEY_SIZE crypto_key) user_key iv (filled r h) of
                  (None, h) \<Rightarrow> (None, h)
                | (Some enc, h) \<Rightarrow> prepare_secret_entry env key_id enc salt iv h)))"

text \<open>
  \<open>db\<close> is the database that was opened.  The array of the key keeps its zeros behind the key.
\<close>

definition load_crypt_service ::
  "env \<Rightarrow> openssl \<Rightarrow> crypt_db \<Rightarrow> string \<Rightarrow> bytes \<Rightarrow> hist \<Rightarrow> crypt_context option \<times> crypt_db \<times> hist" where
  "load_crypt_service env ssl db key_id user_secret h =
     (let (ok, h) = os_malloc env h in
      if \<not> ok then (None, db, h)
      else
        let context = (\<lambda>db k. \<lparr>cc_db = db, cc_key_id = take MAX_KEY_ID_SIZE key_id,
                               cc_crypto_key = k @ replicate (AES_KEY_SIZE + AES_BLOCK_SIZE - length k) 0\<rparr>)
        in (case get_sqlite_secrets_row env db key_id h of
              (None, h) \<Rightarrow> (None, db, h)
            | (Some None, h) \<Rightarrow>
                if user_secret = [] then (None, db, h)
                else
                  let (r, key, h) = crypto_random ssl AES_KEY_SIZE h in
                  if r = 0 then (None, db, h)
                  else
                    (case generate_user_crypto_key_entry env ssl key_id user_secret key (filled r h) of
                       (None, h) \<Rightarrow> (None, db, h)
                     | (Some row, h) \<Rightarrow>
                         let (r, db, h) = save_sqlite_secrets_entry env db row h
                         in if r < 0 then (None, db, h) else (Some (context db key), db, h))
            | (Some (Some row), h) \<Rightarrow>
                if user_secret = [] then (None, db, h)
                else
                  (case extract_user_crypto_key_entry env ssl row user_secret h of
                     (None, h) \<Rightarrow> (None, db, h)
                   | (Some key, h) \<Rightarrow> (Some (context db key), db, h))))"

section \<open>Values\<close>

text \<open>
  The result of \<open>get_crypt_pair\<close> is None for NULL, \<open>Some None\<close> for a pair without a value.  The
  results of decoding are not checked: without the value its size is not set.
\<close>

definition get_crypt_pair :: "env \<Rightarrow> openssl \<Rightarrow> crypt_context \<Rightarrow> string \<Rightarrow> hist \<Rightarrow> bytes option option \<times> hist" where
  "get_crypt_pair env ssl ctx key h =
     (if key = [] then (None, h)
      else
        let (ok, h) = os_malloc env h in
        if \<not> ok then (None, h)
        else
          (case get_sqlite_store_row env (cc_db ctx) key h of
             (None, h) \<Rightarrow> (None, h)
           | (Some None, h) \<Rightarrow> (Some None, h)
           | (Some (Some row), h) \<Rightarrow>
               (case st_value row of
                  None \<Rightarrow> (Some None, h)
                | Some t \<Rightarrow>
                    (case st_iv row of
                       None \<Rightarrow> (None, E_ub Null_Deref # h)
                     | Some v \<Rightarrow>
                         let (iv, h) = base64_decode env (bytes_of_string v) h;
                             (enc, h) = base64_decode env (bytes_of_string t) h
                         in (case (iv, enc) of
                               (Some iv, Some enc) \<Rightarrow>
                                 let (ok, h) = os_malloc env h in
                                 if \<not> ok then (None, h)
                                 else (case crypto_decrypt ssl enc (cc_crypto_key ctx) iv h of
                                         (None, h) \<Rightarrow> (None, h)
                                       | (Some val, h) \<Rightarrow> (Some (Some val), h))
                             | _ \<Rightarrow> (None, E_ub Uninit_Read # h))))))"

definition put_crypt_pair ::
  "env \<Rightarrow> openssl \<Rightarrow> crypt_context \<Rightarrow> string \<Rightarrow> bytes option \<Rightarrow> hist \<Rightarrow> int \<times> crypt_context \<times> hist" where
  "put_crypt_pair env ssl ctx key value h =
     (if key = [] then (- 1, ctx, h)
      else
        let save = (\<lambda>val iv h.
              let (r, db, h) = save_sqlite_store_entry env (cc_db ctx)
                                 \<lparr>st_key = key, st_value = val, st_id = cc_key_id ctx, st_iv = iv\<rparr> h
              in (if r < 0 then - 1 else 0, ctx\<lparr>cc_db := db\<rparr>, h))
        in (case value of
              None \<Rightarrow> save None None h
            | Some bs \<Rightarrow>
                if bs = [] then save None None h
                else
                  let (r, iv, h) = crypto_random ssl IV_SIZE h in
                  if r = 0 then (- 1, ctx, h)
                  else
                    let (ok, h) = os_malloc env h in
                    if \<not> ok then (- 1, ctx, h)
                    else (case crypto_encrypt ssl bs (cc_crypto_key ctx) iv (filled r h) of
                            (None, h) \<Rightarrow> (- 1, ctx, h)
                          | (Some enc, h) \<Rightarrow>
                              let (val, h) = encode_column env enc h;
                                  (iv, h) = encode_column env iv h
                              in save val iv h)))"

section \<open>A stored value survives a restart\<close>

text \<open>
  What OpenSSL documents: \<open>RAND_bytes\<close> fills the buffer, AES-CBC with padding makes at most one
  block more of a text and is undone with the same key and IV, PBKDF2 gives a key of the length
  asked for.
\<close>

definition ssl_ok :: "openssl \<Rightarrow> bool" where
  "ssl_ok ssl \<longleftrightarrow>
     (\<forall>n h. \<exists>bs. RAND_bytes ssl (E_random n # h) = (1, bs) \<and> length bs = n) \<and>
     (\<forall>secret salt i n. \<exists>key. PBKDF2 ssl secret salt i n = Some key \<and> length key = n) \<and>
     (\<forall>key iv m. length key = AES_KEY_SIZE \<longrightarrow> length iv = IV_SIZE \<longrightarrow>
        (\<exists>c. EVP_encrypt ssl key iv m = Some c \<and> c \<noteq> [] \<and> length c \<le> length m + AES_BLOCK_SIZE \<and>
             EVP_decrypt ssl key iv c = Some m))"

lemma sql_bind_all_total: "sql_total env \<Longrightarrow> fst (sql_bind_all env bs h)"
  by (induction env bs h rule: sql_bind_all.induct) (auto simp: sql_total_def Let_def)

lemma crypto_random_ok: "ssl_ok ssl \<Longrightarrow> \<exists>bs h'. crypto_random ssl n h = (1, bs, h') \<and> length bs = n"
  unfolding ssl_ok_def crypto_random_def Let_def by (metis (no_types, lifting) case_prod_conv)

lemma crypto_encrypt_ok:
  assumes "ssl_ok ssl" and "AES_KEY_SIZE \<le> length key" and "length iv = IV_SIZE"
  shows "\<exists>c. (\<forall>h. crypto_encrypt ssl m key iv h = (Some c, h)) \<and> c \<noteq> [] \<and> length c \<le> length m + AES_BLOCK_SIZE \<and>
    (\<forall>h. crypto_decrypt ssl c key iv h = (Some m, h))"
proof -
  have "length (take AES_KEY_SIZE key) = AES_KEY_SIZE" and "length (take IV_SIZE iv) = IV_SIZE"
    using assms(2,3) by simp_all
  then obtain c where "EVP_encrypt ssl (take AES_KEY_SIZE key) (take IV_SIZE iv) m = Some c" "c \<noteq> []"
    "length c \<le> length m + AES_BLOCK_SIZE" "EVP_decrypt ssl (take AES_KEY_SIZE key) (take IV_SIZE iv) c = Some m"
    using assms(1) unfolding ssl_ok_def by blast
  then show ?thesis
    using assms(2,3) by (intro exI [of _ c]) (simp add: crypto_encrypt_def crypto_decrypt_def)
qed

text \<open>A column that was encoded is decoded again.\<close>

lemma encode_column_ok:
  assumes "alloc_total env" and "bs \<noteq> []" and "length bs < SIZE_MAX div 4"
  shows "\<exists>t h'. encode_column env bs h = (Some t, h') \<and>
    (\<forall>h2. base64_decode env (bytes_of_string t) h2 = (Some bs, E_malloc # h2))"
proof -
  obtain t where t: "base64_encode env bs h = (Some t, E_malloc # h)"
    using base64_roundtrip_std [OF assms, of h] by blast
  have "base64_decode env t h2 = (Some bs, E_malloc # h2)" for h2
    using base64_roundtrip_std [OF assms, of h h2] t by auto
  then show ?thesis
    using t by (intro exI [of _ "string_of_bytes t"]) (simp add: encode_column_def)
qed

lemma dup_column_total: "alloc_total env \<Longrightarrow> \<exists>h'. dup_column env v h = (v, h')"
  by (cases v) (auto simp: dup_column_def os_malloc_total)

definition put_row :: "store_row \<Rightarrow> crypt_db \<Rightarrow> crypt_db" where
  "put_row row db = db\<lparr>db_store := filter (\<lambda>r. st_key r \<noteq> st_key row) (db_store db) @ [row]\<rparr>"

lemma save_store_total:
  assumes "sql_total env"
  shows "\<exists>h'. save_sqlite_store_entry env db row h = (0, put_row row db, h')"
proof -
  have bind: "\<exists>h'. sql_bind_all env bs h = (True, h')" for bs h
    using sql_bind_all_total [OF assms, of bs h] by (cases "sql_bind_all env bs h") auto
  obtain h1 where h1: "sql_bind_all env [(''@key'', SqlText (st_key row))]
      (E_sql_prepare ''DELETE FROM store WHERE key=@key;'' # h) = (True, h1)"
    using bind by blast
  obtain h2 where h2: "sql_bind_all env [(''@key'', SqlText (st_key row)), (''@value'', sql_text (st_value row)),
      (''@id'', SqlText (st_id row)), (''@iv'', sql_text (st_iv row))]
      (E_sql_prepare ''INSERT INTO store VALUES(@key, @value, @id, @iv);'' # E_sql_step # h1) = (True, h2)"
    using bind by blast
  show ?thesis
    using assms
    by (auto simp: save_sqlite_store_entry_def sql_total_def sql_step_def insert_store_def put_row_def h1 h2 Let_def
        simp del: sql_bind_all.simps)
qed

lemma find_put_row:
  "find (\<lambda>r. st_key r = k) (db_store (put_row row db)) =
   (if k = st_key row then Some row else find (\<lambda>r. st_key r = k) (db_store db))"
proof -
  have "find (\<lambda>r. st_key r = k) (filter (\<lambda>r. st_key r \<noteq> i) xs @ [row]) =
      (if k = st_key row then Some row else find (\<lambda>r. st_key r = k) xs)" if "i = st_key row" for i xs
    using that by (induction xs) auto
  then show ?thesis
    by (simp add: put_row_def)
qed

lemma get_store_row_total:
  assumes "alloc_total env" and "sql_total env"
  shows "\<exists>h'. get_sqlite_store_row env db key h =
    (Some (map_option (\<lambda>r. r\<lparr>st_key := key\<rparr>) (find (\<lambda>r. st_key r = key) (db_store db))), h')"
proof (cases "find (\<lambda>r. st_key r = key) (db_store db)")
  case (Some r)
  have "\<exists>h'. (let (val, h) = dup_column env (st_value r) h; (_, h) = os_malloc env h; (iv, h) = dup_column env (st_iv r) h
      in (Some (Some \<lparr>st_key = key, st_value = val, st_id = st_id r, st_iv = iv\<rparr>), h)) = (Some (Some (r\<lparr>st_key := key\<rparr>)), h')" for h
  proof -
    obtain h1 where "dup_column env (st_value r) h = (st_value r, h1)"
      using dup_column_total [OF assms(1)] by blast
    moreover obtain h2 where "dup_column env (st_iv r) (E_malloc # h1) = (st_iv r, h2)"
      using dup_column_total [OF assms(1)] by blast
    ultimately show ?thesis
      by (cases r) (simp add: os_malloc_total [OF assms(1)])
  qed
  with Some show ?thesis
    using assms(2) by (simp add: get_sqlite_store_row_def os_malloc_total [OF assms(1)] sql_total_def)
qed (use assms in \<open>simp add: get_sqlite_store_row_def os_malloc_total sql_total_def\<close>)

text \<open>What a row stands for under a key.\<close>

definition holds_value :: "env \<Rightarrow> openssl \<Rightarrow> bytes \<Rightarrow> store_row \<Rightarrow> bytes \<Rightarrow> bool" where
  "holds_value env ssl crypto_key row val \<longleftrightarrow>
     (\<exists>t v iv c. st_value row = Some t \<and> st_iv row = Some v \<and>
        (\<forall>h. base64_decode env (bytes_of_string v) h = (Some iv, E_malloc # h)) \<and>
        (\<forall>h. base64_decode env (bytes_of_string t) h = (Some c, E_malloc # h)) \<and>
        (\<forall>h. crypto_decrypt ssl c crypto_key iv h = (Some val, h)))"

lemma get_crypt_pair_total:
  assumes "alloc_total env" and "sql_total env" and "key \<noteq> []"
    and "find (\<lambda>r. st_key r = key) (db_store (cc_db ctx)) = Some row" and "holds_value env ssl (cc_crypto_key ctx) row val"
  shows "fst (get_crypt_pair env ssl ctx key h) = Some (Some val)"
proof -
  obtain h1 where row: "get_sqlite_store_row env (cc_db ctx) key (E_malloc # h) = (Some (Some (row\<lparr>st_key := key\<rparr>)), h1)"
    using get_store_row_total [OF assms(1,2), of "cc_db ctx" key] assms(4) by auto
  obtain t v iv c where "st_value row = Some t" "st_iv row = Some v"
    "\<And>h. base64_decode env (bytes_of_string v) h = (Some iv, E_malloc # h)"
    "\<And>h. base64_decode env (bytes_of_string t) h = (Some c, E_malloc # h)"
    "\<And>h. crypto_decrypt ssl c (cc_crypto_key ctx) iv h = (Some val, h)"
    using assms(5) by (auto simp: holds_value_def)
  then show ?thesis
    using assms(3) by (simp add: get_crypt_pair_def os_malloc_total [OF assms(1)] row)
qed

lemma put_crypt_pair_total:
  assumes env: "alloc_total env" "sql_total env" "ssl_ok ssl" and key: "key \<noteq> []"
    and val: "val \<noteq> []" "length val + AES_BLOCK_SIZE < SIZE_MAX div 4" and ctx: "AES_KEY_SIZE \<le> length (cc_crypto_key ctx)"
  shows "\<exists>row h'. put_crypt_pair env ssl ctx key (Some val) h = (0, ctx\<lparr>cc_db := put_row row (cc_db ctx)\<rparr>, h') \<and>
    st_key row = key \<and> holds_value env ssl (cc_crypto_key ctx) row val"
proof -
  obtain iv h1 where iv: "crypto_random ssl IV_SIZE h = (1, iv, h1)" "length iv = IV_SIZE"
    using crypto_random_ok [OF env(3)] by blast
  obtain c where c: "\<And>h. crypto_encrypt ssl val (cc_crypto_key ctx) iv h = (Some c, h)" "c \<noteq> []"
    "length c \<le> length val + AES_BLOCK_SIZE" "\<And>h. crypto_decrypt ssl c (cc_crypto_key ctx) iv h = (Some val, h)"
    using crypto_encrypt_ok [OF env(3) ctx iv(2)] by blast
  obtain t h2 where t: "encode_column env c (E_malloc # h1) = (Some t, h2)"
    "\<forall>h. base64_decode env (bytes_of_string t) h = (Some c, E_malloc # h)"
    using encode_column_ok [OF env(1) c(2)] c(3) val(2) by (meson order_le_less_trans)
  have "iv \<noteq> []" "length iv < SIZE_MAX div 4"
    using iv(2) by (auto simp: SIZE_MAX_def)
  then obtain v h3 where v: "encode_column env iv h2 = (Some v, h3)"
    "\<forall>h. base64_decode env (bytes_of_string v) h = (Some iv, E_malloc # h)"
    using encode_column_ok [OF env(1)] by blast
  let ?row = "\<lparr>st_key = key, st_value = Some t, st_id = cc_key_id ctx, st_iv = Some v\<rparr>"
  obtain h4 where "save_sqlite_store_entry env (cc_db ctx) ?row h3 = (0, put_row ?row (cc_db ctx), h4)"
    using save_store_total [OF env(2)] by blast
  moreover have "holds_value env ssl (cc_crypto_key ctx) ?row val"
    unfolding holds_value_def using t(2) v(2) c(4)
    by (intro exI [of _ t] exI [of _ v] exI [of _ iv] exI [of _ c]) simp
  ultimately show ?thesis
    using key val(1)
    by (intro exI [of _ ?row] exI [of _ h4]) (simp add: put_crypt_pair_def iv(1) os_malloc_total [OF env(1)] c(1) t(1) v(1))
qed

lemma get_crypt_pair_frame:
  assumes "find (\<lambda>r. st_key r = k) (db_store db) = find (\<lambda>r. st_key r = k) (db_store (cc_db ctx))"
  shows "get_crypt_pair env ssl (ctx\<lparr>cc_db := db\<rparr>) k h = get_crypt_pair env ssl ctx k h"
proof -
  have row: "get_sqlite_store_row env db k h = get_sqlite_store_row env (cc_db ctx) k h" for h
    unfolding get_sqlite_store_row_def assms ..
  have "cc_db (ctx\<lparr>cc_db := db\<rparr>) = db" "cc_crypto_key (ctx\<lparr>cc_db := db\<rparr>) = cc_crypto_key ctx"
    by simp_all
  then show ?thesis
    unfolding get_crypt_pair_def by (simp only: row)
qed

section \<open>The key of the store\<close>

text \<open>The row that keeps a key for a secret.\<close>

definition holds_key :: "env \<Rightarrow> openssl \<Rightarrow> bytes \<Rightarrow> secrets_row \<Rightarrow> bytes \<Rightarrow> bool" where
  "holds_key env ssl secret row key \<longleftrightarrow> (\<forall>h. \<exists>h'. extract_user_crypto_key_entry env ssl row secret h = (Some key, h'))"

lemma decode_column_ok:
  "(\<And>h. base64_decode env (bytes_of_string t) h = (Some bs, E_malloc # h)) \<Longrightarrow> length bs \<le> n \<Longrightarrow>
   decode_column env (Some t) n h = (Some bs, E_malloc # h)"
  by (simp add: decode_column_def)

lemma generate_entry_total:
  assumes env: "alloc_total env" "ssl_ok ssl" and key: "length key = AES_KEY_SIZE"
  shows "\<exists>row h'. generate_user_crypto_key_entry env ssl key_id secret key h = (Some row, h') \<and>
    se_id row = Some key_id \<and> holds_key env ssl secret row key"
proof -
  obtain salt h1 where salt: "crypto_random ssl SALT_SIZE h = (1, salt, h1)" "length salt = SALT_SIZE"
    using crypto_random_ok [OF env(2)] by blast
  obtain ukey where ukey: "generate_user_key ssl secret salt = Some ukey" "length ukey = AES_KEY_SIZE"
    using env(2) unfolding ssl_ok_def generate_user_key_def crypto_buf2key_def by blast
  obtain iv h2 where iv: "crypto_random ssl IV_SIZE h1 = (1, iv, h2)" "length iv = IV_SIZE"
    using crypto_random_ok [OF env(2)] by blast
  obtain c where c: "\<And>h. crypto_encrypt ssl key ukey iv h = (Some c, h)" "c \<noteq> []" "length c \<le> length key + AES_BLOCK_SIZE"
    "\<And>h. crypto_decrypt ssl c ukey iv h = (Some key, h)"
    using crypto_encrypt_ok [OF env(2) eq_imp_le iv(2)] ukey(2) by metis
  have small: "length c < SIZE_MAX div 4" "salt \<noteq> []" "length salt < SIZE_MAX div 4" "iv \<noteq> []" "length iv < SIZE_MAX div 4"
    using c(3) key salt(2) iv(2) by (auto simp: SIZE_MAX_def)
  obtain d h3 where d: "dup_column env (Some key_id) (E_malloc # h2) = (Some key_id, h3)"
    using dup_column_total [OF env(1)] by blast
  obtain t h4 where t: "encode_column env c h3 = (Some t, h4)"
    "\<And>h. base64_decode env (bytes_of_string t) h = (Some c, E_malloc # h)"
    using encode_column_ok [OF env(1) c(2) small(1)] by blast
  obtain u h5 where u: "encode_column env salt h4 = (Some u, h5)"
    "\<And>h. base64_decode env (bytes_of_string u) h = (Some salt, E_malloc # h)"
    using encode_column_ok [OF env(1) small(2,3)] by blast
  obtain v h6 where v: "encode_column env iv h5 = (Some v, h6)"
    "\<And>h. base64_decode env (bytes_of_string v) h = (Some iv, E_malloc # h)"
    using encode_column_ok [OF env(1) small(4,5)] by blast
  let ?row = "\<lparr>se_id = Some key_id, se_value = Some t, se_salt = Some u, se_iv = Some v\<rparr>"
  have "length c \<le> 48" "length salt \<le> SALT_SIZE" "length iv \<le> IV_SIZE"
    using c(3) key salt(2) iv(2) by simp_all
  note cols = decode_column_ok [OF t(2) this(1)] decode_column_ok [OF u(2) this(2)] decode_column_ok [OF v(2) this(3)]
  have "holds_key env ssl secret ?row key"
    unfolding holds_key_def
    by (simp add: extract_user_crypto_key_entry_def extract_secret_entry_def cols salt(2) iv(2) ukey(1) c(4))
  moreover have "generate_user_crypto_key_entry env ssl key_id secret key h = (Some ?row, h6)"
    using key by (simp add: generate_user_crypto_key_entry_def salt(1) ukey(1) iv(1) c(1) prepare_secret_entry_def
        os_malloc_total [OF env(1)] d t(1) u(1) v(1))
  ultimately show ?thesis
    by (intro exI [of _ ?row]) simp
qed

lemma get_secrets_row_total:
  assumes "alloc_total env" and "sql_total env"
  shows "\<exists>h'. get_sqlite_secrets_row env db key_id h =
    (Some (map_option (\<lambda>r. r\<lparr>se_id := Some key_id\<rparr>) (find (\<lambda>r. se_id r = Some key_id) (db_secrets db))), h')"
proof (cases "find (\<lambda>r. se_id r = Some key_id) (db_secrets db)")
  case (Some r)
  let ?h = "E_sql_step # E_sql_bind ''?'' (SqlText key_id) #
    E_sql_prepare ''SELECT value, salt, iv FROM  secrets WHERE id=?;'' # E_malloc # h"
  obtain h1 where "dup_column env (Some key_id) ?h = (Some key_id, h1)"
    using dup_column_total [OF assms(1)] by blast
  moreover obtain h2 where "dup_column env (se_value r) h1 = (se_value r, h2)"
    using dup_column_total [OF assms(1)] by blast
  moreover obtain h3 where "dup_column env (se_salt r) h2 = (se_salt r, h3)"
    using dup_column_total [OF assms(1)] by blast
  moreover obtain h4 where "dup_column env (se_iv r) h3 = (se_iv r, h4)"
    using dup_column_total [OF assms(1)] by blast
  ultimately show ?thesis
    using assms(2) Some
    by (cases r) (simp add: get_sqlite_secrets_row_def os_malloc_total [OF assms(1)] sql_total_def)
qed (use assms in \<open>simp add: get_sqlite_secrets_row_def os_malloc_total sql_total_def\<close>)

lemma save_secrets_total:
  assumes "sql_total env"
  shows "\<exists>h'. save_sqlite_secrets_entry env db row h = (0, insert_secrets row db, h')"
proof -
  let ?bs = "[(''@id'', sql_text (se_id row)), (''@value'', sql_text (se_value row)),
    (''@salt'', sql_text (se_salt row)), (''@iv'', sql_text (se_iv row))]"
  let ?h = "E_sql_prepare ''INSERT INTO secrets VALUES(@id, @value, @salt, @iv);'' # h"
  obtain h1 where "sql_bind_all env ?bs ?h = (True, h1)"
    using sql_bind_all_total [OF assms, of ?bs ?h] by (cases "sql_bind_all env ?bs ?h") auto
  then show ?thesis
    using assms by (simp add: save_sqlite_secrets_entry_def sql_total_def sql_step_def Let_def del: sql_bind_all.simps)
qed

lemma load_new:
  assumes env: "alloc_total env" "sql_total env" "ssl_ok ssl"
    and new: "find (\<lambda>r. se_id r = Some key_id) (db_secrets db) = None" and secret: "secret \<noteq> []"
  shows "\<exists>row key ctx h'. load_crypt_service env ssl db key_id secret h = (Some ctx, cc_db ctx, h') \<and>
    cc_db ctx = db\<lparr>db_secrets := db_secrets db @ [row]\<rparr> \<and> se_id row = Some key_id \<and> holds_key env ssl secret row key \<and>
    length key = AES_KEY_SIZE \<and> cc_crypto_key ctx = key @ replicate AES_BLOCK_SIZE 0"
proof -
  obtain h1 where get: "get_sqlite_secrets_row env db key_id (E_malloc # h) = (Some None, h1)"
    using get_secrets_row_total [OF env(1,2), of db key_id "E_malloc # h"] new by auto
  obtain key h2 where key: "crypto_random ssl AES_KEY_SIZE h1 = (1, key, h2)" "length key = AES_KEY_SIZE"
    using crypto_random_ok [OF env(3)] by blast
  obtain row h3 where row: "generate_user_crypto_key_entry env ssl key_id secret key h2 = (Some row, h3)"
    "se_id row = Some key_id" "holds_key env ssl secret row key"
    using generate_entry_total [OF env(1,3) key(2)] by blast
  obtain h4 where save: "save_sqlite_secrets_entry env db row h3 = (0, insert_secrets row db, h4)"
    using save_secrets_total [OF env(2)] by blast
  have "insert_secrets row db = db\<lparr>db_secrets := db_secrets db @ [row]\<rparr>"
    using new by (auto simp: insert_secrets_def row(2) find_None_iff)
  then show ?thesis
    using secret row(2,3) key(2)
    by (intro exI [of _ row] exI [of _ key])
      (simp add: load_crypt_service_def os_malloc_total [OF env(1)] get key(1) row(1) save)
qed

lemma load_again:
  assumes env: "alloc_total env" "sql_total env"
    and old: "find (\<lambda>r. se_id r = Some key_id) (db_secrets db) = Some row" "se_id row = Some key_id"
    and key: "holds_key env ssl secret row key" and secret: "secret \<noteq> []"
  shows "\<exists>ctx h'. load_crypt_service env ssl db key_id secret h = (Some ctx, db, h') \<and> cc_db ctx = db \<and>
    cc_crypto_key ctx = key @ replicate (AES_KEY_SIZE + AES_BLOCK_SIZE - length key) 0"
proof -
  have "row\<lparr>se_id := Some key_id\<rparr> = row"
    using old(2) by simp
  then obtain h1 where get: "get_sqlite_secrets_row env db key_id (E_malloc # h) = (Some (Some row), h1)"
    using get_secrets_row_total [OF env, of db key_id "E_malloc # h"] old(1) by auto
  obtain h2 where "extract_user_crypto_key_entry env ssl row secret h1 = (Some key, h2)"
    using key unfolding holds_key_def by blast
  then show ?thesis
    using secret by (simp add: load_crypt_service_def os_malloc_total [OF env(1)] get)
qed

text \<open>
  C8: a value that is stored is read back, also by a service that is started again on the
  database with the same user secret, and storing it changes no other value.
\<close>

theorem stored_value_survives_restart:
  assumes env: "alloc_total env" "sql_total env" "ssl_ok ssl"
    and fresh: "find (\<lambda>r. se_id r = Some key_id) (db_secrets db) = None" and secret: "secret \<noteq> []"
    and key: "key \<noteq> []" and val: "val \<noteq> []" "length val + AES_BLOCK_SIZE < SIZE_MAX div 4"
  shows "\<exists>ctx h1 ctx' h2 ctx'' h3.
    load_crypt_service env ssl db key_id secret h = (Some ctx, cc_db ctx, h1) \<and>
    put_crypt_pair env ssl ctx key (Some val) h1 = (0, ctx', h2) \<and>
    fst (get_crypt_pair env ssl ctx' key h2) = Some (Some val) \<and>
    (\<forall>k. k \<noteq> key \<longrightarrow> fst (get_crypt_pair env ssl ctx' k h2) = fst (get_crypt_pair env ssl ctx k h2)) \<and>
    load_crypt_service env ssl (cc_db ctx') key_id secret h2 = (Some ctx'', cc_db ctx', h3) \<and>
    fst (get_crypt_pair env ssl ctx'' key h3) = Some (Some val)"
proof -
  obtain row ck ctx h1 where load: "load_crypt_service env ssl db key_id secret h = (Some ctx, cc_db ctx, h1)"
    and db: "cc_db ctx = db\<lparr>db_secrets := db_secrets db @ [row]\<rparr>" "se_id row = Some key_id" "holds_key env ssl secret row ck"
    and ck: "length ck = AES_KEY_SIZE" "cc_crypto_key ctx = ck @ replicate AES_BLOCK_SIZE 0"
    using load_new [OF env fresh secret, of h] by blast
  have "AES_KEY_SIZE \<le> length (cc_crypto_key ctx)"
    using ck by simp
  then obtain st h2 where put: "put_crypt_pair env ssl ctx key (Some val) h1 = (0, ctx\<lparr>cc_db := put_row st (cc_db ctx)\<rparr>, h2)"
    and st: "st_key st = key" "holds_value env ssl (cc_crypto_key ctx) st val"
    using put_crypt_pair_total [OF env key val, of ctx h1] by blast
  let ?ctx = "ctx\<lparr>cc_db := put_row st (cc_db ctx)\<rparr>"
  have found: "find (\<lambda>r. st_key r = key) (db_store (cc_db ?ctx)) = Some st"
    by (simp add: find_put_row st(1))
  have get: "fst (get_crypt_pair env ssl ?ctx key h2) = Some (Some val)"
    using get_crypt_pair_total [OF env(1,2) key found, of ssl val] st(2) by simp
  have other: "fst (get_crypt_pair env ssl ?ctx k h2) = fst (get_crypt_pair env ssl ctx k h2)" if "k \<noteq> key" for k
    using that get_crypt_pair_frame [of k "put_row st (cc_db ctx)" ctx] by (simp add: find_put_row st(1))
  have "find (\<lambda>r. se_id r = Some key_id) (db_secrets (cc_db ?ctx)) = Some row"
    using fresh db(2) by (auto simp: put_row_def db(1) find_append)
  from load_again [OF env(1,2) this db(2,3) secret, of h2]
  obtain ctx'' h3 where again: "load_crypt_service env ssl (cc_db ?ctx) key_id secret h2 = (Some ctx'', cc_db ?ctx, h3)"
    "cc_db ctx'' = cc_db ?ctx" "cc_crypto_key ctx'' = cc_crypto_key ctx"
    using ck by auto
  have "fst (get_crypt_pair env ssl ctx'' key h3) = Some (Some val)"
    using get_crypt_pair_total [OF env(1,2) key, of ctx'' st ssl val] found st(2) again(2,3) by simp
  with load put get other again(1) show ?thesis
    by (intro exI [of _ ctx] exI [of _ h1] exI [of _ ?ctx] exI [of _ h2] exI [of _ ctx''] exI [of _ h3]) simp
qed

definition demo_ssl :: openssl where
  "demo_ssl =
     \<lparr>RAND_bytes = (\<lambda>h. case h of E_random n # _ \<Rightarrow> (1, replicate n 5) | _ \<Rightarrow> (0, [])),
      PBKDF2 = (\<lambda>secret salt i n. Some (replicate n (if secret = [] then 0 else hd secret))),
      EVP_encrypt = (\<lambda>key iv m. Some (1 # map (xor (hd key)) m)),
      EVP_decrypt = (\<lambda>key iv c. Some (map (xor (hd key)) (tl c)))\<rparr>"

lemma demo_ssl_ok: "ssl_ok demo_ssl"
  by (simp add: ssl_ok_def demo_ssl_def comp_def xor.assoc [symmetric])

theorem stored_value_survives_restart_witness:
  "\<exists>ctx h1 ctx' h2 ctx'' h3.
    load_crypt_service ideal_env demo_ssl \<lparr>db_store = [], db_secrets = []\<rparr> ''main'' [9] [] = (Some ctx, cc_db ctx, h1) \<and>
    put_crypt_pair ideal_env demo_ssl ctx ''psk'' (Some [1, 2, 3]) h1 = (0, ctx', h2) \<and>
    load_crypt_service ideal_env demo_ssl (cc_db ctx') ''main'' [9] h2 = (Some ctx'', cc_db ctx', h3) \<and>
    fst (get_crypt_pair ideal_env demo_ssl ctx'' ''psk'' h3) = Some (Some [1, 2, 3])"
proof -
  have "sql_total ideal_env"
    by (simp add: sql_total_def ideal_env_def)
  moreover have "find (\<lambda>r. se_id r = Some ''main'') (db_secrets \<lparr>db_store = [], db_secrets = []\<rparr>) = None"
    and "[9 :: u8] \<noteq> []" and "''psk'' \<noteq> []" and "[1, 2, 3 :: u8] \<noteq> []"
    and "length [1, 2, 3 :: u8] + AES_BLOCK_SIZE < SIZE_MAX div 4"
    by (simp_all add: SIZE_MAX_def)
  ultimately have "\<exists>ctx h1 ctx' h2 ctx'' h3.
    load_crypt_service ideal_env demo_ssl \<lparr>db_store = [], db_secrets = []\<rparr> ''main'' [9] [] = (Some ctx, cc_db ctx, h1) \<and>
    put_crypt_pair ideal_env demo_ssl ctx ''psk'' (Some [1, 2, 3]) h1 = (0, ctx', h2) \<and>
    fst (get_crypt_pair ideal_env demo_ssl ctx' ''psk'' h2) = Some (Some [1, 2, 3]) \<and>
    (\<forall>k. k \<noteq> ''psk'' \<longrightarrow> fst (get_crypt_pair ideal_env demo_ssl ctx' k h2) = fst (get_crypt_pair ideal_env demo_ssl ctx k h2)) \<and>
    load_crypt_service ideal_env demo_ssl (cc_db ctx') ''main'' [9] h2 = (Some ctx'', cc_db ctx', h3) \<and>
    fst (get_crypt_pair ideal_env demo_ssl ctx'' ''psk'' h3) = Some (Some [1, 2, 3])"
    by (rule stored_value_survives_restart [OF ideal_alloc _ demo_ssl_ok])
  then show ?thesis
    by (elim exE conjE) (intro exI conjI)
qed

end
