(* ===== verification/Crypt_Commands.thy ===== *)
theory Crypt_Commands
  imports Crypt_Service
begin

text \<open>
  supervisor/crypt_commands.c: the commands on the crypt store.  The keys and certificates that
  OpenSSL generates are parameters.  Of the context of the supervisor they use \<open>crypt_ctx\<close> only.
\<close>

text \<open>A value that cannot be decoded is refused; an empty one cannot be given.\<close>

definition put_crypt_cmd ::
  "env \<Rightarrow> openssl \<Rightarrow> crypt_context \<Rightarrow> string \<Rightarrow> string \<Rightarrow> hist \<Rightarrow> int \<times> crypt_context \<times> hist" where
  "put_crypt_cmd env ssl ctx key value h =
     (case base64_url_decode env (bytes_of_string value) h of
        (None, h) \<Rightarrow> (- 1, ctx, h)
      | (Some bs, h) \<Rightarrow>
          let (r, ctx, h) = put_crypt_pair env ssl ctx key (Some bs) h in (if r < 0 then - 1 else 0, ctx, h))"

definition encode_reply :: "env \<Rightarrow> bytes \<Rightarrow> hist \<Rightarrow> string option \<times> hist" where
  "encode_reply env bs h = (let (t, h) = base64_url_encode env bs False h in (map_option string_of_bytes t, h))"

definition get_crypt_cmd :: "env \<Rightarrow> openssl \<Rightarrow> crypt_context \<Rightarrow> string \<Rightarrow> hist \<Rightarrow> string option \<times> hist" where
  "get_crypt_cmd env ssl ctx key h =
     (case get_crypt_pair env ssl ctx key h of
        (Some (Some bs), h) \<Rightarrow> encode_reply env bs h
      | (_, h) \<Rightarrow> (None, h))"

text \<open>The failure of \<open>RAND_bytes\<close>, which is 0, is not noticed.\<close>

definition gen_randkey_cmd ::
  "env \<Rightarrow> openssl \<Rightarrow> crypt_context \<Rightarrow> string \<Rightarrow> u8 \<Rightarrow> hist \<Rightarrow> int \<times> crypt_context \<times> hist" where
  "gen_randkey_cmd env ssl ctx keyid n h =
     (let (ok, h) = os_malloc env h in
      if \<not> ok then (- 1, ctx, h)
      else
        let (r, bs, h) = crypto_random ssl (unat n) h in
        if r < 0 then (- 1, ctx, h)
        else let (r, ctx, h) = put_crypt_pair env ssl ctx keyid (Some bs) (filled r h)
             in (if r < 0 then - 1 else 0, ctx, h))"

text \<open>\<open>generate\<close> is \<open>crypto_generate_privkey_str\<close>: a text in PEM, or None.\<close>

definition gen_privkey_cmd ::
  "env \<Rightarrow> openssl \<Rightarrow> string option \<Rightarrow> crypt_context \<Rightarrow> string \<Rightarrow> hist \<Rightarrow> int \<times> crypt_context \<times> hist" where
  "gen_privkey_cmd env ssl generate ctx keyid h =
     (case generate of
        None \<Rightarrow> (- 1, ctx, h)
      | Some pem \<Rightarrow>
          let (r, ctx, h) = put_crypt_pair env ssl ctx keyid (Some (bytes_of_string pem)) h
          in (if r < 0 then - 1 else 0, ctx, h))"

text \<open>
  \<open>derive\<close> is \<open>crypto_generate_pubkey_str\<close> or \<open>crypto_generate_cert_str\<close> of the private key; the
  value of the pair may be NULL, with size 0.  \<open>Some None\<close> is success without a text, which is then
  measured by \<open>strlen\<close>.
\<close>

definition gen_derived_cmd ::
  "env \<Rightarrow> openssl \<Rightarrow> (bytes \<Rightarrow> string option option) \<Rightarrow> crypt_context \<Rightarrow> string \<Rightarrow> string \<Rightarrow> hist \<Rightarrow>
   int \<times> crypt_context \<times> hist" where
  "gen_derived_cmd env ssl derive ctx certid keyid h =
     (case get_crypt_pair env ssl ctx keyid h of
        (None, h) \<Rightarrow> (- 1, ctx, h)
      | (Some v, h) \<Rightarrow>
          (case derive (case v of None \<Rightarrow> [] | Some key \<Rightarrow> key) of
             None \<Rightarrow> (- 1, ctx, h)
           | Some None \<Rightarrow> (- 1, ctx, E_ub Null_Deref # h)
           | Some (Some pem) \<Rightarrow>
               let (r, ctx, h) = put_crypt_pair env ssl ctx certid (Some (bytes_of_string pem)) h
               in (if r < 0 then - 1 else 0, ctx, h)))"

text \<open>
  What \<open>encrypt_blob_cmd\<close> and \<open>decrypt_blob_cmd\<close> have in common: key, IV and blob, and the buffer for
  the result.
\<close>

definition blob_cmd ::
  "(bytes \<Rightarrow> bytes \<Rightarrow> bytes \<Rightarrow> hist \<Rightarrow> bytes option \<times> hist) \<Rightarrow>
   env \<Rightarrow> openssl \<Rightarrow> crypt_context \<Rightarrow> string \<Rightarrow> string \<Rightarrow> string \<Rightarrow> hist \<Rightarrow> string option \<times> hist" where
  "blob_cmd cipher env ssl ctx keyid ivid blob h =
     (case get_crypt_pair env ssl ctx keyid h of
        (Some (Some key), h) \<Rightarrow>
          (case get_crypt_pair env ssl ctx ivid h of
             (Some (Some iv), h) \<Rightarrow>
               (case base64_url_decode env (bytes_of_string blob) h of
                  (None, h) \<Rightarrow> (None, h)
                | (Some bs, h) \<Rightarrow>
                    let (ok, h) = os_malloc env h in
                    if \<not> ok then (None, h)
                    else (case cipher bs key iv h of
                            (None, h) \<Rightarrow> (None, h)
                          | (Some out, h) \<Rightarrow> encode_reply env out h))
           | (_, h) \<Rightarrow> (None, h))
      | (_, h) \<Rightarrow> (None, h))"

definition encrypt_blob_cmd ::
  "env \<Rightarrow> openssl \<Rightarrow> crypt_context \<Rightarrow> string \<Rightarrow> string \<Rightarrow> string \<Rightarrow> hist \<Rightarrow> string option \<times> hist" where
  "encrypt_blob_cmd env ssl = blob_cmd (crypto_encrypt ssl) env ssl"

definition decrypt_blob_cmd ::
  "env \<Rightarrow> openssl \<Rightarrow> crypt_context \<Rightarrow> string \<Rightarrow> string \<Rightarrow> string \<Rightarrow> hist \<Rightarrow> string option \<times> hist" where
  "decrypt_blob_cmd env ssl = blob_cmd (crypto_decrypt ssl) env ssl"

text \<open>\<open>sign\<close> is \<open>crypto_sign_data\<close>.\<close>

definition sign_blob_cmd ::
  "env \<Rightarrow> openssl \<Rightarrow> (bytes \<Rightarrow> bytes \<Rightarrow> bytes option) \<Rightarrow> crypt_context \<Rightarrow> string \<Rightarrow> string \<Rightarrow> hist \<Rightarrow> string option \<times> hist" where
  "sign_blob_cmd env ssl sign ctx keyid blob h =
     (case get_crypt_pair env ssl ctx keyid h of
        (Some (Some key), h) \<Rightarrow>
          (case base64_url_decode env (bytes_of_string blob) h of
             (None, h) \<Rightarrow> (None, h)
           | (Some bs, h) \<Rightarrow>
               (case sign key bs of
                  None \<Rightarrow> (None, h)
                | Some sig \<Rightarrow> encode_reply env sig h))
      | (_, h) \<Rightarrow> (None, h))"

section \<open>Blobs\<close>

lemma encode_reply_ok:
  assumes "alloc_total env" and "bs \<noteq> []" and "length bs < SIZE_MAX div 4"
  shows "\<exists>t h'. encode_reply env bs h = (Some t, h') \<and>
    (\<forall>h2. base64_url_decode env (bytes_of_string t) h2 = (Some bs, E_malloc # h2))"
proof -
  obtain t where t: "base64_url_encode env bs False h = (Some t, E_malloc # h)"
    using url.gen_roundtrip [OF assms, of False h] by (auto simp: base64_url_encode_def)
  have "base64_url_decode env t h2 = (Some bs, E_malloc # h2)" for h2
    using url.gen_roundtrip [OF assms, of False h h2] t by (auto simp: base64_url_encode_def base64_url_decode_def)
  then show ?thesis
    using t by (intro exI [of _ "string_of_bytes t"]) (simp add: encode_reply_def)
qed

text \<open>The store holds a value under a key, whatever has happened before.\<close>

definition stored :: "env \<Rightarrow> openssl \<Rightarrow> crypt_context \<Rightarrow> string \<Rightarrow> bytes \<Rightarrow> bool" where
  "stored env ssl ctx k v \<longleftrightarrow> (\<forall>h. \<exists>h'. get_crypt_pair env ssl ctx k h = (Some (Some v), h'))"

lemma blob_cmd_total:
  assumes env: "alloc_total env" and key: "stored env ssl ctx keyid key" and iv: "stored env ssl ctx ivid iv"
    and blob: "\<And>h. base64_url_decode env (bytes_of_string blob) h = (Some bs, E_malloc # h)"
    and cipher: "\<And>h. cipher bs key iv h = (Some out, h)" and out: "out \<noteq> []" "length out < SIZE_MAX div 4"
  shows "\<exists>t h'. blob_cmd cipher env ssl ctx keyid ivid blob h = (Some t, h') \<and>
    (\<forall>h2. base64_url_decode env (bytes_of_string t) h2 = (Some out, E_malloc # h2))"
proof -
  obtain h1 where h1: "get_crypt_pair env ssl ctx keyid h = (Some (Some key), h1)"
    using key unfolding stored_def by blast
  obtain h2 where h2: "get_crypt_pair env ssl ctx ivid h1 = (Some (Some iv), h2)"
    using iv unfolding stored_def by blast
  obtain t h' where "encode_reply env out (E_malloc # E_malloc # h2) = (Some t, h')"
    "\<forall>h2. base64_url_decode env (bytes_of_string t) h2 = (Some out, E_malloc # h2)"
    using encode_reply_ok [OF env out] by blast
  then show ?thesis
    by (intro exI [of _ t] exI [of _ h']) (simp add: blob_cmd_def h1 h2 blob os_malloc_total [OF env] cipher)
qed


lemma stored_row:
  assumes "alloc_total env" and "sql_total env" and "k \<noteq> []"
    and "find (\<lambda>r. st_key r = k) (db_store (cc_db ctx)) = Some row" and "holds_value env ssl (cc_crypto_key ctx) row v"
  shows "stored env ssl ctx k v"
  unfolding stored_def using get_crypt_pair_total [OF assms] by (metis prod.collapse)

lemma put_stored:
  fixes k1 v1 ck :: bytes
  assumes env: "alloc_total env" "sql_total env" "ssl_ok ssl"
    and vals: "length k1 = AES_KEY_SIZE" "length v1 = IV_SIZE" and len: "length ck = 48"
  shows "\<exists>ctx. stored env ssl ctx ''k'' k1 \<and> stored env ssl ctx ''i'' v1"
proof -
  let ?c0 = "\<lparr>cc_db = \<lparr>db_store = [], db_secrets = []\<rparr>, cc_key_id = ''main'', cc_crypto_key = ck\<rparr>"
  have nonempty: "k1 \<noteq> []" "v1 \<noteq> []"
    using vals by auto
  have small: "length k1 + AES_BLOCK_SIZE < SIZE_MAX div 4" "length v1 + AES_BLOCK_SIZE < SIZE_MAX div 4"
    using vals by (simp_all add: SIZE_MAX_def)
  obtain r1 h1 where r1: "st_key r1 = ''k''" "holds_value env ssl ck r1 k1"
    using put_crypt_pair_total [OF env, of "''k''" k1 ?c0 "[]"] nonempty small len by auto
  obtain r2 h2 where r2: "st_key r2 = ''i''" "holds_value env ssl ck r2 v1"
    using put_crypt_pair_total [OF env, of "''i''" v1 ?c0 "[]"] nonempty small len by auto
  let ?c = "?c0\<lparr>cc_db := \<lparr>db_store = [r1, r2], db_secrets = []\<rparr>\<rparr>"
  have "stored env ssl ?c ''k'' k1" "stored env ssl ?c ''i'' v1"
    using stored_row [OF env(1,2), of "''k''" ?c r1 ssl k1] stored_row [OF env(1,2), of "''i''" ?c r2 ssl v1] r1 r2 by auto
  then show ?thesis
    by blast
qed


end
