(* ===== verification/String_Queue.thy ===== *)
theory String_Queue
  imports Iface_Mapper
begin

text \<open>
  utils/squeue.c, a queue of strings with an optional bound, and utils/hashmap.c, a table from
  short strings to strings.  The list of a queue holds the texts of its elements, None where the
  text could not be copied; the pointer to the queue is never NULL in the sources.
\<close>

section \<open>The queue\<close>

record string_queue =
  sq_max_length :: int
  sq_list :: "string option list"

definition init_string_queue :: "env \<Rightarrow> int \<Rightarrow> hist \<Rightarrow> string_queue option \<times> hist" where
  "init_string_queue env max_length h =
     (let (ok, h) = os_malloc env h in (if ok then Some \<lparr>sq_max_length = max_length, sq_list = []\<rparr> else None, h))"

text \<open>The result of \<open>os_strdup\<close> is not checked.\<close>

definition push_string_queue :: "env \<Rightarrow> string_queue \<Rightarrow> string \<Rightarrow> hist \<Rightarrow> int \<times> string_queue \<times> hist" where
  "push_string_queue env queue str h =
     (case init_string_queue env (sq_max_length queue) h of
        (None, h) \<Rightarrow> (- 1, queue, h)
      | (Some _, h) \<Rightarrow>
          let (ok, h) = os_malloc env h;
              xs = sq_list queue @ [if ok then Some str else None];
              xs = (if sq_max_length queue < int (length xs) \<and> 0 \<le> sq_max_length queue then tl xs else xs)
          in (0, queue\<lparr>sq_list := xs\<rparr>, h))"

text \<open>\<open>os_strdup\<close> of NULL takes its length first.\<close>

definition peek_string_queue :: "env \<Rightarrow> string_queue \<Rightarrow> hist \<Rightarrow> string option \<times> hist" where
  "peek_string_queue env queue h =
     (case sq_list queue of
        [] \<Rightarrow> (None, h)
      | None # _ \<Rightarrow> (None, E_ub Null_Deref # h)
      | Some s # _ \<Rightarrow> let (ok, h) = os_malloc env h in (if ok then Some s else None, h))"

definition pop_string_queue :: "env \<Rightarrow> string_queue \<Rightarrow> hist \<Rightarrow> string option \<times> string_queue \<times> hist" where
  "pop_string_queue env queue h =
     (let (str, h) = peek_string_queue env queue h in (str, queue\<lparr>sq_list := tl (sq_list queue)\<rparr>, h))"

definition empty_string_queue :: "string_queue \<Rightarrow> int \<Rightarrow> string_queue" where
  "empty_string_queue queue n =
     queue\<lparr>sq_list := (if n < 0 then [] else drop (nat n) (sq_list queue))\<rparr>"

definition get_string_queue_length :: "string_queue \<Rightarrow> int" where
  "get_string_queue_length queue = int (length (sq_list queue))"

text \<open>The loop over the elements to join; None for a buffer that was not allocated yet.\<close>

fun concat_loop :: "env \<Rightarrow> string option list \<Rightarrow> string option \<Rightarrow> hist \<Rightarrow> string option \<times> hist" where
  "concat_loop env [] buf h = (buf, h)"
| "concat_loop env (x # xs) buf h =
     (let (s, h) = (case x of None \<Rightarrow> ('''', E_ub Null_Deref # h) | Some s \<Rightarrow> (s, h));
          (ok, h) = os_malloc env h
      in if \<not> ok then (None, h)
         else concat_loop env xs (Some (case buf of None \<Rightarrow> s | Some b \<Rightarrow> b @ s)) h)"

definition concat_string_queue :: "env \<Rightarrow> string_queue \<Rightarrow> int \<Rightarrow> hist \<Rightarrow> string option \<times> hist" where
  "concat_string_queue env queue n h =
     concat_loop env (if n < 0 then sq_list queue else take (nat n) (sq_list queue)) None h"

text \<open>With memory, a bounded queue holds the last strings that were pushed.\<close>

lemma push_string_queue_total:
  "alloc_total env \<Longrightarrow>
   push_string_queue env q s h =
     (0, q\<lparr>sq_list := (if 0 \<le> sq_max_length q \<and> sq_max_length q < int (length (sq_list q)) + 1
                     then tl (sq_list q @ [Some s]) else sq_list q @ [Some s])\<rparr>, E_malloc # E_malloc # h)"
  by (auto simp: push_string_queue_def init_string_queue_def os_malloc_total Let_def)

fun push_all :: "env \<Rightarrow> string_queue \<Rightarrow> string list \<Rightarrow> hist \<Rightarrow> string_queue \<times> hist" where
  "push_all env q [] h = (q, h)"
| "push_all env q (s # ss) h = (let (_, q, h) = push_string_queue env q s h in push_all env q ss h)"

definition last_n :: "nat \<Rightarrow> 'a list \<Rightarrow> 'a list" where
  "last_n n xs = drop (length xs - n) xs"

lemma push_all_total:
  assumes "alloc_total env" and "sq_max_length q = int n" and "sq_list q = last_n n xs"
  shows "sq_list (fst (push_all env q ss h)) = last_n n (xs @ map Some ss) \<and>
    sq_max_length (fst (push_all env q ss h)) = int n"
  using assms(2,3)
proof (induction ss arbitrary: q xs h)
  case (Cons s ss)
  obtain q1 h1 where push: "push_string_queue env q s h = (0, q1, h1)"
    using push_string_queue_total [OF assms(1)] by blast
  have "sq_list q1 = last_n n (xs @ [Some s])"
  proof (cases "length xs < n")
    case False
    have "tl (drop (length xs - n) xs @ [Some s]) = drop (Suc (length xs) - n) (xs @ [Some s])"
    proof (cases n)
      case (Suc m)
      then have "drop (length xs - n) xs = xs ! (length xs - n) # drop (Suc (length xs - n)) xs"
        using False by (intro Cons_nth_drop_Suc [symmetric]) simp
      then show ?thesis
        using False Suc by (simp add: Suc_diff_le Suc_diff_Suc)
    qed simp
    with False push Cons.prems show ?thesis
      by (auto simp: push_string_queue_total [OF assms(1)] last_n_def)
  qed (use push Cons.prems in \<open>auto simp: push_string_queue_total [OF assms(1)] last_n_def\<close>)
  moreover have "sq_max_length q1 = int n"
    using push Cons.prems by (auto simp: push_string_queue_total [OF assms(1)])
  ultimately show ?case
    using Cons.IH [of q1 "xs @ [Some s]" h1] by (simp add: push)
qed simp

lemma concat_loop_some:
  "alloc_total env \<Longrightarrow>
   concat_loop env (map Some xs) (Some b) h = (Some (b @ concat xs), replicate (length xs) E_malloc @ h)"
  by (induction xs arbitrary: b h) (simp_all add: os_malloc_total replicate_app_Cons_same)

lemma concat_string_queue_total:
  assumes "alloc_total env" and "sq_list q = map Some xs"
  shows "concat_string_queue env q (- 1) h =
    (if xs = [] then None else Some (concat xs), replicate (length xs) E_malloc @ h)"
  using assms
  by (cases xs) (simp_all add: concat_string_queue_def os_malloc_total concat_loop_some replicate_app_Cons_same)

text \<open>
  C35: a queue with a bound holds the last strings that were pushed, in their order, and no more
  than the bound allows.
\<close>

theorem bounded_queue_keeps_latest:
  assumes "alloc_total env"
  shows "sq_list (fst (push_all env \<lparr>sq_max_length = int n, sq_list = []\<rparr> ss h)) = last_n n (map Some ss)"
  using push_all_total [OF assms, of "\<lparr>sq_max_length = int n, sq_list = []\<rparr>" n "[]" ss h] by (simp add: last_n_def)

theorem bounded_queue_keeps_latest_witness:
  "sq_list (fst (push_all ideal_env \<lparr>sq_max_length = 2, sq_list = []\<rparr> [''a'', ''b'', ''c''] [])) = [Some ''b'', Some ''c'']"
  using bounded_queue_keeps_latest [OF ideal_alloc, of 2 "[''a'', ''b'', ''c'']" "[]"] by (simp add: last_n_def)

section \<open>The table of short strings\<close>

type_synonym hmap_str_keychar = "(string \<times> string) list"

abbreviation HASH_KEY_CHAR_SIZE :: nat where "HASH_KEY_CHAR_SIZE \<equiv> 20"

definition hmap_str_keychar_get :: "hmap_str_keychar \<Rightarrow> string option \<Rightarrow> string option" where
  "hmap_str_keychar_get hmap keyptr = (case keyptr of None \<Rightarrow> None | Some k \<Rightarrow> map_of hmap k)"

definition hmap_str_keychar_put ::
  "env \<Rightarrow> hmap_str_keychar \<Rightarrow> string option \<Rightarrow> string option \<Rightarrow> hist \<Rightarrow> bool \<times> hmap_str_keychar \<times> hist" where
  "hmap_str_keychar_put env hmap keyptr value h =
     (case (keyptr, value) of
        (Some k, Some v) \<Rightarrow>
          if HASH_KEY_CHAR_SIZE - 1 < length k then (False, hmap, h)
          else
            let (ok, h) = os_malloc env h in
            if \<not> ok then (False, hmap, h)
            else let (ok, h) = os_malloc env h in
                 if \<not> ok then (False, hmap, h)
                 else (True, AList.delete k hmap @ [(k, v)], h)
      | _ \<Rightarrow> (False, hmap, h))"

definition hmap_store :: "env \<Rightarrow> string \<Rightarrow> string \<Rightarrow> hmap_str_keychar \<times> hist \<Rightarrow> hmap_str_keychar \<times> hist" where
  "hmap_store env k v s = snd (hmap_str_keychar_put env (fst s) (Some k) (Some v) (snd s))"

lemma hmap_store_table:
  "alloc_total env \<Longrightarrow> length k < HASH_KEY_CHAR_SIZE \<Longrightarrow> fst (hmap_store env k v s) = AList.delete k (fst s) @ [(k, v)]"
  by (auto simp: hmap_store_def hmap_str_keychar_put_def os_malloc_total)

lemma map_of_delete_append:
  "map_of (AList.delete k m @ [(k, v)]) k' = (if k' = k then Some v else map_of m k')"
  by (auto simp: map_add_def delete_conv' split: option.splits)

lemma not_in_delete: "(k, v) \<notin> set (AList.delete k m)"
  by (induction m) auto

interpretation keychar_table: keyed_store
  "\<lambda>s k. hmap_str_keychar_get (fst s) (Some k)" "hmap_store env" "\<lambda>s. map fst (fst s)"
  "\<lambda>s. distinct (map fst (fst s)) \<and> alloc_total env" "\<lambda>k v. length k < HASH_KEY_CHAR_SIZE" for env
  by unfold_locales
    (auto simp: hmap_str_keychar_get_def hmap_store_table map_of_delete_append map_of_eq_None_iff distinct_delete not_in_delete
      simp del: map_of_append)

end
