(* ===== verification/Mdns_Decoder.thy ===== *)
theory Mdns_Decoder
  imports String_Queue Sockctl
begin

text \<open>
  capture/middlewares/header_middleware/mdns_decoder.c: the names, queries and answers of an mDNS
  message.  The message is the list of its bytes; a read behind its end is recorded and gives 0.
  A name may end in a pointer to another name of the message, which is decoded by a recursive
  call; nothing stops a pointer that leads back to the name it ends, so the function is partial
  and its value is None where the C function does not return.
\<close>

unbundle bit_operations_syntax

abbreviation byte_at :: "bytes \<Rightarrow> nat \<Rightarrow> u8" where
  "byte_at p i \<equiv> (if i < length p then p ! i else 0)"

definition past_end :: "bytes \<Rightarrow> nat \<Rightarrow> hist \<Rightarrow> hist" where
  "past_end p n h = (if length p < n then E_ub Over_Read # h else h)"

section \<open>Names\<close>

text \<open>The dot goes behind the whole label; a NUL in the label ends the string before it.\<close>

definition copy_mdns_query_name :: "env \<Rightarrow> bytes \<Rightarrow> nat \<Rightarrow> hist \<Rightarrow> int \<times> string option \<times> hist" where
  "copy_mdns_query_name env p i h =
     (let n = unat (byte_at p i) in
      if n = 0 then (0, None, h)
      else
        let (ok, h) = os_malloc env h in
        if \<not> ok then (- 1, None, h)
        else
          let cs = take n (drop (i + 1) p);
              h = (if 0 \<in> set cs then h else past_end p (i + 1 + n) h)
          in (0, Some (c_str (string_of_bytes (cs @ replicate (n - length cs) 0) @ ''.'')), h))"

definition get_mdns_query_offset :: "u8 \<Rightarrow> u8 \<Rightarrow> u16" where
  "get_mdns_query_offset low high = push_bit 8 (ucast low) OR ucast high"

definition is_pointer :: "bytes \<Rightarrow> nat \<Rightarrow> bool" where
  "is_pointer p i \<longleftrightarrow> p ! i AND 0x80 \<noteq> 0 \<and> p ! i AND 0x40 \<noteq> 0"

definition pointer_target :: "bytes \<Rightarrow> nat \<Rightarrow> nat" where
  "pointer_target p i = unat (get_mdns_query_offset (p ! i AND 0x3f) (byte_at p (i + 1)))"

definition push_name :: "env \<Rightarrow> string_queue \<Rightarrow> string option \<Rightarrow> hist \<Rightarrow> int \<times> string_queue \<times> hist" where
  "push_name env queue qname h =
     (case qname of None \<Rightarrow> (0, queue, h) | Some s \<Rightarrow> push_string_queue env queue s h)"

text \<open>
  The loop over the labels from position \<open>i\<close> on.  The recursive call that follows a pointer is
  \<open>decode_mdns_query_name\<close> below: a new queue, the loop, and the strings joined.
\<close>

partial_function (option) decode_name_loop ::
  "env \<Rightarrow> bytes \<Rightarrow> nat \<Rightarrow> string_queue \<Rightarrow> hist \<Rightarrow> (int \<times> nat \<times> string_queue \<times> hist) option" where
  "decode_name_loop env p i queue h =
     (if length p \<le> i \<or> p ! i = 0 then Some (0, i, queue, h)
      else if is_pointer p i then
        let h = past_end p (i + 2) h in
        (case init_string_queue env (- 1) h of
           (None, h) \<Rightarrow> Some (- 1, i, queue, h)
         | (Some q, h) \<Rightarrow>
             Option.bind (decode_name_loop env p (pointer_target p i) q h) (\<lambda>(r, _, q, h).
               if r < 0 then Some (- 1, i, queue, h)
               else
                 let (qname, h) = concat_string_queue env q (- 1) h;
                     (r, queue, h) = push_name env queue qname h
                 in if r < 0 then Some (- 1, i, queue, h) else Some (0, i + 1, queue, h)))
      else
        (case copy_mdns_query_name env p i h of (r, qname, h) \<Rightarrow>
           if r < 0 then Some (- 1, i, queue, h)
           else
             (case push_name env queue qname h of (r, queue, h) \<Rightarrow>
                if r < 0 then Some (- 1, i, queue, h)
                else decode_name_loop env p (i + unat (p ! i) + 1) queue h)))"

definition decode_mdns_query_name ::
  "env \<Rightarrow> bytes \<Rightarrow> nat \<Rightarrow> hist \<Rightarrow> (int \<times> nat \<times> string option \<times> hist) option" where
  "decode_mdns_query_name env p first h =
     (case init_string_queue env (- 1) h of
        (None, h) \<Rightarrow> Some (- 1, first, None, h)
      | (Some q, h) \<Rightarrow>
          Option.bind (decode_name_loop env p first q h) (\<lambda>(r, i, q, h).
            if r < 0 then Some (- 1, first, None, h)
            else let (qname, h) = concat_string_queue env q (- 1) h in Some (0, i, qname, h)))"

section \<open>Queries and answers\<close>

abbreviation MAX_WEB_PATH_LEN :: nat where "MAX_WEB_PATH_LEN \<equiv> 2048"

definition ntohs_at :: "bytes \<Rightarrow> nat \<Rightarrow> u16" where
  "ntohs_at p i = push_bit 8 (ucast (byte_at p i)) OR ucast (byte_at p (i + 1))"

definition ntohl_at :: "bytes \<Rightarrow> nat \<Rightarrow> u32" where
  "ntohl_at p i = push_bit 24 (ucast (byte_at p i)) OR push_bit 16 (ucast (byte_at p (i + 1))) OR
     push_bit 8 (ucast (byte_at p (i + 2))) OR ucast (byte_at p (i + 3))"

record mdns_query_entry =
  qe_qtype :: u16
  qe_qname :: string

record mdns_answer_entry =
  ae_ttl :: u32
  ae_rrtype :: u16
  ae_rrname :: string
  ae_ip :: bytes

text \<open>\<open>strcpy\<close> of a name into an entry.\<close>

definition copy_name :: "string \<Rightarrow> hist \<Rightarrow> hist" where
  "copy_name s h = (if MAX_WEB_PATH_LEN \<le> length s then E_ub Stack_Overrun # h else h)"

fun decode_mdns_queries ::
  "env \<Rightarrow> bytes \<Rightarrow> nat \<Rightarrow> nat \<Rightarrow> mdns_query_entry list \<Rightarrow> hist \<Rightarrow> (int \<times> nat \<times> mdns_query_entry list \<times> hist) option" where
  "decode_mdns_queries env p i 0 queries h = Some (0, i, queries, h)"
| "decode_mdns_queries env p i (Suc n) queries h =
     Option.bind (decode_mdns_query_name env p i h) (\<lambda>(r, i, qname, h).
       if r < 0 then Some (- 1, i, queries, h)
       else
         let i = i + 1;
             (queries, h) =
               (case qname of
                  None \<Rightarrow> (queries, h)
                | Some s \<Rightarrow> (queries @ [\<lparr>qe_qtype = ntohs_at p i, qe_qname = s\<rparr>], copy_name s (past_end p (i + 2) h)))
         in decode_mdns_queries env p (i + 4) n queries h)"

fun decode_mdns_answers ::
  "env \<Rightarrow> bytes \<Rightarrow> nat \<Rightarrow> nat \<Rightarrow> mdns_answer_entry list \<Rightarrow> hist \<Rightarrow> (int \<times> nat \<times> mdns_answer_entry list \<times> hist) option" where
  "decode_mdns_answers env p i 0 answers h = Some (0, i, answers, h)"
| "decode_mdns_answers env p i (Suc n) answers h =
     Option.bind (decode_mdns_query_name env p i h) (\<lambda>(r, i, rrname, h).
       if r < 0 then Some (- 1, i, answers, h)
       else
         let m = i + 1;
             i = m + 10;
             h = past_end p (m + 10) h;
             rdlength = ntohs_at p (m + 8);
             a_record = (ntohs_at p m = 1 \<and> rdlength = 4);
             (answers, h) =
               (case rrname of
                  None \<Rightarrow> (answers, h)
                | Some s \<Rightarrow>
                    (answers @ [\<lparr>ae_ttl = ntohl_at p (m + 4), ae_rrtype = ntohs_at p m, ae_rrname = s,
                                 ae_ip = (if a_record then map (\<lambda>k. byte_at p (i + k)) [0, 1, 2, 3] else [0, 0, 0, 0])\<rparr>],
                     if a_record then past_end p (i + 4) (copy_name s h) else copy_name s h))
         in decode_mdns_answers env p (i + unat rdlength) n answers h)"

record mdns_header =
  mh_tid :: u16
  mh_flags :: u16
  mh_nqueries :: u16
  mh_nanswers :: u16
  mh_nauth :: u16
  mh_nother :: u16

definition decode_mdns_header :: "bytes \<Rightarrow> mdns_header" where
  "decode_mdns_header p =
     \<lparr>mh_tid = ntohs_at p 0, mh_flags = ntohs_at p 2, mh_nqueries = ntohs_at p 4, mh_nanswers = ntohs_at p 6,
      mh_nauth = ntohs_at p 8, mh_nother = ntohs_at p 10\<rparr>"

section \<open>When decoding returns\<close>

text \<open>From label to label: the positions of one name.\<close>

inductive walk :: "bytes \<Rightarrow> nat \<Rightarrow> nat \<Rightarrow> bool" for p where
  here: "walk p i i"
| label: "i < length p \<Longrightarrow> p ! i \<noteq> 0 \<Longrightarrow> \<not> is_pointer p i \<Longrightarrow> walk p (Suc (i + unat (p ! i))) j \<Longrightarrow> walk p i j"

definition pointer_in :: "bytes \<Rightarrow> nat \<Rightarrow> nat \<Rightarrow> bool" where
  "pointer_in p s i \<longleftrightarrow> walk p s i \<and> i < length p \<and> p ! i \<noteq> 0 \<and> is_pointer p i"

lemma walk_label:
  "walk p s i \<Longrightarrow> i < length p \<Longrightarrow> p ! i \<noteq> 0 \<Longrightarrow> \<not> is_pointer p i \<Longrightarrow> walk p s (Suc (i + unat (p ! i)))"
  by (induction rule: walk.induct) (auto intro: walk.intros)

inductive_cases walkE: "walk p i j"

lemma decode_name_loop_returns:
  assumes prior: "\<And>s i. s \<in> S \<Longrightarrow> pointer_in p s i \<Longrightarrow> pointer_target p i \<in> S \<and> pointer_target p i < s"
  shows "s \<in> S \<Longrightarrow> walk p s i \<Longrightarrow> decode_name_loop env p i q h \<noteq> None"
proof (induction s arbitrary: i q h rule: less_induct)
  case (less s)
  have "decode_name_loop env p i q h \<noteq> None" if "walk p s i" for i q h
    using that
  proof (induction "length p - i" arbitrary: i q h rule: less_induct)
    case inner: less
    show ?case
    proof (cases "length p \<le> i \<or> p ! i = 0")
      case True
      then show ?thesis
        by (subst decode_name_loop.simps) simp
    next
      case label: False
      show ?thesis
      proof (cases "is_pointer p i")
        case True
        then have "pointer_target p i \<in> S" "pointer_target p i < s"
          using prior [OF less.prems(1), of i] label inner.prems by (auto simp: pointer_in_def)
        then have "decode_name_loop env p (pointer_target p i) q h \<noteq> None" for q h
          using less.IH walk.here by blast
        then show ?thesis
          using label True
          by (subst decode_name_loop.simps) (auto simp: Let_def simp del: not_None_eq split: option.splits prod.splits bind_splits)
      next
        case False
        have "decode_name_loop env p (Suc (i + unat (p ! i))) q h \<noteq> None" for q h
          using label False inner.prems by (intro inner.hyps walk_label) auto
        with label False show ?thesis
          by (subst decode_name_loop.simps) (auto simp del: not_None_eq split: prod.splits)
      qed
    qed
  qed
  with less.prems(2) show ?case
    by blast
qed

text \<open>
  C36: decoding a name returns, whatever fails, when names are compressed as RFC 1035 has it:
  every pointer of a name leads to a name that starts before it.
\<close>

theorem mdns_name_returns:
  assumes "\<forall>s \<in> S. \<forall>i. pointer_in p s i \<longrightarrow> pointer_target p i \<in> S \<and> pointer_target p i < s" and "first \<in> S"
  shows "decode_mdns_query_name env p first h \<noteq> None"
proof -
  have "decode_name_loop env p first q h \<noteq> None" for q h
    using decode_name_loop_returns [of S p first first env q h] assms walk.here by blast
  then show ?thesis
    by (auto simp: decode_mdns_query_name_def simp del: not_None_eq split: option.splits prod.splits bind_splits)
qed

theorem mdns_name_returns_witness:
  "decode_mdns_query_name ideal_env [1, 97, 0, 1, 98, 0xC0, 0] 3 [] \<noteq> None"
proof (rule mdns_name_returns [of "{0, 3}"])
  let ?p = "[1, 97, 0, 1, 98, 0xC0, 0] :: bytes"
  have "walk ?p 5 i \<Longrightarrow> i = 5" "walk ?p 2 i \<Longrightarrow> i = 2" for i
    by (subst (asm) walk.simps, simp add: is_pointer_def)+
  then have w: "walk ?p 3 i \<Longrightarrow> i = 3 \<or> i = 5" "walk ?p 0 i \<Longrightarrow> i = 0 \<or> i = 2" for i
    by (subst (asm) walk.simps, auto simp: numeral_eq_Suc)+
  have "i = 5 \<and> s = 3" if "pointer_in ?p s i" "s \<in> {0, 3}" for s i
    using that w(1) [of i] w(2) [of i] by (auto simp: pointer_in_def is_pointer_def)
  moreover have "pointer_target ?p 5 = 0"
    by (simp add: pointer_target_def get_mdns_query_offset_def)
  ultimately show "\<forall>s \<in> {0, 3}. \<forall>i. pointer_in ?p s i \<longrightarrow> pointer_target ?p i \<in> {0, 3} \<and> pointer_target ?p i < s"
    by (metis insertI1 zero_less_numeral)
qed simp

section \<open>When it does not\<close>

lemma init_string_queue_total:
  "alloc_total env \<Longrightarrow> init_string_queue env n h = (Some \<lparr>sq_max_length = n, sq_list = []\<rparr>, E_malloc # h)"
  by (simp add: init_string_queue_def os_malloc_total)

lemma decode_name_loop_diverges:
  assumes "decode_name_loop env p i q h = Some y" and "alloc_total env"
  shows "\<not> (pointer_in p i j \<and> walk p (pointer_target p j) j)"
  using assms
proof (induction env p i q h y rule: decode_name_loop.raw_induct [rotated, consumes 1, case_names step])
  case (step f env p i q h y)
  show ?case
  proof
    assume j: "pointer_in p i j \<and> walk p (pointer_target p j) j"
    then have i: "\<not> (length p \<le> i \<or> p ! i = 0)"
      by (auto simp: pointer_in_def elim: walkE)
    show False
    proof (cases "is_pointer p i")
      case True
      then have "i = j"
        using j by (auto simp: pointer_in_def elim: walkE)
      then obtain y where "f env p (pointer_target p j) \<lparr>sq_max_length = - 1, sq_list = []\<rparr> (E_malloc # past_end p (i + 2) h) = Some y"
        using step.hyps i True by (auto simp: init_string_queue_total [OF step.prems] Let_def split: bind_splits)
      from step.IH [OF this step.prems] j show False
        by (auto simp: pointer_in_def)
    next
      case False
      then have "pointer_in p (Suc (i + unat (p ! i))) j"
        using j by (auto simp: pointer_in_def elim: walkE)
      moreover have "alloc_total env"
        by (rule step.prems)
      ultimately show False
        using step.hyps i False j step.IH [of env p "Suc (i + unat (p ! i))" _ _ y]
        by (auto simp: copy_mdns_query_name_def push_name_def push_string_queue_total os_malloc_total Let_def
            split: option.splits prod.splits if_splits)
    qed
  qed
qed

text \<open>
  C37: a name with a pointer that leads back to the start of the name, or to a label of it in
  front of the pointer, is decoded without end: with memory enough \<open>decode_mdns_query_name\<close> does
  not return.  One datagram of 14 bytes has such a name.
\<close>

theorem mdns_name_loop:
  assumes "alloc_total env" and "pointer_in p first j" and "walk p (pointer_target p j) j"
  shows "decode_mdns_query_name env p first h = None"
proof -
  have "decode_name_loop env p first q h = None" for q h
    using decode_name_loop_diverges [OF _ assms(1), of p first q h] assms(2,3) by (metis not_None_eq)
  then show ?thesis
    by (simp add: decode_mdns_query_name_def init_string_queue_total [OF assms(1)])
qed

theorem mdns_name_loop_witness:
  "decode_mdns_query_name ideal_env [0, 0, 0, 0, 0, 1, 0, 0, 0, 0, 0, 0, 0xC0, 12] 12 [] = None"
proof (rule mdns_name_loop [OF ideal_alloc, of _ 12 12])
  let ?p = "[0, 0, 0, 0, 0, 1, 0, 0, 0, 0, 0, 0, 0xC0, 12] :: bytes"
  show "pointer_in ?p 12 12"
    by (simp add: pointer_in_def is_pointer_def walk.here)
  have "pointer_target ?p 12 = 12"
    by (simp add: pointer_target_def get_mdns_query_offset_def)
  then show "walk ?p (pointer_target ?p 12) 12"
    by (simp only: walk.here)
qed

section \<open>Names without pointers\<close>

definition encode_name :: "bytes list \<Rightarrow> bytes" where
  "encode_name ls = concat (map (\<lambda>l. word_of_nat (length l) # l) ls) @ [0]"

definition dotted :: "bytes list \<Rightarrow> string" where
  "dotted ls = concat (map (\<lambda>l. string_of_bytes l @ ''.'') ls)"

definition valid_label :: "bytes \<Rightarrow> bool" where
  "valid_label l \<longleftrightarrow> l \<noteq> [] \<and> length l < 64 \<and> 0 \<notin> set l"

lemma not_pointer:
  assumes "unat (p ! i) < 64"
  shows "\<not> is_pointer p i"
proof -
  have "\<not> bit (p ! i) 7"
  proof
    assume "bit (p ! i) 7"
    then have "bit (unat (p ! i)) 7"
      by (simp add: bit_unsigned_iff)
    then show False
      using assms by (simp add: bit_iff_odd)
  qed
  then have "p ! i AND 2 ^ 7 = 0"
    by (simp only: and_exp_eq_0_iff_not_bit) simp
  then show ?thesis
    by (simp add: is_pointer_def)
qed

lemma decode_plain_loop:
  assumes env: "alloc_total env"
  shows "\<forall>l \<in> set ls. valid_label l \<Longrightarrow> sq_max_length q = - 1 \<Longrightarrow>
    \<exists>n. decode_name_loop env (pre @ encode_name ls @ post) (length pre) q h =
      Some (0, length pre + length (encode_name ls) - 1,
            q\<lparr>sq_list := sq_list q @ map (\<lambda>l. Some (string_of_bytes l @ ''.'')) ls\<rparr>, replicate n E_malloc @ h)"
proof (induction ls arbitrary: pre q h)
  case Nil
  show ?case
    by (rule exI [of _ 0]) (simp add: decode_name_loop.simps [of env "pre @ 0 # post"] encode_name_def nth_append)
next
  case (Cons l ls)
  let ?p = "pre @ encode_name (l # ls) @ post" and ?i = "length pre"
  have l: "l \<noteq> []" "length l < 64" "0 \<notin> set l"
    using Cons.prems(1) by (auto simp: valid_label_def)
  have p: "?p = (pre @ word_of_nat (length l) # l) @ encode_name ls @ post"
    by (simp add: encode_name_def)
  have at: "?p ! ?i = word_of_nat (length l)" "unat (?p ! ?i) = length l"
    using l(2) by (simp_all add: encode_name_def nth_append unat_of_nat)
  have nz: "\<not> (length ?p \<le> ?i \<or> ?p ! ?i = 0)"
    using at(2) l(1) by (auto simp: encode_name_def)
  have np: "\<not> is_pointer ?p ?i"
    using at(2) l(2) by (intro not_pointer) simp
  have "take (length l) (drop (?i + 1) ?p) = l"
    by (simp add: p)
  moreover have "CHR 0x00 \<notin> set (string_of_bytes l)"
    using l(3) by (auto simp: string_of_bytes_def char_byte_0 dest!: sym [of "CHR 0x00"])
  ultimately have copy: "copy_mdns_query_name env ?p ?i h = (0, Some (string_of_bytes l @ ''.''), E_malloc # h)"
    using at(2) l nz by (auto simp: copy_mdns_query_name_def os_malloc_total [OF env] c_str_def past_end_def Let_def p)
  let ?q = "q\<lparr>sq_list := sq_list q @ [Some (string_of_bytes l @ ''.'')]\<rparr>"
  have push: "push_name env q (Some (string_of_bytes l @ ''.'')) (E_malloc # h) = (0, ?q, E_malloc # E_malloc # E_malloc # h)"
    using Cons.prems(2) by (simp add: push_name_def push_string_queue_total [OF env])
  obtain n where "decode_name_loop env ?p (length (pre @ word_of_nat (length l) # l)) ?q (E_malloc # E_malloc # E_malloc # h) =
      Some (0, length (pre @ word_of_nat (length l) # l) + length (encode_name ls) - 1,
            ?q\<lparr>sq_list := sq_list ?q @ map (\<lambda>l. Some (string_of_bytes l @ ''.'')) ls\<rparr>,
            replicate n E_malloc @ E_malloc # E_malloc # E_malloc # h)"
    using Cons.IH [of ?q "pre @ word_of_nat (length l) # l" "E_malloc # E_malloc # E_malloc # h"] Cons.prems p by auto
  moreover have "decode_name_loop env ?p ?i q h =
      decode_name_loop env ?p (length (pre @ word_of_nat (length l) # l)) ?q (E_malloc # E_malloc # E_malloc # h)"
    by (subst decode_name_loop.simps) (simp only: nz np copy push at(2) if_False prod.case, simp)
  ultimately show ?case
    by (intro exI [of _ "n + 3"]) (simp add: replicate_add numeral_3_eq_3 replicate_app_Cons_same encode_name_def)
qed

text \<open>
  C38: a name written as a sequence of labels is decoded to the labels with a dot after each,
  the position is left on the byte that ends the name, and nothing outside the message is read.
\<close>

theorem mdns_plain_name_decoded:
  assumes "alloc_total env" and "\<forall>l \<in> set ls. valid_label l" and "ls \<noteq> []"
  shows "\<exists>n. decode_mdns_query_name env (pre @ encode_name ls @ post) (length pre) h =
    Some (0, length pre + length (encode_name ls) - 1, Some (dotted ls), replicate n E_malloc @ h)"
proof -
  let ?q = "\<lparr>sq_max_length = - 1, sq_list = []\<rparr>"
  obtain n where loop: "decode_name_loop env (pre @ encode_name ls @ post) (length pre) ?q (E_malloc # h) =
      Some (0, length pre + length (encode_name ls) - 1, ?q\<lparr>sq_list := map Some (map (\<lambda>l. string_of_bytes l @ ''.'') ls)\<rparr>,
            replicate n E_malloc @ E_malloc # h)"
    using decode_plain_loop [OF assms(1,2), of ?q pre post "E_malloc # h"] by (auto simp: comp_def)
  have "concat_string_queue env (?q\<lparr>sq_list := map Some (map (\<lambda>l. string_of_bytes l @ ''.'') ls)\<rparr>) (- 1)
      (replicate n E_malloc @ E_malloc # h) = (Some (dotted ls), replicate (length ls) E_malloc @ replicate n E_malloc @ E_malloc # h)"
    using assms(3) by (subst concat_string_queue_total [OF assms(1), of _ "map (\<lambda>l. string_of_bytes l @ ''.'') ls"])
      (simp_all add: dotted_def)
  then show ?thesis
    by (intro exI [of _ "length ls + n + 1"])
      (simp add: decode_mdns_query_name_def init_string_queue_total [OF assms(1)] loop replicate_add replicate_app_Cons_same)
qed

theorem mdns_plain_name_decoded_witness:
  "\<exists>n. decode_mdns_query_name ideal_env [7, 1, 97, 2, 98, 99, 0] 1 [] = Some (0, 6, Some ''a.bc.'', replicate n E_malloc)"
proof -
  have "dotted [[97], [98, 99]] = ''a.bc.''" "encode_name [[97], [98, 99]] = [1, 97, 2, 98, 99, 0]"
    by code_simp+
  moreover have "\<forall>l \<in> set [[97], [98, 99]]. valid_label l"
    by (simp add: valid_label_def)
  ultimately show ?thesis
    using mdns_plain_name_decoded [OF ideal_alloc, of "[[97], [98, 99]]" "[7]" "[]" "[]"] by (simp add: eval_nat_numeral)
qed

end
