(* ===== verification/Packet_Decoder.thy ===== *)
theory Packet_Decoder
  imports Mdns_Decoder
begin

text \<open>
  capture/middlewares/header_middleware/packet_decoder.c and dns_decoder.c: the headers of a
  captured frame.  The frame is the list of its captured bytes and a header is an offset into it;
  a read behind the captured bytes is recorded and gives 0.  A pointer of \<open>struct capture_packet\<close>
  and the schema that is filled with it are one field, None for NULL.  Words are those of a
  little-endian machine.  The text of an IPv6 address is made by the parameter \<open>ntop6\<close>.
\<close>

unbundle bit_operations_syntax

section \<open>Schemas (packet_decoder.h)\<close>

record pcap_pkthdr =
  ph_sec :: int
  ph_usec :: int
  ph_caplen :: u32
  ph_len :: u32

record eth_schema =
  eth_timestamp :: u64
  eth_id :: string
  eth_caplen :: u32
  eth_length :: u32
  eth_ifname :: string
  ether_dhost :: string
  ether_shost :: string
  ether_type :: u16

record arp_schema =
  arp_id :: string
  ar_hrd :: u16
  ar_pro :: u16
  ar_hln :: u8
  ar_pln :: u8
  ar_op :: u16
  arp_sha :: string
  arp_spa :: string
  arp_tha :: string
  arp_tpa :: string

record ip4_schema =
  ip4_id :: string
  ip_src :: string
  ip_dst :: string
  ip_hl :: u8
  ip_v :: u8
  ip_tos :: u8
  ip_len :: u16
  ip_id :: u16
  ip_off :: u16
  ip_ttl :: u8
  ip_p :: u8
  ip_sum :: u16

record ip6_schema =
  ip6_id :: string
  ip6_un1_flow :: u32
  ip6_un1_plen :: u16
  ip6_un1_nxt :: u8
  ip6_un1_hlim :: u8
  ip6_un2_vfc :: u8
  ip6_src :: string
  ip6_dst :: string

record tcp_schema =
  tcp_id :: string
  tcp_source :: u16
  tcp_dest :: u16
  tcp_seq :: u32
  tcp_ack_seq :: u32
  tcp_res1 :: u16
  tcp_doff :: u16
  tcp_flags :: "bool list" \<comment> \<open>fin, syn, rst, psh, ack, urg\<close>
  tcp_window :: u16
  tcp_check_p :: u16
  tcp_urg_ptr :: u16

record udp_schema =
  udp_id :: string
  udp_source :: u16
  udp_dest :: u16
  udp_len :: u16
  udp_check_p :: u16

text \<open>ICMP and ICMPv6 have the same fields.\<close>

record icmp_schema =
  icmp_id :: string
  icmp_type :: u8
  icmp_code :: u8
  icmp_checksum :: u16
  icmp_data :: u32

text \<open>DNS and mDNS have the same fields.\<close>

record dns_schema =
  dns_id :: string
  dns_header :: mdns_header
  dns_qname :: string

record dhcp_schema =
  dhcp_id :: string
  dhcp_op :: u8
  dhcp_htype :: u8
  dhcp_hlen :: u8
  dhcp_hops :: u8
  dhcp_xid :: u32
  dhcp_secs :: u16
  dhcp_flags :: u16
  dhcp_ciaddr :: string
  dhcp_yiaddr :: string
  dhcp_siaddr :: string
  dhcp_giaddr :: string

datatype (discs_sels) tuple_packet =
    PACKET_ETHERNET eth_schema | PACKET_ARP arp_schema | PACKET_IP4 ip4_schema | PACKET_IP6 ip6_schema
  | PACKET_TCP tcp_schema | PACKET_UDP udp_schema | PACKET_ICMP4 icmp_schema | PACKET_ICMP6 icmp_schema
  | PACKET_DNS dns_schema | PACKET_MDNS dns_schema | PACKET_DHCP dhcp_schema

record capture_packet =
  cp_timestamp :: u64
  cp_caplen :: u32
  cp_length :: u32
  cp_ifname :: string
  cp_id :: string
  cp_eth :: "eth_schema option"
  cp_arp :: "arp_schema option"
  cp_ip4 :: "ip4_schema option"
  cp_ip6 :: "ip6_schema option"
  cp_tcp :: "(nat \<times> tcp_schema) option"
  cp_udp :: "(nat \<times> udp_schema) option"
  cp_icmp4 :: "icmp_schema option"
  cp_icmp6 :: "icmp_schema option"
  cp_dns :: "dns_schema option"
  cp_mdns :: "dns_schema option"
  cp_dhcp :: "dhcp_schema option"

section \<open>Fields\<close>

definition mac_at :: "bytes \<Rightarrow> nat \<Rightarrow> string" where
  "mac_at p i = mac2str (map (\<lambda>k. byte_at p (i + k)) [0, 1, 2, 3, 4, 5])"

definition ip4_at :: "bytes \<Rightarrow> nat \<Rightarrow> string" where
  "ip4_at p i =
     show_nat (unat (byte_at p i)) @ ''.'' @ show_nat (unat (byte_at p (i + 1))) @ ''.'' @
     show_nat (unat (byte_at p (i + 2))) @ ''.'' @ show_nat (unat (byte_at p (i + 3)))"

section \<open>Link and network layer\<close>

definition decode_eth_packet ::
  "pcap_pkthdr \<Rightarrow> bytes \<Rightarrow> capture_packet \<Rightarrow> hist \<Rightarrow> bool \<times> capture_packet \<times> hist" where
  "decode_eth_packet hdr p cpac h =
     (if 14 \<le> ph_caplen hdr then
        (True, cpac\<lparr>cp_eth := Some \<lparr>eth_timestamp = cp_timestamp cpac, eth_id = cp_id cpac, eth_caplen = cp_caplen cpac,
           eth_length = cp_length cpac, eth_ifname = cp_ifname cpac, ether_dhost = mac_at p 0, ether_shost = mac_at p 6,
           ether_type = ntohs_at p 12\<rparr>\<rparr>, past_end p 14 h)
      else (False, cpac, h))"

definition decode_arp_packet :: "bytes \<Rightarrow> capture_packet \<Rightarrow> hist \<Rightarrow> bool \<times> capture_packet \<times> hist" where
  "decode_arp_packet p cpac h =
     (True, cpac\<lparr>cp_arp := Some \<lparr>arp_id = cp_id cpac, ar_hrd = ntohs_at p 14, ar_pro = ntohs_at p 16, ar_hln = byte_at p 18,
        ar_pln = byte_at p 19, ar_op = ntohs_at p 20, arp_sha = mac_at p 22, arp_spa = ip4_at p 28, arp_tha = mac_at p 32,
        arp_tpa = ip4_at p 38\<rparr>\<rparr>, past_end p 42 h)"

text \<open>The lengths are compared as 64-bit words; the length is that on the wire.\<close>

definition decode_ip4_packet :: "bytes \<Rightarrow> capture_packet \<Rightarrow> hist \<Rightarrow> bool \<times> capture_packet \<times> hist" where
  "decode_ip4_packet p cpac h =
     (if (ucast (cp_length cpac) - 14 :: u64) < 20 then (False, cpac, h)
      else
        let s = \<lparr>ip4_id = cp_id cpac, ip_src = ip4_at p 26, ip_dst = ip4_at p 30, ip_hl = byte_at p 14 AND 0x0f,
                 ip_v = drop_bit 4 (byte_at p 14), ip_tos = byte_at p 15, ip_len = ntohs_at p 16, ip_id = ntohs_at p 18,
                 ip_off = ntohs_at p 20, ip_ttl = byte_at p 22, ip_p = byte_at p 23, ip_sum = ntohs_at p 24\<rparr>
        in (ip_v s = 4, cpac\<lparr>cp_ip4 := Some s\<rparr>, past_end p 34 h))"

definition decode_ip6_packet ::
  "(bytes \<Rightarrow> string) \<Rightarrow> bytes \<Rightarrow> capture_packet \<Rightarrow> hist \<Rightarrow> bool \<times> capture_packet \<times> hist" where
  "decode_ip6_packet ntop6 p cpac h =
     (if (ucast (cp_length cpac) - 14 :: u64) < 40 then (False, cpac, h)
      else if byte_at p 14 AND 0xf0 \<noteq> 0x60 then (False, cpac, past_end p 15 h)
      else
        let s = \<lparr>ip6_id = cp_id cpac, ip6_un1_flow = ntohl_at p 14, ip6_un1_plen = ntohs_at p 18, ip6_un1_nxt = byte_at p 20,
                 ip6_un1_hlim = byte_at p 21, ip6_un2_vfc = byte_at p 14,
                 ip6_src = ntop6 (map (\<lambda>k. byte_at p (22 + k)) [0..<16]),
                 ip6_dst = ntop6 (map (\<lambda>k. byte_at p (38 + k)) [0..<16])\<rparr>
        in (True, cpac\<lparr>cp_ip6 := Some s\<rparr>, past_end p 54 h))"

section \<open>Transport layer\<close>

text \<open>The header behind an IP header without options, None when there is none or both.\<close>

definition transport :: "capture_packet \<Rightarrow> nat option" where
  "transport cpac =
     (if cp_ip4 cpac \<noteq> None \<and> cp_ip6 cpac = None then Some 34
      else if cp_ip4 cpac = None \<and> cp_ip6 cpac \<noteq> None then Some 54
      else None)"

definition decode_udp_packet :: "bytes \<Rightarrow> capture_packet \<Rightarrow> hist \<Rightarrow> bool \<times> capture_packet \<times> hist" where
  "decode_udp_packet p cpac h =
     (case transport cpac of
        None \<Rightarrow> (False, cpac, h)
      | Some t \<Rightarrow>
          (True, cpac\<lparr>cp_udp := Some (t, \<lparr>udp_id = cp_id cpac, udp_source = ntohs_at p t, udp_dest = ntohs_at p (t + 2),
             udp_len = ntohs_at p (t + 4), udp_check_p = ntohs_at p (t + 6)\<rparr>)\<rparr>, past_end p (t + 8) h))"

text \<open>\<open>ntohs\<close> is also applied to the two fields of four bits.\<close>

definition decode_tcp_packet :: "bytes \<Rightarrow> capture_packet \<Rightarrow> hist \<Rightarrow> bool \<times> capture_packet \<times> hist" where
  "decode_tcp_packet p cpac h =
     (case transport cpac of
        None \<Rightarrow> (False, cpac, h)
      | Some t \<Rightarrow>
          (True, cpac\<lparr>cp_tcp := Some (t, \<lparr>tcp_id = cp_id cpac, tcp_source = ntohs_at p t, tcp_dest = ntohs_at p (t + 2),
             tcp_seq = ntohl_at p (t + 4), tcp_ack_seq = ntohl_at p (t + 8),
             tcp_res1 = push_bit 8 (ucast (byte_at p (t + 12) AND 0x0f)),
             tcp_doff = push_bit 8 (ucast (drop_bit 4 (byte_at p (t + 12)))),
             tcp_flags = map (bit (byte_at p (t + 13))) [0, 1, 2, 3, 4, 5],
             tcp_window = ntohs_at p (t + 14), tcp_check_p = ntohs_at p (t + 16), tcp_urg_ptr = ntohs_at p (t + 18)\<rparr>)\<rparr>,
           past_end p (t + 20) h))"

definition icmp_at :: "bytes \<Rightarrow> string \<Rightarrow> nat \<Rightarrow> icmp_schema" where
  "icmp_at p i t = \<lparr>icmp_id = i, icmp_type = byte_at p t, icmp_code = byte_at p (t + 1), icmp_checksum = ntohs_at p (t + 2),
     icmp_data = ntohl_at p (t + 4)\<rparr>"

definition decode_icmp4_packet :: "bytes \<Rightarrow> capture_packet \<Rightarrow> hist \<Rightarrow> bool \<times> capture_packet \<times> hist" where
  "decode_icmp4_packet p cpac h = (True, cpac\<lparr>cp_icmp4 := Some (icmp_at p (cp_id cpac) 34)\<rparr>, past_end p 42 h)"

definition decode_icmp6_packet :: "bytes \<Rightarrow> capture_packet \<Rightarrow> hist \<Rightarrow> bool \<times> capture_packet \<times> hist" where
  "decode_icmp6_packet p cpac h = (True, cpac\<lparr>cp_icmp6 := Some (icmp_at p (cp_id cpac) 54)\<rparr>, past_end p 62 h)"

section \<open>Application layer\<close>

text \<open>
  The loop of \<open>decode_dns_questions\<close>: the indices into the payload and into the name are equal, the
  length of the text so far.
\<close>

function dns_questions :: "bytes \<Rightarrow> nat \<Rightarrow> nat \<Rightarrow> bytes \<Rightarrow> hist \<Rightarrow> bytes \<times> hist" where
  "dns_questions p base len qname h =
     (let j = length qname; i = base + j; n = unat (byte_at p i) in
      if len \<le> i then (qname, h)
      else if n = 0 \<or> 254 \<le> j + n then (qname, past_end p (i + 1) h)
      else dns_questions p base len (qname @ map (\<lambda>k. byte_at p (i + 1 + k)) [0..<n] @ [46]) (past_end p (i + 1 + n) h))"
  by pat_completeness auto
termination
  by (relation "measure (\<lambda>(p, base, len, qname, h). 254 - length qname)") (auto simp: Let_def)

declare dns_questions.simps [simp del]

definition decode_dns_questions :: "bytes \<Rightarrow> nat \<Rightarrow> nat \<Rightarrow> hist \<Rightarrow> string \<times> hist" where
  "decode_dns_questions p base len h =
     (let (qname, h) = dns_questions p base len [] h in (c_str (string_of_bytes (butlast qname)), h))"

definition decode_dns_packet :: "bytes \<Rightarrow> capture_packet \<Rightarrow> hist \<Rightarrow> bool \<times> capture_packet \<times> hist" where
  "decode_dns_packet p cpac h =
     (let found = (case (cp_tcp cpac, cp_udp cpac) of
                     (Some (t, _), None) \<Rightarrow> Some (t + 20, False)
                   | (None, Some (u, _)) \<Rightarrow> Some (u + 8, True)
                   | _ \<Rightarrow> None)
      in case found of
           None \<Rightarrow> (False, cpac, h)
         | Some (d, udp) \<Rightarrow>
             let hdr = decode_mdns_header (drop d p);
                 h = past_end p (d + 12) h;
                 (qname, h) =
                   (if d + 12 \<le> unat (cp_length cpac) \<and> udp \<and> mh_nqueries hdr \<noteq> 0
                    then decode_dns_questions p (d + 12) (unat (cp_length cpac)) h else ([], h))
             in (True, cpac\<lparr>cp_dns := Some \<lparr>dns_id = cp_id cpac, dns_header = hdr, dns_qname = qname\<rparr>\<rparr>, h))"

definition decode_mdns_packet :: "bytes \<Rightarrow> capture_packet \<Rightarrow> hist \<Rightarrow> bool \<times> capture_packet \<times> hist" where
  "decode_mdns_packet p cpac h =
     (case cp_udp cpac of
        None \<Rightarrow> (False, cpac, h)
      | Some (u, _) \<Rightarrow>
          (True, cpac\<lparr>cp_mdns := Some \<lparr>dns_id = cp_id cpac, dns_header = decode_mdns_header (drop (u + 8) p), dns_qname = []\<rparr>\<rparr>,
           past_end p (u + 20) h))"

text \<open>The function returns false in every case.\<close>

definition decode_dhcp_packet :: "bytes \<Rightarrow> capture_packet \<Rightarrow> hist \<Rightarrow> bool \<times> capture_packet \<times> hist" where
  "decode_dhcp_packet p cpac h =
     (case cp_udp cpac of
        None \<Rightarrow> (False, cpac, h)
      | Some (u, _) \<Rightarrow>
          let d = u + 8 in
          (False, cpac\<lparr>cp_dhcp := Some \<lparr>dhcp_id = cp_id cpac, dhcp_op = byte_at p d, dhcp_htype = byte_at p (d + 1),
             dhcp_hlen = byte_at p (d + 2), dhcp_hops = byte_at p (d + 3), dhcp_xid = ntohl_at p (d + 4),
             dhcp_secs = ntohs_at p (d + 8), dhcp_flags = ntohs_at p (d + 10), dhcp_ciaddr = ip4_at p (d + 12),
             dhcp_yiaddr = ip4_at p (d + 16), dhcp_siaddr = ip4_at p (d + 20), dhcp_giaddr = ip4_at p (d + 24)\<rparr>\<rparr>,
           past_end p (d + 28) h))"

section \<open>A frame\<close>

text \<open>One more layer: the count grows when its decoder succeeds.\<close>

definition layer ::
  "(capture_packet \<Rightarrow> hist \<Rightarrow> bool \<times> capture_packet \<times> hist) \<Rightarrow> int \<times> capture_packet \<times> hist \<Rightarrow> int \<times> capture_packet \<times> hist" where
  "layer decode s = (case s of (n, cpac, h) \<Rightarrow> let (ok, cpac, h) = decode cpac h in (if ok then n + 1 else n, cpac, h))"

definition decode_network :: "(bytes \<Rightarrow> string) \<Rightarrow> bytes \<Rightarrow> capture_packet \<Rightarrow> hist \<Rightarrow> int \<times> capture_packet \<times> hist" where
  "decode_network ntop6 p cpac h =
     (let type = ntohs_at p 12 in
      if type = 0x0800 then
        let (ok, cpac, h) = decode_ip4_packet p cpac h in
        if \<not> ok then (1, cpac, h)
        else if byte_at p 23 = 6 then layer (decode_tcp_packet p) (2, cpac, h)
        else if byte_at p 23 = 17 then layer (decode_udp_packet p) (2, cpac, h)
        else if byte_at p 23 = 1 then layer (decode_icmp4_packet p) (2, cpac, h)
        else (2, cpac, h)
      else if type = 0x86dd then
        let (ok, cpac, h) = decode_ip6_packet ntop6 p cpac h in
        if \<not> ok then (1, cpac, h)
        else if byte_at p 20 = 6 then layer (decode_tcp_packet p) (2, cpac, h)
        else if byte_at p 20 = 17 then layer (decode_udp_packet p) (2, cpac, h)
        else if byte_at p 20 = 58 then layer (decode_icmp6_packet p) (2, cpac, h)
        else (2, cpac, h)
      else if type = 0x0806 then layer (decode_arp_packet p) (1, cpac, h)
      else (1, cpac, h))"

definition decode_application :: "bytes \<Rightarrow> int \<times> capture_packet \<times> hist \<Rightarrow> int \<times> capture_packet \<times> hist" where
  "decode_application p s =
     (case s of (n, cpac, h) \<Rightarrow>
        (case cp_tcp cpac of
           Some (_, t) \<Rightarrow>
             if tcp_source t = 53 \<or> tcp_dest t = 53 then layer (decode_dns_packet p) s
             else if tcp_source t = 5353 \<or> tcp_dest t = 5353 then layer (decode_mdns_packet p) s
             else s
         | None \<Rightarrow>
             (case cp_udp cpac of
                Some (_, u) \<Rightarrow>
                  if udp_source u = 53 \<or> udp_dest u = 53 then layer (decode_dns_packet p) s
                  else if udp_source u = 5353 \<or> udp_dest u = 5353 then layer (decode_mdns_packet p) s
                  else if udp_source u = 68 \<and> udp_dest u = 67 \<or> udp_source u = 67 \<and> udp_dest u = 68
                  then layer (decode_dhcp_packet p) s
                  else s
              | None \<Rightarrow> s)))"

definition decode_packet ::
  "(bytes \<Rightarrow> string) \<Rightarrow> pcap_pkthdr \<Rightarrow> bytes \<Rightarrow> capture_packet \<Rightarrow> hist \<Rightarrow> int \<times> capture_packet \<times> hist" where
  "decode_packet ntop6 hdr p cpac h =
     (let (ok, cpac, h) = decode_eth_packet hdr p cpac h in
      if ok then decode_application p (decode_network ntop6 p cpac h) else (0, cpac, h))"

abbreviation one :: "('a \<Rightarrow> 'b) \<Rightarrow> 'a option \<Rightarrow> 'b list" where
  "one f x \<equiv> (case x of None \<Rightarrow> [] | Some s \<Rightarrow> [f s])"

definition packet_tuples :: "capture_packet \<Rightarrow> tuple_packet list" where
  "packet_tuples cpac =
     one PACKET_ETHERNET (cp_eth cpac) @ one PACKET_ARP (cp_arp cpac) @ one PACKET_IP4 (cp_ip4 cpac) @
     one PACKET_IP6 (cp_ip6 cpac) @ one PACKET_TCP (map_option snd (cp_tcp cpac)) @
     one PACKET_UDP (map_option snd (cp_udp cpac)) @ one PACKET_ICMP4 (cp_icmp4 cpac) @ one PACKET_ICMP6 (cp_icmp6 cpac) @
     one PACKET_DNS (cp_dns cpac) @ one PACKET_MDNS (cp_mdns cpac) @ one PACKET_DHCP (cp_dhcp cpac)"

text \<open>The tuples are copied to the heap one by one.\<close>

fun push_tuples :: "env \<Rightarrow> tuple_packet list \<Rightarrow> tuple_packet list \<Rightarrow> hist \<Rightarrow> int \<times> tuple_packet list \<times> hist" where
  "push_tuples env [] arr h = (int (length arr), arr, h)"
| "push_tuples env (t # ts) arr h =
     (let (ok, h) = os_malloc env h in if ok then push_tuples env ts (arr @ [t]) h else (- 1, arr, h))"

definition new_packet :: "env \<Rightarrow> pcap_pkthdr \<Rightarrow> string \<Rightarrow> hist \<Rightarrow> capture_packet" where
  "new_packet env hdr ifname h =
     \<lparr>cp_timestamp = os_to_timestamp (ph_sec hdr) (ph_usec hdr), cp_caplen = ph_caplen hdr, cp_length = ph_len hdr,
      cp_ifname = strlcpy ifname IF_NAMESIZE, cp_id = env_uuid env h, cp_eth = None, cp_arp = None, cp_ip4 = None,
      cp_ip6 = None, cp_tcp = None, cp_udp = None, cp_icmp4 = None, cp_icmp6 = None, cp_dns = None, cp_mdns = None,
      cp_dhcp = None\<rparr>"

definition extract_packets ::
  "env \<Rightarrow> (bytes \<Rightarrow> string) \<Rightarrow> pcap_pkthdr \<Rightarrow> bytes \<Rightarrow> string \<Rightarrow> hist \<Rightarrow> int \<times> tuple_packet list \<times> hist" where
  "extract_packets env ntop6 hdr p ifname h =
     (let h = E_uuid # h;
          (n, cpac, h) = decode_packet ntop6 hdr p (new_packet env hdr ifname h) h
      in if 0 < n then push_tuples env (packet_tuples cpac) [] h else (0, [], h))"

section \<open>The layers of a frame\<close>

text \<open>The layer that may follow a layer.\<close>

definition carries :: "tuple_packet \<Rightarrow> tuple_packet \<Rightarrow> bool" where
  "carries a b \<longleftrightarrow>
     (case a of
        PACKET_ETHERNET _ \<Rightarrow> is_PACKET_ARP b \<or> is_PACKET_IP4 b \<or> is_PACKET_IP6 b
      | PACKET_IP4 _ \<Rightarrow> is_PACKET_TCP b \<or> is_PACKET_UDP b \<or> is_PACKET_ICMP4 b
      | PACKET_IP6 _ \<Rightarrow> is_PACKET_TCP b \<or> is_PACKET_UDP b \<or> is_PACKET_ICMP6 b
      | PACKET_TCP t \<Rightarrow> is_PACKET_DNS b \<and> (tcp_source t = 53 \<or> tcp_dest t = 53)
      | PACKET_UDP u \<Rightarrow> is_PACKET_DNS b \<and> (udp_source u = 53 \<or> udp_dest u = 53) \<or>
          is_PACKET_MDNS b \<and> (udp_source u = 5353 \<or> udp_dest u = 5353) \<or>
          is_PACKET_DHCP b \<and> (udp_source u = 68 \<and> udp_dest u = 67 \<or> udp_source u = 67 \<and> udp_dest u = 68)
      | _ \<Rightarrow> False)"

definition protocol_stack :: "tuple_packet list \<Rightarrow> bool" where
  "protocol_stack ts \<longleftrightarrow> (\<exists>e ts'. ts = PACKET_ETHERNET e # ts') \<and> successively carries ts"

lemma push_tuples_total:
  assumes "alloc_total env"
  shows "\<exists>h'. push_tuples env ts arr h = (int (length (arr @ ts)), arr @ ts, h')"
proof (induction ts arbitrary: arr h)
  case (Cons t ts)
  from Cons.IH [of "arr @ [t]" "E_malloc # h"] show ?case
    by (simp add: os_malloc_total [OF assms] add_ac)
qed simp

lemma push_tuples_prefix:
  "push_tuples env ts arr h = (r, arr', h') \<Longrightarrow>
   \<exists>us. prefix us ts \<and> arr' = arr @ us \<and> (r \<noteq> - 1 \<longrightarrow> us = ts \<and> r = int (length arr'))"
proof (induction ts arbitrary: arr h)
  case (Cons t ts)
  show ?case
  proof (cases "env_malloc env (E_malloc # h)")
    case True
    then have "push_tuples env ts (arr @ [t]) (E_malloc # h) = (r, arr', h')"
      using Cons.prems by (simp add: os_malloc_def)
    from Cons.IH [OF this]
    obtain us where "prefix us ts \<and> arr' = (arr @ [t]) @ us \<and> (r \<noteq> - 1 \<longrightarrow> us = ts \<and> r = int (length arr'))" ..
    then show ?thesis
      by (intro exI [of _ "t # us"]) auto
  next
    case False
    then have "r = - 1" "arr' = arr"
      using Cons.prems by (simp_all add: os_malloc_def)
    then show ?thesis
      by (intro exI [of _ "[]"]) simp
  qed
qed auto

definition fresh_packet :: "capture_packet \<Rightarrow> bool" where
  "fresh_packet c \<longleftrightarrow> cp_arp c = None \<and> cp_ip4 c = None \<and> cp_ip6 c = None \<and> cp_tcp c = None \<and> cp_udp c = None \<and>
     cp_icmp4 c = None \<and> cp_icmp6 c = None \<and> cp_dns c = None \<and> cp_mdns c = None \<and> cp_dhcp c = None"

text \<open>Which fields the decoders fill.\<close>

lemma decode_ip4_shape: "decode_ip4_packet p c h = (ok, c', h') \<Longrightarrow> (\<not> ok \<and> c' = c) \<or> (\<exists>s. c' = c\<lparr>cp_ip4 := Some s\<rparr>)"
  unfolding decode_ip4_packet_def Let_def by (simp only: split: if_splits) blast+

lemma decode_ip6_shape: "decode_ip6_packet f p c h = (ok, c', h') \<Longrightarrow> (\<not> ok \<and> c' = c) \<or> (\<exists>s. c' = c\<lparr>cp_ip6 := Some s\<rparr>)"
  unfolding decode_ip6_packet_def Let_def by (simp only: split: if_splits) blast+

lemma layer_tcp_shape:
  "layer (decode_tcp_packet p) (k, c, h) = (n, c', h') \<Longrightarrow> c' = c \<or> (\<exists>t. c' = c\<lparr>cp_tcp := Some t\<rparr>)"
  unfolding layer_def decode_tcp_packet_def
  by (cases "transport c"; simp only: option.case prod.case Let_def if_True if_False prod.inject; blast)

lemma layer_udp_shape:
  "layer (decode_udp_packet p) (k, c, h) = (n, c', h') \<Longrightarrow> c' = c \<or> (\<exists>t. c' = c\<lparr>cp_udp := Some t\<rparr>)"
  unfolding layer_def decode_udp_packet_def
  by (cases "transport c"; simp only: option.case prod.case Let_def if_True if_False prod.inject; blast)

lemma layer_icmp4_shape:
  "layer (decode_icmp4_packet p) (k, c, h) = (n, c', h') \<Longrightarrow> \<exists>t. c' = c\<lparr>cp_icmp4 := Some t\<rparr>"
  unfolding layer_def decode_icmp4_packet_def
  by (simp only: prod.case Let_def if_True prod.inject; blast)

lemma layer_icmp6_shape:
  "layer (decode_icmp6_packet p) (k, c, h) = (n, c', h') \<Longrightarrow> \<exists>t. c' = c\<lparr>cp_icmp6 := Some t\<rparr>"
  unfolding layer_def decode_icmp6_packet_def
  by (simp only: prod.case Let_def if_True prod.inject; blast)

lemma layer_arp_shape:
  "layer (decode_arp_packet p) (k, c, h) = (n, c', h') \<Longrightarrow> \<exists>t. c' = c\<lparr>cp_arp := Some t\<rparr>"
  unfolding layer_def decode_arp_packet_def
  by (simp only: prod.case Let_def if_True prod.inject; blast)

lemmas layer_shape = layer_tcp_shape layer_udp_shape layer_icmp4_shape layer_icmp6_shape layer_arp_shape

lemma decode_network_shape:
  assumes "decode_network f p c h = (n, c', h')"
  shows "c' = c \<or> (\<exists>a. c' = c\<lparr>cp_arp := Some a\<rparr>) \<or>
    (\<exists>i. c' = c\<lparr>cp_ip4 := Some i\<rparr> \<or> (\<exists>t. c' = c\<lparr>cp_ip4 := Some i, cp_tcp := Some t\<rparr>) \<or>
       (\<exists>t. c' = c\<lparr>cp_ip4 := Some i, cp_udp := Some t\<rparr>) \<or> (\<exists>t. c' = c\<lparr>cp_ip4 := Some i, cp_icmp4 := Some t\<rparr>)) \<or>
    (\<exists>i. c' = c\<lparr>cp_ip6 := Some i\<rparr> \<or> (\<exists>t. c' = c\<lparr>cp_ip6 := Some i, cp_tcp := Some t\<rparr>) \<or>
       (\<exists>t. c' = c\<lparr>cp_ip6 := Some i, cp_udp := Some t\<rparr>) \<or> (\<exists>t. c' = c\<lparr>cp_ip6 := Some i, cp_icmp6 := Some t\<rparr>))"
proof -
  obtain ok4 c4 h4 where ip4: "decode_ip4_packet p c h = (ok4, c4, h4)"
    by (metis prod_cases3)
  obtain ok6 c6 h6 where ip6: "decode_ip6_packet f p c h = (ok6, c6, h6)"
    by (metis prod_cases3)
  show ?thesis
    using assms decode_ip4_shape [OF ip4] decode_ip6_shape [OF ip6]
    unfolding decode_network_def ip4 ip6 Let_def prod.case
    by (simp only: split: if_splits) (blast dest: layer_shape)+
qed

lemma layer_dns_shape:
  "layer (decode_dns_packet p) (k, c, h) = (n, c', h') \<Longrightarrow> c' = c \<or> (\<exists>d. c' = c\<lparr>cp_dns := Some d\<rparr>)"
  unfolding layer_def decode_dns_packet_def Let_def
  by (simp only: prod.case prod.inject if_True if_False split: option.splits prod.splits; blast)

lemma layer_mdns_shape:
  "layer (decode_mdns_packet p) (k, c, h) = (n, c', h') \<Longrightarrow> c' = c \<or> cp_udp c \<noteq> None \<and> (\<exists>d. c' = c\<lparr>cp_mdns := Some d\<rparr>)"
  unfolding layer_def decode_mdns_packet_def Let_def
  by (simp only: prod.case prod.inject if_True if_False split: option.splits prod.splits; blast)

lemma layer_dhcp_shape:
  "layer (decode_dhcp_packet p) (k, c, h) = (n, c', h') \<Longrightarrow> c' = c \<or> (\<exists>d. c' = c\<lparr>cp_dhcp := Some d\<rparr>)"
  unfolding layer_def decode_dhcp_packet_def Let_def
  by (simp only: prod.case prod.inject if_True if_False split: option.splits prod.splits; blast)

lemma decode_application_shape:
  assumes "decode_application p (k, c, h) = (n, c', h')"
  shows "cp_tcp c = Some (i, t) \<Longrightarrow> cp_udp c = None \<Longrightarrow>
      c' = c \<or> (tcp_source t = 53 \<or> tcp_dest t = 53) \<and> (\<exists>d. c' = c\<lparr>cp_dns := Some d\<rparr>)"
    and "cp_tcp c = None \<Longrightarrow> cp_udp c = Some (j, u) \<Longrightarrow>
      c' = c \<or> (udp_source u = 53 \<or> udp_dest u = 53) \<and> (\<exists>d. c' = c\<lparr>cp_dns := Some d\<rparr>) \<or>
      (udp_source u = 5353 \<or> udp_dest u = 5353) \<and> (\<exists>d. c' = c\<lparr>cp_mdns := Some d\<rparr>) \<or>
      (udp_source u = 68 \<and> udp_dest u = 67 \<or> udp_source u = 67 \<and> udp_dest u = 68) \<and> (\<exists>d. c' = c\<lparr>cp_dhcp := Some d\<rparr>)"
    and "cp_tcp c = None \<Longrightarrow> cp_udp c = None \<Longrightarrow> c' = c"
proof goal_cases
  case 1
  then show ?case
    using assms unfolding decode_application_def
    by (simp only: prod.case option.case prod.inject split: if_splits) (blast dest: layer_dns_shape layer_mdns_shape)+
next
  case 2
  then show ?case
    using assms unfolding decode_application_def
    by (simp only: prod.case option.case prod.inject split: if_splits)
      (blast dest: layer_dns_shape layer_mdns_shape layer_dhcp_shape)+
next
  case 3
  then show ?case
    using assms by (simp add: decode_application_def)
qed

lemma application_stack:
  assumes "decode_application p (k, c, h) = (n, c', h')" and "protocol_stack (packet_tuples c)" and "length (packet_tuples c) \<le> 3"
    and "cp_dns c = None" "cp_mdns c = None" "cp_dhcp c = None" "cp_arp c = None" "cp_icmp4 c = None" "cp_icmp6 c = None"
    and "cp_tcp c = None \<or> cp_udp c = None" "cp_tcp c \<noteq> None \<or> cp_udp c \<noteq> None"
  shows "protocol_stack (packet_tuples c') \<and> length (packet_tuples c') \<le> 4"
proof (cases "cp_tcp c")
  case None
  then obtain j u where udp: "cp_udp c = Some (j, u)"
    using assms(11) by (metis option.exhaust surj_pair)
  from decode_application_shape(2) [OF assms(1) None udp] show ?thesis
    using assms(2-9) None udp
    by (elim disjE conjE exE)
      (simp_all add: packet_tuples_def protocol_stack_def carries_def successively_append_iff split: option.splits)
next
  case (Some a)
  then obtain i t where tcp: "cp_tcp c = Some (i, t)" "cp_udp c = None"
    using assms(10) by (metis option.distinct(1) surj_pair)
  from decode_application_shape(1) [OF assms(1) tcp] show ?thesis
    using assms(2-9) tcp
    by (elim disjE conjE exE)
      (simp_all add: packet_tuples_def protocol_stack_def carries_def successively_append_iff split: option.splits)
qed

lemma decode_packet_stack:
  assumes "decode_network f p c h = (k, c1, h1)" "decode_application p (k, c1, h1) = (n, c', h')"
    and "fresh_packet c" "cp_eth c = Some e"
  shows "protocol_stack (packet_tuples c') \<and> length (packet_tuples c') \<le> 4"
proof -
  have fresh: "cp_arp c = None" "cp_ip4 c = None" "cp_ip6 c = None" "cp_tcp c = None" "cp_udp c = None"
    "cp_icmp4 c = None" "cp_icmp6 c = None" "cp_dns c = None" "cp_mdns c = None" "cp_dhcp c = None"
    using assms(3) by (simp_all add: fresh_packet_def)
  note [simp] = assms(4) fresh
  have "protocol_stack (packet_tuples c1) \<and> length (packet_tuples c1) \<le> 3"
    using decode_network_shape [OF assms(1)]
    by (elim disjE exE; simp add: packet_tuples_def protocol_stack_def carries_def)
  then have stacks: "protocol_stack (packet_tuples c1)" "length (packet_tuples c1) \<le> 3"
    by blast+
  show ?thesis
  proof (cases "cp_tcp c1 = None \<and> cp_udp c1 = None")
    case True
    then show ?thesis
      using decode_application_shape(3) [OF assms(2)] stacks by simp
  next
    case False
    have "cp_dns c1 = None \<and> cp_mdns c1 = None \<and> cp_dhcp c1 = None \<and> (cp_tcp c1 = None \<and> cp_udp c1 = None \<or>
        cp_arp c1 = None \<and> cp_icmp4 c1 = None \<and> cp_icmp6 c1 = None \<and> (cp_tcp c1 = None \<or> cp_udp c1 = None))"
      using decode_network_shape [OF assms(1)] by (elim disjE exE; simp)
    then show ?thesis
      using False by (intro application_stack [OF assms(2) stacks]) satx+
  qed
qed

text \<open>
  C12: the records extracted from a frame form a protocol stack: Ethernet first, then ARP or IP,
  then the transport of that IP version, then the application its ports name; there are at most four.
  When an allocation fails the caller gets a prefix of the stack and -1, otherwise the whole stack and
  its length.
\<close>

theorem extracted_packets_stack:
  assumes "extract_packets env ntop6 hdr p ifname h = (r, ts, h')" and "r \<noteq> 0"
  shows "\<exists>stack. protocol_stack stack \<and> length stack \<le> 4 \<and> prefix ts stack \<and>
           (r \<noteq> - 1 \<longrightarrow> ts = stack \<and> r = int (length stack))"
proof -
  let ?c = "new_packet env hdr ifname (E_uuid # h)"
  obtain n c' h1 where dec: "decode_packet ntop6 hdr p ?c (E_uuid # h) = (n, c', h1)"
    by (metis prod_cases3)
  have n: "0 < n" and push: "push_tuples env (packet_tuples c') [] h1 = (r, ts, h')"
    using assms dec by (simp_all add: extract_packets_def Let_def split: if_splits)
  obtain ok ce he where eth: "decode_eth_packet hdr p ?c (E_uuid # h) = (ok, ce, he)"
    by (metis prod_cases3)
  have ok: ok
    using dec n eth by (auto simp: decode_packet_def split: if_splits)
  with eth have ce: "fresh_packet ce" "\<exists>e. cp_eth ce = Some e"
    by (auto simp: decode_eth_packet_def new_packet_def fresh_packet_def split: if_splits)
  obtain k c1 h2 where net: "decode_network ntop6 p ce he = (k, c1, h2)"
    by (metis prod_cases3)
  have "decode_application p (k, c1, h2) = (n, c', h1)"
    using dec ok by (simp add: decode_packet_def eth net)
  then have "protocol_stack (packet_tuples c') \<and> length (packet_tuples c') \<le> 4"
    using decode_packet_stack [OF net _ ce(1)] ce(2) by blast
  with push_tuples_prefix [OF push] show ?thesis
    by (intro exI [of _ "packet_tuples c'"]) auto
qed

definition arp_frame :: bytes where
  "arp_frame = replicate 12 255 @ [8, 6, 0, 1, 8, 0, 6, 4, 0, 1] @ replicate 20 7"

theorem extracted_packets_stack_witness:
  "\<exists>r ts h'. extract_packets ideal_env (\<lambda>_. []) \<lparr>ph_sec = 1, ph_usec = 0, ph_caplen = 42, ph_len = 42\<rparr> arp_frame ''br0'' [] =
       (r, ts, h') \<and> r = 2 \<and>
     (\<exists>stack. protocol_stack stack \<and> length stack \<le> 4 \<and> prefix ts stack \<and>
       (r \<noteq> - 1 \<longrightarrow> ts = stack \<and> r = int (length stack)))"
proof -
  obtain r ts h' where x: "extract_packets ideal_env (\<lambda>_. []) \<lparr>ph_sec = 1, ph_usec = 0, ph_caplen = 42, ph_len = 42\<rparr> arp_frame
      ''br0'' [] = (r, ts, h')"
    by (metis prod_cases3)
  have "fst (extract_packets ideal_env (\<lambda>_. []) \<lparr>ph_sec = 1, ph_usec = 0, ph_caplen = 42, ph_len = 42\<rparr> arp_frame ''br0'' []) = 2"
    by code_simp
  with x have "r = 2"
    by simp
  with x extracted_packets_stack [OF x] show ?thesis
    by (intro exI [of _ r] exI [of _ ts] exI [of _ h']) simp
qed

section \<open>ARP frames\<close>

lemma push_tuples_ub:
  "push_tuples env ts arr h = (r, arr', h') \<Longrightarrow> E_ub u \<in> set h' \<longleftrightarrow> E_ub u \<in> set h"
  by (induction ts arbitrary: arr h) (auto simp: os_malloc_def Let_def split: if_splits)



section \<open>DNS names\<close>

lemma dns_questions_length:
  "length qname \<le> 254 \<Longrightarrow> length (fst (dns_questions p base len qname h)) \<le> 254"
  by (induction p base len qname h rule: dns_questions.induct)
    (subst dns_questions.simps, simp add: Let_def)

text \<open>
  C40: whatever a frame holds, the text copied to the name of a DNS record fits, with its NUL, into the 255 bytes
  of the field.
\<close>

theorem dns_qname_fits:
  "length (fst (dns_questions p base len [] h)) < 255 \<and> length (fst (decode_dns_questions p base len h)) < 254"
proof -
  have *: "length (fst (dns_questions p base len [] h)) \<le> 254"
    by (rule dns_questions_length) simp
  have "length (c_str s) \<le> length s" for s
    by (simp add: c_str_def length_takeWhile_le)
  from le_less_trans [OF this] * show ?thesis
    by (auto simp: decode_dns_questions_def split: prod.splits)
qed

end
