(* ===== verification/Mdns_Service.thy ===== *)
theory Mdns_Service
  imports Packet_Decoder Mac_Mapper Iptables
begin

text \<open>
  The mDNS reflector: dns/reflection_list.c, dns/command_mapper.c, dns/mdns_list.c, dns/mdns_mapper.c
  and dns/mdns_service.c.  It forwards multicast DNS between the interfaces of the VLANs, remembers
  which addresses were announced in answers, and asks the supervisor for a bridge when it sees a
  packet from or to an announced address.

  What the kernel tells the service besides the results of the calls is the parameter \<open>mdns_os\<close>: the
  family and address of the sender of a datagram, \<open>errno\<close>, the index of an interface, and
  \<open>inet_ntop\<close> for IPv6.
\<close>

section \<open>Interfaces\<close>

record reflection_el =
  rl_recv_fd :: int
  rl_send_fd :: int
  rl_ifindex :: u32
  rl_ifname :: string

text \<open>A list without its head, which carries no interface.\<close>

type_synonym reflection_list = "reflection_el list"

definition setup_reflection_if_el :: "u32 \<Rightarrow> string option \<Rightarrow> reflection_el" where
  "setup_reflection_if_el ifindex ifname =
     \<lparr>rl_recv_fd = - 1, rl_send_fd = - 1, rl_ifindex = ifindex,
      rl_ifname = (case ifname of None \<Rightarrow> [] | Some s \<Rightarrow> strlcpy s IF_NAMESIZE)\<rparr>"

definition init_reflection_list :: "env \<Rightarrow> hist \<Rightarrow> reflection_list option \<times> hist" where
  "init_reflection_list env h = (let (ok, h) = os_malloc env h in (if ok then Some [] else None, h))"

definition push_reflection_list ::
  "env \<Rightarrow> reflection_list option \<Rightarrow> u32 \<Rightarrow> string \<Rightarrow> hist \<Rightarrow> bool \<times> reflection_list option \<times> hist" where
  "push_reflection_list env rif ifindex ifname h =
     (case rif of
        None \<Rightarrow> (False, None, h)
      | Some els \<Rightarrow>
          (case init_reflection_list env h of
             (None, h) \<Rightarrow> (False, rif, h)
           | (Some _, h) \<Rightarrow> (True, Some (els @ [setup_reflection_if_el ifindex (Some ifname)]), h)))"

definition pop_reflection_list :: "reflection_list option \<Rightarrow> reflection_el option" where
  "pop_reflection_list rif = (case rif of Some (el # _) \<Rightarrow> Some el | _ \<Rightarrow> None)"

section \<open>Commands that were sent\<close>

text \<open>The keys of the table; every value is true.\<close>

type_synonym hmap_command_conn = "u32 list"

definition put_command_mapper :: "env \<Rightarrow> hmap_command_conn \<Rightarrow> string \<Rightarrow> hist \<Rightarrow> int \<times> hmap_command_conn \<times> hist" where
  "put_command_mapper env hmap command h =
     (let hash_key = md_hash (bytes_of_string command) in
      if hash_key \<in> set hmap then (0, hmap, h)
      else let (ok, h) = os_malloc env h in if ok then (0, hmap @ [hash_key], h) else (- 1, hmap, h))"

definition check_command_mapper :: "hmap_command_conn \<Rightarrow> string \<Rightarrow> int" where
  "check_command_mapper hmap command = (if md_hash (bytes_of_string command) \<in> set hmap then 1 else 0)"

section \<open>What an address asked and answered\<close>

datatype MDNS_REQUEST_TYPE = MDNS_REQUEST_NONE | MDNS_REQUEST_QUERY | MDNS_REQUEST_ANSWER

record mdns_list_info =
  li_request :: MDNS_REQUEST_TYPE
  li_ttl :: u32
  li_rrtype :: u16
  li_qtype :: u16
  li_name :: string

type_synonym mdns_list = "mdns_list_info list"

definition init_mdns_list :: "env \<Rightarrow> hist \<Rightarrow> mdns_list option \<times> hist" where
  "init_mdns_list env h = (let (ok, h) = os_malloc env h in (if ok then Some [] else None, h))"

definition push_mdns_list :: "env \<Rightarrow> mdns_list \<Rightarrow> mdns_list_info \<Rightarrow> hist \<Rightarrow> int \<times> mdns_list \<times> hist" where
  "push_mdns_list env mlist info h =
     (if \<exists>el \<in> set mlist. li_request el = li_request info \<and> li_name el = li_name info then (0, mlist, h)
      else
        (case init_mdns_list env h of
           (None, h) \<Rightarrow> (- 1, mlist, h)
         | (Some _, h) \<Rightarrow>
             let (ok, h) = os_malloc env h
             in if ok then (0, mlist @ [info], h) else (- 1, mlist, h)))"

definition check_mdns_list_req :: "mdns_list \<Rightarrow> MDNS_REQUEST_TYPE \<Rightarrow> int" where
  "check_mdns_list_req mlist request = (if \<exists>el \<in> set mlist. li_request el = request then 1 else 0)"

type_synonym hmap_mdns_conn = "(bytes \<times> mdns_list) list"

definition put_mdns_info :: "env \<Rightarrow> hmap_mdns_conn \<Rightarrow> bytes \<Rightarrow> mdns_list_info \<Rightarrow> hist \<Rightarrow> int \<times> hmap_mdns_conn \<times> hist" where
  "put_mdns_info env imap ip info h =
     (case map_of imap ip of
        Some mlist \<Rightarrow>
          let (r, mlist, h) = push_mdns_list env mlist info h
          in if r < 0 then (- 1, imap, h) else (0, AList.update ip mlist imap, h)
      | None \<Rightarrow>
          let (ok, h) = os_malloc env h in
          if \<not> ok then (- 1, imap, h)
          else
            (case init_mdns_list env h of
               (None, h) \<Rightarrow> (- 1, imap, h)
             | (Some mlist, h) \<Rightarrow>
                 let (r, mlist, h) = push_mdns_list env mlist info h
                 in if r < 0 then (- 1, imap, h) else (0, imap @ [(ip, mlist)], h)))"

text \<open>The fields of \<open>info\<close> that are not set hold what was on the stack, the argument \<open>junk\<close>.\<close>

definition put_mdns_query_mapper ::
  "env \<Rightarrow> mdns_list_info \<Rightarrow> hmap_mdns_conn \<Rightarrow> bytes \<Rightarrow> mdns_query_entry \<Rightarrow> hist \<Rightarrow> int \<times> hmap_mdns_conn \<times> hist" where
  "put_mdns_query_mapper env junk imap ip query h =
     put_mdns_info env imap ip
       (junk\<lparr>li_name := qe_qname query, li_qtype := qe_qtype query, li_request := MDNS_REQUEST_QUERY\<rparr>) h"

definition put_mdns_answer_mapper ::
  "env \<Rightarrow> mdns_list_info \<Rightarrow> hmap_mdns_conn \<Rightarrow> bytes \<Rightarrow> mdns_answer_entry \<Rightarrow> hist \<Rightarrow> int \<times> hmap_mdns_conn \<times> hist" where
  "put_mdns_answer_mapper env junk imap ip answer h =
     put_mdns_info env imap ip
       (junk\<lparr>li_name := ae_rrname answer, li_rrtype := ae_rrtype answer, li_ttl := ae_ttl answer,
             li_request := MDNS_REQUEST_ANSWER\<rparr>) h"

definition check_mdns_mapper_req :: "hmap_mdns_conn \<Rightarrow> bytes \<Rightarrow> MDNS_REQUEST_TYPE \<Rightarrow> int" where
  "check_mdns_mapper_req imap ip request =
     (case map_of imap ip of None \<Rightarrow> 0 | Some mlist \<Rightarrow> check_mdns_list_req mlist request)"

section \<open>The service\<close>

datatype sockaddr = AF_INET bytes u16 | AF_INET6 bytes u16 | AF_OTHER

datatype errno = EWOULDBLOCK | EADDRNOTAVAIL | E_OTHER

record mdns_os =
  mo_peer :: "hist \<Rightarrow> sockaddr"
  mo_errno :: "hist \<Rightarrow> errno"
  mo_ifindex :: "string \<Rightarrow> u32"
  mo_ntop6 :: "bytes \<Rightarrow> string"
  mo_info_junk :: mdns_list_info
  mo_junk :: bytes

record mdns_context =
  mx_rif4 :: "reflection_list option"
  mx_rif6 :: "reflection_list option"
  mx_imap :: hmap_mdns_conn
  mx_vlan_mapper :: hmap_vlan_conn
  mx_command_mapper :: hmap_command_conn
  mx_reflect_ip4 :: bool
  mx_reflect_ip6 :: bool
  mx_supervisor_control_path :: string
  mx_sfd :: int

definition sockaddr2str :: "env \<Rightarrow> mdns_os \<Rightarrow> sockaddr \<Rightarrow> hist \<Rightarrow> (string \<times> u16) option" where
  "sockaddr2str env os sa h =
     (case sa of
        AF_INET6 a port \<Rightarrow> if env_ntop env h then Some (mo_ntop6 os a, port) else None
      | AF_INET a port \<Rightarrow> if env_ntop env h then Some (ip4_at a 0, port) else None
      | AF_OTHER \<Rightarrow> None)"

definition close_reflector_if :: "reflection_list \<Rightarrow> hist \<Rightarrow> hist" where
  "close_reflector_if rif h =
     fold (\<lambda>el h. let h = (if - 1 < rl_recv_fd el then E_close (rl_recv_fd el) # h else h)
                  in if rl_send_fd el \<noteq> 0 then E_close (rl_send_fd el) # h else h) rif h"

definition MDNS_PORT :: u16 where
  "MDNS_PORT = 5353"

definition MDNS_ADDR4 :: u32 where
  "MDNS_ADDR4 = 0xE00000FB"

definition MDNS_ADDR6_INIT :: bytes where
  "MDNS_ADDR6_INIT = [0xff, 0x02] @ replicate 13 0 @ [0xfb]"

text \<open>
  The multicast group as the destination of \<open>sendto\<close>; the bytes of the IPv6 address are kept in
  \<open>sun_path\<close>, followed by the scope.
\<close>

definition sa_group4 :: client_address where
  "sa_group4 = \<lparr>sun_path = [], sin_port = MDNS_PORT, sin_addr = MDNS_ADDR4, ca_len = SOCKADDR_IN_LEN, ca_type = SOCKET_TYPE_NONE\<rparr>"

definition sa_group6 :: "u32 \<Rightarrow> client_address" where
  "sa_group6 scope = \<lparr>sun_path = MDNS_ADDR6_INIT @ map (\<lambda>k. ucast (drop_bit k scope)) [24, 16, 8, 0], sin_port = MDNS_PORT,
     sin_addr = 0, ca_len = 28, ca_type = SOCKET_TYPE_NONE\<rparr>"

text \<open>The comparison of an element with the head of the list is never true, so no interface is left out.\<close>

fun forward_reflector_if6 :: "env \<Rightarrow> mdns_os \<Rightarrow> string \<Rightarrow> reflection_list \<Rightarrow> hist \<Rightarrow> int \<times> hist" where
  "forward_reflector_if6 env os send_buf [] h = (0, h)"
| "forward_reflector_if6 env os send_buf (el # rif) h =
     (let h = E_sendto (rl_send_fd el) send_buf (sa_group6 (rl_ifindex el)) # h in
      if env_sendto env h = - 1 \<and> \<not> (mo_errno os h = EWOULDBLOCK \<or> mo_errno os h = EADDRNOTAVAIL) then (- 1, h)
      else forward_reflector_if6 env os send_buf rif h)"

fun forward_reflector_if4 :: "env \<Rightarrow> mdns_os \<Rightarrow> string \<Rightarrow> reflection_list \<Rightarrow> hist \<Rightarrow> int \<times> hist" where
  "forward_reflector_if4 env os send_buf [] h = (0, h)"
| "forward_reflector_if4 env os send_buf (el # rif) h =
     (let h = E_sendto (rl_send_fd el) send_buf sa_group4 # h in
      if env_sendto env h = - 1 \<and> mo_errno os h \<noteq> EWOULDBLOCK then (- 1, h)
      else forward_reflector_if4 env os send_buf rif h)"

text \<open>The two loops that store what a message asked and answered; failures are logged.\<close>

definition store_queries ::
  "env \<Rightarrow> mdns_os \<Rightarrow> bytes \<Rightarrow> mdns_query_entry list \<Rightarrow> hmap_mdns_conn \<times> hist \<Rightarrow> hmap_mdns_conn \<times> hist" where
  "store_queries env os qip queries s =
     fold (\<lambda>q (imap, h). snd (put_mdns_query_mapper env (mo_info_junk os) imap qip q h)) queries s"

definition store_answers ::
  "env \<Rightarrow> mdns_os \<Rightarrow> mdns_answer_entry list \<Rightarrow> hmap_mdns_conn \<times> hist \<Rightarrow> hmap_mdns_conn \<times> hist" where
  "store_answers env os answers s =
     fold (\<lambda>a (imap, h). snd (put_mdns_answer_mapper env (mo_info_junk os) imap (ae_ip a) a h)) answers s"

text \<open>The header is read before the length of the message is checked.\<close>

definition process_message ::
  "env \<Rightarrow> mdns_os \<Rightarrow> string \<Rightarrow> sockaddr \<Rightarrow> bytes \<Rightarrow> reflection_list \<Rightarrow> mdns_context \<Rightarrow> hist \<Rightarrow> (mdns_context \<times> hist) option" where
  "process_message env os buf peer qip rif context h =
     (let p = bytes_of_string buf;
          header = decode_mdns_header p;
          h = past_end p 12 h
      in if length p < 12 then Some (context, h)
         else
           Option.bind (decode_mdns_queries env p 12 (unat (mh_nqueries header)) [] h) (\<lambda>(r, first, queries, h).
             if r < 0 then Some (context, h)
             else
               Option.bind (decode_mdns_answers env p first (unat (mh_nanswers header)) [] h) (\<lambda>(r, first, answers, h).
                 if r < 0 then Some (context, h)
                 else
                   let (imap, h) =
                         (case peer of AF_INET _ _ \<Rightarrow> store_queries env os qip queries (mx_imap context, h)
                          | _ \<Rightarrow> (mx_imap context, h));
                       (imap, h) = store_answers env os answers (imap, h);
                       context = context\<lparr>mx_imap := imap\<rparr>
                   in Some (case peer of
                        AF_INET6 _ _ \<Rightarrow>
                          if mx_reflect_ip6 context then (context, snd (forward_reflector_if6 env os buf rif h)) else (context, h)
                      | AF_INET _ _ \<Rightarrow>
                          if mx_reflect_ip4 context then (context, snd (forward_reflector_if4 env os buf rif h)) else (context, h)
                      | AF_OTHER \<Rightarrow> (context, h)))))"

definition eloop_reflector_handler ::
  "env \<Rightarrow> mdns_os \<Rightarrow> int \<Rightarrow> reflection_list \<Rightarrow> mdns_context \<Rightarrow> hist \<Rightarrow> (mdns_context \<times> hist) option" where
  "eloop_reflector_handler env os sock rif context h =
     (let h = E_fionread sock # h in
      case env_fionread env h of
        None \<Rightarrow> Some (context, h)
      | Some bytes_available \<Rightarrow>
          let (ok, h) = os_malloc env h in
          if \<not> ok then Some (context, h)
          else
            let (num_bytes, buf, peer_addr, h) =
                  read_socket_data env sock bytes_available (blank_address SOCKET_TYPE_DOMAIN) h;
                peer = mo_peer os h
            in if num_bytes = - 1 then Some (context, h)
               else
                 (case sockaddr2str env os peer h of
                    None \<Rightarrow> Some (context, h)
                  | Some (peer_addr_str, port) \<Rightarrow>
                      (case peer of
                         AF_INET _ _ \<Rightarrow>
                           (case ip4_2_buf (mo_junk os) (Some peer_addr_str) of
                              None \<Rightarrow> Some (context, h)
                            | Some qip \<Rightarrow> process_message env os buf peer qip rif context h)
                       | _ \<Rightarrow> process_message env os buf peer (mo_junk os) rif context h)))"

text \<open>The interface of every VLAN, in both lists.\<close>

fun push_reflections ::
  "env \<Rightarrow> mdns_os \<Rightarrow> hmap_vlan_conn \<Rightarrow> mdns_context \<Rightarrow> hist \<Rightarrow> int \<times> mdns_context \<times> hist" where
  "push_reflections env os [] context h = (0, context, h)"
| "push_reflections env os (kv # vlans) context h =
     (let ifname = vc_ifname (snd kv); ifindex = mo_ifindex os ifname in
      if ifindex = 0 then (- 1, context, h)
      else
        let (ok, rif6, h) = push_reflection_list env (mx_rif6 context) ifindex ifname h;
            context = context\<lparr>mx_rif6 := rif6\<rparr>
        in if \<not> ok then (- 1, context, h)
           else
             let (ok, rif4, h) = push_reflection_list env (mx_rif4 context) ifindex ifname h;
                 context = context\<lparr>mx_rif4 := rif4\<rparr>
             in if \<not> ok then (- 1, context, h) else push_reflections env os vlans context h)"

definition init_reflections ::
  "env \<Rightarrow> mdns_os \<Rightarrow> hmap_vlan_conn \<Rightarrow> mdns_context \<Rightarrow> hist \<Rightarrow> int \<times> mdns_context \<times> hist" where
  "init_reflections env os vlans context h =
     (let (rif4, h) = init_reflection_list env h;
          context = context\<lparr>mx_rif4 := rif4\<rparr>
      in if rif4 = None then (- 1, context, h)
         else
           let (rif6, h) = init_reflection_list env h;
               context = context\<lparr>mx_rif6 := rif6\<rparr>
           in if rif6 = None then (- 1, context, h) else push_reflections env os vlans context h)"

definition close_mdns :: "mdns_context \<Rightarrow> hist \<Rightarrow> mdns_context \<times> hist" where
  "close_mdns context h =
     (let h = (case mx_rif4 context of None \<Rightarrow> h | Some rif \<Rightarrow> close_reflector_if rif h);
          h = (case mx_rif6 context of None \<Rightarrow> h | Some rif \<Rightarrow> close_reflector_if rif h)
      in (context\<lparr>mx_rif4 := None, mx_rif6 := None, mx_imap := [], mx_command_mapper := [], mx_sfd := 0\<rparr>,
          E_close (mx_sfd context) # h))"

fun push_words :: "env \<Rightarrow> string_queue \<Rightarrow> string list \<Rightarrow> hist \<Rightarrow> int \<times> string_queue \<times> hist" where
  "push_words env q [] h = (0, q, h)"
| "push_words env q (s # ss) h =
     (let (r, q, h) = push_string_queue env q s h in if r < 0 then (- 1, q, h) else push_words env q ss h)"

definition create_domain_command :: "env \<Rightarrow> string \<Rightarrow> string \<Rightarrow> hist \<Rightarrow> string option \<times> hist" where
  "create_domain_command env src_ip dst_ip h =
     (case init_string_queue env (- 1) h of
        (None, h) \<Rightarrow> (None, h)
      | (Some q, h) \<Rightarrow>
          let (r, q, h) = push_words env q [''ADD_BRIDGE'', '' '', src_ip, '' '', dst_ip] h
          in if r < 0 then (None, h) else concat_string_queue env q (- 1) h)"

text \<open>The command is remembered before it is sent.\<close>

definition send_bridge_command ::
  "env \<Rightarrow> mdns_os \<Rightarrow> mdns_context \<Rightarrow> tuple_packet \<Rightarrow> hist \<Rightarrow> int \<times> mdns_context \<times> hist" where
  "send_bridge_command env os context tp h =
     (case tp of
        PACKET_IP4 sch \<Rightarrow>
          (case (ip4_2_buf (mo_junk os) (Some (ip_src sch)), ip4_2_buf (mo_junk os) (Some (ip_dst sch))) of
             (Some sip, Some dip) \<Rightarrow>
               if check_mdns_mapper_req (mx_imap context) sip MDNS_REQUEST_ANSWER = 0 \<and>
                  check_mdns_mapper_req (mx_imap context) dip MDNS_REQUEST_ANSWER = 0 then (0, context, h)
               else
                 (case create_domain_command env (ip_src sch) (ip_dst sch) h of
                    (None, h) \<Rightarrow> (- 1, context, h)
                  | (Some domain, h) \<Rightarrow>
                      if 0 < check_command_mapper (mx_command_mapper context) domain then (0, context, h)
                      else
                        let (r, cmds, h) = put_command_mapper env (mx_command_mapper context) domain h;
                            context = context\<lparr>mx_command_mapper := cmds\<rparr>
                        in if r < 0 then (- 1, context, h)
                           else
                             let (n, h) = write_domain_data_s env (mx_sfd context) domain (mx_supervisor_control_path context) h
                             in (if n < 0 then - 1 else 0, context, h))
           | _ \<Rightarrow> (- 1, context, h))
      | _ \<Rightarrow> (0, context, h))"

definition send_bridge_commands ::
  "env \<Rightarrow> mdns_os \<Rightarrow> tuple_packet list \<Rightarrow> mdns_context \<times> hist \<Rightarrow> mdns_context \<times> hist" where
  "send_bridge_commands env os tps s = fold (\<lambda>tp (context, h). snd (send_bridge_command env os context tp h)) tps s"

definition mdns_pcap_callback ::
  "env \<Rightarrow> mdns_os \<Rightarrow> mdns_context \<Rightarrow> string \<Rightarrow> pcap_pkthdr \<Rightarrow> bytes \<Rightarrow> hist \<Rightarrow> mdns_context \<times> hist" where
  "mdns_pcap_callback env os context ifname header p h =
     (let (n, tps, h) = extract_packets env (mo_ntop6 os) header p ifname h
      in if 0 < n then send_bridge_commands env os tps (context, h) else (context, h))"

definition init_mdns_context ::
  "env \<Rightarrow> bool \<Rightarrow> bool \<Rightarrow> string \<Rightarrow> hmap_vlan_conn \<Rightarrow> hist \<Rightarrow> int \<times> mdns_context \<times> hist" where
  "init_mdns_context env reflect_ip4 reflect_ip6 supervisor_control_path vlans h =
     (let (r, copy, h) = copy_vlan_mapper env vlans [] h
      in (if r < 0 then - 1 else 0,
          \<lparr>mx_rif4 = None, mx_rif6 = None, mx_imap = [], mx_vlan_mapper = copy, mx_command_mapper = [],
           mx_reflect_ip4 = reflect_ip4, mx_reflect_ip6 = reflect_ip6,
           mx_supervisor_control_path = strlcpy supervisor_control_path MAX_OS_PATH_LEN, mx_sfd = 0\<rparr>, h))"

section \<open>Addresses as text\<close>

lemma show_nat_lead: "n \<noteq> 0 \<Longrightarrow> hd (show_nat n) \<noteq> CHR ''0''"
proof (induction n rule: show_nat.induct)
  case (1 n)
  show ?case
  proof (cases "n < 10")
    case True
    then have "n \<in> {1, 2, 3, 4, 5, 6, 7, 8, 9}"
      using "1.prems" by auto
    then show ?thesis
      by (subst show_nat.simps) (auto simp: char_of_def)
  next
    case False
    then have "hd (show_nat (n div 10)) \<noteq> CHR ''0''"
      using "1.IH" by simp
    with False show ?thesis
      by (subst show_nat.simps) simp
  qed
qed

lemma show_nat_octet: "n < 256 \<Longrightarrow> pton_octet (show_nat n)"
proof -
  assume n: "n < 256"
  then have "length (show_nat n) \<le> 3"
    using length_show_nat [of n 2] by simp
  moreover have "length (show_nat n) = 1 \<or> hd (show_nat n) \<noteq> CHR ''0''"
    using show_nat_lead [of n] by (cases "n = 0") (simp_all add: show_nat.simps)
  ultimately show ?thesis
    using n by (simp add: pton_octet_def show_nat_digits digits_val_show_nat)
qed

lemma digits_no_char: "list_all c_isdigit s \<Longrightarrow> \<not> c_isdigit c \<Longrightarrow> c \<notin> set s"
  by (auto simp: list_all_iff)

lemma ip4_at_join:
  "ip4_at p i = join_pieces CHR ''.'' (map (\<lambda>k. show_nat (unat (byte_at p (i + k)))) [0, 1, 2, 3])"
  by (simp add: ip4_at_def)

definition bytes4 :: "bytes \<Rightarrow> nat \<Rightarrow> bytes" where
  "bytes4 p i = map (\<lambda>k. byte_at p (i + k)) [0, 1, 2, 3]"

lemma inet_pton4_ip4_at: "inet_pton4 (ip4_at p i) = Some (bytes4 p i)"
proof -
  have dot: "CHR ''.'' \<notin> set (show_nat n)" for n
    by (rule digits_no_char [OF show_nat_digits]) (simp add: c_isdigit_def)
  show ?thesis
    unfolding ip4_at_join inet_pton4_def bytes4_def
    by (subst split_join) (simp_all add: dot show_nat_octet [OF unat_u8_less] digits_val_show_nat)
qed

lemma ip4_at_chars: "c \<in> set (ip4_at p i) \<Longrightarrow> c_isdigit c \<or> c = CHR ''.''"
  using show_nat_digits by (auto simp: ip4_at_def list_all_iff)

lemma length_ip4_at: "length (ip4_at p i) \<le> 15"
proof -
  have "length (show_nat (unat (b :: u8))) \<le> 3" for b
    using length_show_nat [of "unat b" 2] unat_u8_less [of b] by simp
  from this [of "byte_at p i"] this [of "byte_at p (i + 1)"] this [of "byte_at p (i + 2)"] this [of "byte_at p (i + 3)"]
  show ?thesis
    by (simp add: ip4_at_def)
qed

lemma strlcpy_ip4_at [simp]: "strlcpy (ip4_at p i) OS_INET_ADDRSTRLEN = ip4_at p i"
  using length_ip4_at [of p i] by (simp add: OS_INET_ADDRSTRLEN_def edge_os_strlcpy_def)

lemma ip4_at_no_slash [simp]: "CHR ''/'' \<notin> set (ip4_at p i)"
  using ip4_at_chars [of "CHR ''/''" p i] by (auto simp: c_isdigit_def)

lemma validate_ip4_at [simp]: "validate_ipv4_string (ip4_at p i)"
  by (simp add: validate_ipv4_string_def inet_pton4_ip4_at)

lemma ip4_2_buf_ip4_at [simp]: "ip4_2_buf junk (Some (ip4_at p i)) = Some (bytes4 p i)"
  by (simp add: ip4_2_buf_def inet_pton4_ip4_at)

text \<open>An IPv4 address is not taken for a MAC address.\<close>

lemma hex2num_dot: "hex2num CHR ''.'' < 0" "hex2num CHR 0x00 < 0"
  by (simp_all add: hex2num_def)

lemma hwaddr_loop_octet:
  assumes s: "list_all c_isdigit s" "s \<noteq> []" "length s \<le> 3" and rest: "rest = [] \<or> hd rest = CHR ''.''"
    and n: "hwaddr_loop n rest = None" "2 \<le> n"
  shows "hwaddr_loop (Suc n) (s @ rest) = None"
proof -
  have sep: "\<not> is_mac_sep c" if "c \<in> set s" for c
    using that s(1) by (auto simp: list_all_iff is_mac_sep_def c_isdigit_def)
  have bad: "hex2num (c_at rest) < 0"
    using rest hex2num_dot by (cases rest) (auto simp: c_at_def)
  obtain m where m: "n = Suc m"
    using n(2) by (cases n) auto
  consider a where "s = [a]" | a b where "s = [a, b]" | a b c where "s = [a, b, c]"
    using s(2,3) by (cases s rule: list.exhaust; cases "tl s" rule: list.exhaust; cases "tl (tl s)" rule: list.exhaust) auto
  then show ?thesis
  proof cases
    case 1
    then show ?thesis
      using sep bad by (simp add: Let_def)
  next
    case 2
    then show ?thesis
      using sep n(1) by (simp add: Let_def)
  next
    case 3
    then show ?thesis
      using sep bad m by (simp add: Let_def)
  qed
qed

lemma hwaddr_loop_skip: "is_mac_sep c \<Longrightarrow> hwaddr_loop (Suc n) (c # s) = hwaddr_loop (Suc n) s"
  by simp

lemma hwaddr_ip4_at [simp]: "hwaddr_aton2 (ip4_at p i) = None"
proof -
  have oct: "list_all c_isdigit (show_nat (unat (b :: u8)))" "show_nat (unat b) \<noteq> []" "length (show_nat (unat b)) \<le> 3" for b
    using length_show_nat [of "unat b" 2] unat_u8_less [of b] by (simp_all add: show_nat_digits)
  have dot: "is_mac_sep CHR ''.''"
    by (simp add: is_mac_sep_def)
  have "hwaddr_loop 2 [] = None"
    by (simp add: numeral_2_eq_2 c_at_def hex2num_def Let_def)
  then have "hwaddr_loop 3 (show_nat (unat (byte_at p (i + 3)))) = None"
    using hwaddr_loop_octet [OF oct, of "[]" 2] by (simp add: numeral_3_eq_3 numeral_2_eq_2)
  then have "hwaddr_loop 4 (show_nat (unat (byte_at p (i + 2))) @ ''.'' @ show_nat (unat (byte_at p (i + 3)))) = None"
    using hwaddr_loop_octet [OF oct, of "''.'' @ show_nat (unat (byte_at p (i + 3)))" 3] hwaddr_loop_skip [OF dot, of 2]
    by (simp add: eval_nat_numeral del: hwaddr_loop.simps)
  then have "hwaddr_loop 5 (show_nat (unat (byte_at p (i + 1))) @ ''.'' @ show_nat (unat (byte_at p (i + 2))) @ ''.'' @
      show_nat (unat (byte_at p (i + 3)))) = None"
    using hwaddr_loop_octet [OF oct, of "''.'' @ show_nat (unat (byte_at p (i + 2))) @ ''.'' @ show_nat (unat (byte_at p (i + 3)))" 4]
      hwaddr_loop_skip [OF dot, of 3] by (simp add: eval_nat_numeral del: hwaddr_loop.simps)
  then have "hwaddr_loop 6 (ip4_at p i) = None"
    using hwaddr_loop_octet [OF oct, of "''.'' @ show_nat (unat (byte_at p (i + 1))) @ ''.'' @ show_nat (unat (byte_at p (i + 2))) @
        ''.'' @ show_nat (unat (byte_at p (i + 3)))" 5] hwaddr_loop_skip [OF dot, of 4]
    by (simp add: ip4_at_def eval_nat_numeral del: hwaddr_loop.simps)
  then show ?thesis
    by (simp add: edge_hwaddr_aton2_def)
qed

section \<open>Decoding a frame sends nothing\<close>

lemma past_end_quiet [simp, intro]: "quiet h (past_end p n h)"
  by (simp add: past_end_def)

lemma dns_questions_quiet: "dns_questions p base len q h = (q', h') \<Longrightarrow> quiet h h'"
proof (induction p base len q h rule: dns_questions.induct)
  case (1 p base len q h)
  let ?i = "base + length q"
  let ?n = "unat (byte_at p ?i)"
  note eq = "1.prems" [unfolded dns_questions.simps [of p base len q h] Let_def]
  show ?case
  proof (cases "len \<le> ?i \<or> ?n = 0 \<or> 254 \<le> length q + ?n")
    case True
    then show ?thesis
      using eq past_end_quiet by (metis (no_types, lifting) prod.inject quiet_refl)
  next
    case False
    then have "quiet (past_end p (?i + 1 + ?n) h) h'"
      using "1.IH" [OF refl refl refl] eq by (simp only: if_False de_Morgan_disj simp_thms)
    then show ?thesis
      using past_end_quiet quiet_trans by blast
  qed
qed

lemma decode_dns_questions_quiet: "quiet h (snd (decode_dns_questions p base len h))"
  using dns_questions_quiet by (auto simp: decode_dns_questions_def split: prod.splits)

lemma decode_dns_quiet: "quiet h (snd (snd (decode_dns_packet p c h)))"
proof -
  have "quiet h (snd (decode_dns_questions p base len (past_end p n h)))" for base len n
    using quiet_trans [OF past_end_quiet decode_dns_questions_quiet] .
  then show ?thesis
    unfolding decode_dns_packet_def Let_def
    by (simp split: option.split prod.split) (metis past_end_quiet snd_conv)
qed

lemma decoders_quiet:
  "quiet h (snd (snd (decode_arp_packet p c h)))"
  "quiet h (snd (snd (decode_udp_packet p c h)))"
  "quiet h (snd (snd (decode_tcp_packet p c h)))"
  "quiet h (snd (snd (decode_icmp4_packet p c h)))"
  "quiet h (snd (snd (decode_icmp6_packet p c h)))"
  "quiet h (snd (snd (decode_mdns_packet p c h)))"
  "quiet h (snd (snd (decode_dhcp_packet p c h)))"
  "quiet h (snd (snd (decode_ip4_packet p c h)))"
  "quiet h (snd (snd (decode_ip6_packet f p c h)))"
  "quiet h (snd (snd (decode_eth_packet hdr p c h)))"
  unfolding decode_arp_packet_def decode_udp_packet_def decode_tcp_packet_def decode_icmp4_packet_def decode_icmp6_packet_def decode_mdns_packet_def
    decode_dhcp_packet_def decode_ip4_packet_def decode_ip6_packet_def decode_eth_packet_def Let_def
  by (simp_all add: past_end_quiet split: option.split prod.split)

lemma layer_quiet:
  assumes "\<And>c h. quiet h (snd (snd (d c h)))" and "quiet h0 h"
  shows "quiet h0 (snd (snd (layer d (k, c, h))))"
proof -
  obtain ok c' h' where "d c h = (ok, c', h')"
    by (metis prod_cases3)
  with assms(1) [of h c] assms(2) show ?thesis
    by (auto simp: layer_def intro: quiet_trans)
qed

lemmas layers_quiet = decode_dns_quiet [THEN layer_quiet] decoders_quiet(1-7) [THEN layer_quiet]

lemma decode_network_quiet: "quiet h (snd (snd (decode_network f p c h)))"
proof -
  obtain ok4 c4 h4 where ip4: "decode_ip4_packet p c h = (ok4, c4, h4)"
    by (metis prod_cases3)
  obtain ok6 c6 h6 where ip6: "decode_ip6_packet f p c h = (ok6, c6, h6)"
    by (metis prod_cases3)
  have "quiet h h4" "quiet h h6"
    using decoders_quiet(8) [of h p c] decoders_quiet(9) [of h f p c] by (simp_all add: ip4 ip6)
  then show ?thesis
    unfolding decode_network_def ip4 ip6 Let_def prod.case
    by (simp add: layers_quiet)
qed

lemma decode_application_quiet: "quiet h (snd (snd (decode_application p (k, c, h))))"
  unfolding decode_application_def by (simp add: layers_quiet split: option.split prod.split)

lemma push_tuples_quiet: "push_tuples env ts arr h = (r, arr', h') \<Longrightarrow> quiet h h'"
proof (induction ts arbitrary: arr h)
  case (Cons t ts)
  from Cons.prems show ?case
    by (auto simp: os_malloc_def Let_def split: if_splits dest!: Cons.IH intro: quiet_trans [of h "E_malloc # h"])
qed simp

lemma extract_packets_quiet: "extract_packets env f hdr p ifname h = (r, ts, h') \<Longrightarrow> quiet h h'"
proof -
  assume run: "extract_packets env f hdr p ifname h = (r, ts, h')"
  let ?c = "new_packet env hdr ifname (E_uuid # h)"
  obtain ok ce he where eth: "decode_eth_packet hdr p ?c (E_uuid # h) = (ok, ce, he)"
    by (metis prod_cases3)
  obtain k c1 h2 where net: "decode_network f p ce he = (k, c1, h2)"
    by (metis prod_cases3)
  obtain n c' h1 where app: "decode_application p (k, c1, h2) = (n, c', h1)"
    by (metis prod_cases3)
  have q: "quiet (E_uuid # h) he" "quiet he h2" "quiet h2 h1"
    using decoders_quiet(10) [of "E_uuid # h" hdr p ?c] decode_network_quiet [of he f p ce]
      decode_application_quiet [of h2 p k c1] by (simp_all add: eth net app)
  have "quiet h he"
    using q(1) by (rule quiet_trans [rotated]) auto
  moreover have "quiet h h1"
    using quiet_trans [OF quiet_trans [OF calculation q(2)] q(3)] .
  ultimately show ?thesis
    using run
    by (auto simp: extract_packets_def decode_packet_def eth net app Let_def split: if_splits
        dest!: push_tuples_quiet intro: quiet_trans [of h h1])
qed

section \<open>The addresses of the IPv4 record\<close>

lemma layer_ip4:
  "layer (decode_tcp_packet p) (k, c, h) = (n, c', h') \<Longrightarrow> cp_ip4 c' = cp_ip4 c"
  "layer (decode_udp_packet p) (k, c, h) = (n, c', h') \<Longrightarrow> cp_ip4 c' = cp_ip4 c"
  "layer (decode_icmp4_packet p) (k, c, h) = (n, c', h') \<Longrightarrow> cp_ip4 c' = cp_ip4 c"
  "layer (decode_icmp6_packet p) (k, c, h) = (n, c', h') \<Longrightarrow> cp_ip4 c' = cp_ip4 c"
  "layer (decode_arp_packet p) (k, c, h) = (n, c', h') \<Longrightarrow> cp_ip4 c' = cp_ip4 c"
  by (auto dest: layer_shape)

lemma decode_network_ip4:
  assumes run: "decode_network f p c h = (n, c', h')" and "cp_ip4 c = None" and "cp_ip4 c' = Some i"
  shows "ip_src i = ip4_at p 26 \<and> ip_dst i = ip4_at p 30"
proof -
  obtain ok4 c4 h4 where ip4: "decode_ip4_packet p c h = (ok4, c4, h4)"
    by (metis prod_cases3)
  obtain ok6 c6 h6 where ip6: "decode_ip6_packet f p c h = (ok6, c6, h6)"
    by (metis prod_cases3)
  have "\<forall>i. cp_ip4 c4 = Some i \<longrightarrow> ip_src i = ip4_at p 26 \<and> ip_dst i = ip4_at p 30"
    using ip4 assms(2) by (auto simp: decode_ip4_packet_def Let_def split: if_splits)
  moreover have "cp_ip4 c6 = None"
    using decode_ip6_shape [OF ip6] assms(2) by auto
  moreover have "cp_ip4 c' = cp_ip4 c \<or> cp_ip4 c' = cp_ip4 c4 \<or> cp_ip4 c' = cp_ip4 c6"
    using run unfolding decode_network_def ip4 ip6 Let_def prod.case
    by (simp only: prod.inject split: if_splits) (blast dest: layer_ip4)+
  ultimately show ?thesis
    using assms(2,3) by auto
qed

lemma decode_application_ip4: "decode_application p (k, c, h) = (n, c', h') \<Longrightarrow> cp_tcp c = None \<or> cp_udp c = None \<Longrightarrow> cp_ip4 c' = cp_ip4 c"
proof (cases "cp_tcp c")
  case None
  moreover assume "decode_application p (k, c, h) = (n, c', h')"
  ultimately show ?thesis
    by (cases "cp_udp c") (auto dest: decode_application_shape)
next
  case (Some t)
  moreover assume "decode_application p (k, c, h) = (n, c', h')" "cp_tcp c = None \<or> cp_udp c = None"
  ultimately show ?thesis
    by (cases t) (auto dest: decode_application_shape)
qed

lemma extract_packets_ip4:
  assumes run: "extract_packets env f hdr p ifname h = (r, ts, h')" and tp: "PACKET_IP4 i \<in> set ts"
  shows "ip_src i = ip4_at p 26 \<and> ip_dst i = ip4_at p 30"
proof -
  let ?c = "new_packet env hdr ifname (E_uuid # h)"
  obtain ok ce he where eth: "decode_eth_packet hdr p ?c (E_uuid # h) = (ok, ce, he)"
    by (metis prod_cases3)
  obtain k c1 h2 where net: "decode_network f p ce he = (k, c1, h2)"
    by (metis prod_cases3)
  obtain n c' h1 where app: "decode_application p (k, c1, h2) = (n, c', h1)"
    by (metis prod_cases3)
  have fresh: "cp_ip4 ce = None" "cp_tcp ce = None" "cp_udp ce = None"
    using eth by (auto simp: decode_eth_packet_def new_packet_def split: if_splits)
  note [simp] = fresh
  have "cp_tcp c1 = None \<or> cp_udp c1 = None"
    using decode_network_shape [OF net] by (elim disjE exE; simp)
  from decode_application_ip4 [OF app this] have "cp_ip4 c' = cp_ip4 c1" .
  moreover have "PACKET_IP4 i \<in> set (packet_tuples c')"
  proof -
    have "push_tuples env (packet_tuples c') [] h1 = (r, ts, h')"
      using run tp by (auto simp: extract_packets_def decode_packet_def eth net app Let_def split: if_splits)
    from push_tuples_prefix [OF this] tp show ?thesis
      by (auto dest: set_mono_prefix)
  qed
  then have "cp_ip4 c' = Some i"
    by (auto simp: packet_tuples_def split: option.splits)
  ultimately show ?thesis
    using decode_network_ip4 [OF net fresh(1)] by simp
qed

section \<open>The text of a command\<close>

definition bridge_text :: "string \<Rightarrow> string \<Rightarrow> string" where
  "bridge_text a b = ''ADD_BRIDGE '' @ a @ '' '' @ b"

lemma push_words_list:
  "push_words env q ss h = (r, q', h') \<Longrightarrow> sq_max_length q = - 1 \<Longrightarrow>
   quiet h h' \<and> (0 \<le> r \<longrightarrow> (\<exists>ys. sq_list q' = sq_list q @ ys \<and> list_all2 (\<lambda>s y. y = Some s \<or> y = None) ss ys))"
proof (induction ss arbitrary: q h)
  case (Cons s ss)
  show ?case
  proof (cases "env_malloc env (E_malloc # h)")
    case True
    let ?y = "if env_malloc env (E_malloc # E_malloc # h) then Some s else None"
    let ?q = "q\<lparr>sq_list := sq_list q @ [?y]\<rparr>"
    have "push_words env ?q ss (E_malloc # E_malloc # h) = (r, q', h')"
      using Cons.prems True by (simp add: push_string_queue_def init_string_queue_def os_malloc_def Let_def)
    from Cons.IH [OF this] Cons.prems(2) obtain ys where IH: "quiet (E_malloc # E_malloc # h) h'"
      "0 \<le> r \<Longrightarrow> sq_list q' = sq_list ?q @ ys \<and> list_all2 (\<lambda>s y. y = Some s \<or> y = None) ss ys"
      by auto
    have "quiet h h'"
      using IH(1) by (rule quiet_trans [rotated]) auto
    moreover have "0 \<le> r \<Longrightarrow> sq_list q' = sq_list q @ ?y # ys \<and> list_all2 (\<lambda>s y. y = Some s \<or> y = None) (s # ss) (?y # ys)"
      using IH(2) by simp
    ultimately show ?thesis
      by blast
  next
    case False
    then show ?thesis
      using Cons.prems by (auto simp: push_string_queue_def init_string_queue_def os_malloc_def Let_def)
  qed
qed auto

lemma concat_loop_text:
  "concat_loop env ys buf h = (r, h') \<Longrightarrow> list_all2 (\<lambda>s y. y = Some s \<or> y = None) ss ys \<Longrightarrow>
   quiet h h' \<and> set h \<subseteq> set h' \<and>
   (\<forall>d. r = Some d \<longrightarrow> E_ub Null_Deref \<notin> set h' \<longrightarrow> d = (case buf of None \<Rightarrow> [] | Some b \<Rightarrow> b) @ concat ss)"
proof (induction ys arbitrary: ss buf h)
  case (Cons y ys)
  obtain s ss' where ss: "ss = s # ss'" "y = Some s \<or> y = None" "list_all2 (\<lambda>s y. y = Some s \<or> y = None) ss' ys"
    using Cons.prems(2) by (auto simp: list_all2_Cons2)
  let ?h = "E_malloc # (if y = None then E_ub Null_Deref # h else h)"
  let ?t = "case y of None \<Rightarrow> [] | Some s \<Rightarrow> s"
  let ?b = "case buf of None \<Rightarrow> ?t | Some b \<Rightarrow> b @ ?t"
  show ?case
  proof (cases "env_malloc env ?h")
    case True
    then have "concat_loop env ys (Some ?b) ?h = (r, h')"
      using Cons.prems(1) by (auto simp: os_malloc_def Let_def split: if_splits option.splits)
    from Cons.IH [OF this ss(3)] have IH: "quiet ?h h'" "set ?h \<subseteq> set h'"
      "\<And>d. r = Some d \<Longrightarrow> E_ub Null_Deref \<notin> set h' \<Longrightarrow> d = ?b @ concat ss'"
      by auto
    have "quiet h h'"
      using IH(1) by (rule quiet_trans [rotated]) auto
    then show ?thesis
      using IH(2,3) ss(1,2) by (auto split: option.splits if_splits)
  next
    case False
    then have "r = None" "h' = ?h"
      using Cons.prems(1) by (auto simp: os_malloc_def Let_def split: if_splits option.splits)
    then show ?thesis
      by auto
  qed
qed (auto split: option.splits)

lemma create_domain_command_text:
  assumes "create_domain_command env a b h = (r, h')"
  shows "quiet h h' \<and> (\<forall>d. r = Some d \<longrightarrow> E_ub Null_Deref \<notin> set h' \<longrightarrow> d = bridge_text a b)"
proof (cases "env_malloc env (E_malloc # h)")
  case True
  define ws where "ws = [''ADD_BRIDGE'', '' '', a, '' '', b]"
  obtain n q h1 where push: "push_words env \<lparr>sq_max_length = - 1, sq_list = []\<rparr> ws (E_malloc # h) = (n, q, h1)"
    by (metis prod_cases3)
  have pw: "quiet (E_malloc # h) h1"
    "0 \<le> n \<longrightarrow> (\<exists>ys. sq_list q = [] @ ys \<and> list_all2 (\<lambda>s y. y = Some s \<or> y = None) ws ys)"
    using push_words_list [OF push] unfolding string_queue.select_convs by blast+
  have q1: "quiet h h1"
    using pw(1) by (rule quiet_trans [rotated]) blast
  have "create_domain_command env a b h = (if n < 0 then (None, h1) else concat_loop env (sq_list q) None h1)"
    using True push
    unfolding create_domain_command_def init_string_queue_def os_malloc_def Let_def ws_def [symmetric]
    by (simp add: concat_string_queue_def)
  then have run: "(if n < 0 then (None, h1) else concat_loop env (sq_list q) None h1) = (r, h')"
    using assms by simp
  show ?thesis
  proof (cases "n < 0")
    case True
    with run q1 show ?thesis
      by simp
  next
    case False
    then have "list_all2 (\<lambda>s y. y = Some s \<or> y = None) ws (sq_list q)"
      using pw(2) by auto
    then obtain ys where ys: "sq_list q = ys" "list_all2 (\<lambda>s y. y = Some s \<or> y = None) ws ys"
      by blast
    have "concat_loop env ys None h1 = (r, h')"
      using run False ys(1) by simp
    from concat_loop_text [OF this ys(2)] quiet_trans [OF q1, of h'] show ?thesis
      by (simp add: bridge_text_def ws_def)
  qed
next
  case False
  then show ?thesis
    using assms by (auto simp: create_domain_command_def init_string_queue_def os_malloc_def Let_def)
qed

section \<open>Bridges are requested for announced addresses only\<close>

definition announced :: "mdns_context \<Rightarrow> bytes \<Rightarrow> bool" where
  "announced context ip \<longleftrightarrow> check_mdns_mapper_req (mx_imap context) ip MDNS_REQUEST_ANSWER = 1"

definition supervisor_address :: "mdns_context \<Rightarrow> client_address" where
  "supervisor_address context = \<lparr>sun_path = init_domain_addr (mx_supervisor_control_path context), sin_port = 0, sin_addr = 0,
     ca_len = SOCKADDR_UN_LEN, ca_type = SOCKET_TYPE_DOMAIN\<rparr>"

text \<open>A datagram that a frame may cause.\<close>

definition bridge_request ::
  "bytes \<Rightarrow> mdns_context \<Rightarrow> mdns_context \<Rightarrow> hist \<Rightarrow> int \<Rightarrow> string \<Rightarrow> client_address \<Rightarrow> bool" where
  "bridge_request p c c' h' sock data to \<longleftrightarrow>
     sock = mx_sfd c \<and> to = supervisor_address c \<and> (announced c (bytes4 p 26) \<or> announced c (bytes4 p 30)) \<and>
     check_command_mapper (mx_command_mapper c) data = 0 \<and> check_command_mapper (mx_command_mapper c') data = 1 \<and>
     (E_ub Null_Deref \<notin> set h' \<longrightarrow> data = bridge_text (ip4_at p 26) (ip4_at p 30))"

definition bridge_step :: "bytes \<Rightarrow> mdns_context \<times> hist \<Rightarrow> mdns_context \<times> hist \<Rightarrow> bool" where
  "bridge_step p s s' \<longleftrightarrow>
     (case (s, s') of ((c, h), (c', h')) \<Rightarrow>
        mx_sfd c' = mx_sfd c \<and> supervisor_address c' = supervisor_address c \<and> mx_imap c' = mx_imap c \<and>
        set (mx_command_mapper c) \<subseteq> set (mx_command_mapper c') \<and>
        (\<exists>new. h' = new @ h \<and> (\<forall>sock data to. E_sendto sock data to \<in> set new \<longrightarrow> bridge_request p c c' h' sock data to)))"

lemma bridge_step_quiet: "quiet h h' \<Longrightarrow> bridge_step p (c, h) (c, h')"
  by (auto simp: bridge_step_def quiet_def)

lemma bridge_step_trans:
  assumes "bridge_step p s1 s2" "bridge_step p s2 s3"
  shows "bridge_step p s1 s3"
proof -
  obtain c1 h1 c2 h2 c3 h3 where s: "s1 = (c1, h1)" "s2 = (c2, h2)" "s3 = (c3, h3)"
    by (metis surj_pair)
  obtain n1 n2 where n: "h2 = n1 @ h1" "h3 = n2 @ h2"
    "\<And>sock data to. E_sendto sock data to \<in> set n1 \<Longrightarrow> bridge_request p c1 c2 h2 sock data to"
    "\<And>sock data to. E_sendto sock data to \<in> set n2 \<Longrightarrow> bridge_request p c2 c3 h3 sock data to"
    using assms unfolding s bridge_step_def prod.case by blast
  have f: "mx_sfd c2 = mx_sfd c1" "supervisor_address c2 = supervisor_address c1" "mx_imap c2 = mx_imap c1"
    "set (mx_command_mapper c1) \<subseteq> set (mx_command_mapper c2)" "mx_sfd c3 = mx_sfd c2"
    "supervisor_address c3 = supervisor_address c2" "mx_imap c3 = mx_imap c2"
    "set (mx_command_mapper c2) \<subseteq> set (mx_command_mapper c3)"
    using assms unfolding s bridge_step_def prod.case by blast+
  have "bridge_request p c1 c3 h3 sock data to" if "E_sendto sock data to \<in> set (n2 @ n1)" for sock data to
    using that n(3,4) [of sock data to] f n(1,2)
    by (auto simp: bridge_request_def announced_def check_command_mapper_def split: if_splits)
  then show ?thesis
    unfolding s bridge_step_def prod.case using f n(1,2) by (intro conjI exI [of _ "n2 @ n1"]) auto
qed

lemma check_mdns_mapper_req_bit: "check_mdns_mapper_req imap ip r = 0 \<or> check_mdns_mapper_req imap ip r = 1"
  by (simp add: check_mdns_mapper_req_def check_mdns_list_req_def split: option.split)

lemma send_bridge_command_step:
  assumes run: "send_bridge_command env os c tp h = (r, c', h')"
    and ip: "\<And>sch. tp = PACKET_IP4 sch \<Longrightarrow> ip_src sch = ip4_at p 26 \<and> ip_dst sch = ip4_at p 30"
  shows "bridge_step p (c, h) (c', h')"
proof (cases "\<exists>sch. tp = PACKET_IP4 sch")
  case True
  then obtain sch where tp: "tp = PACKET_IP4 sch" "ip_src sch = ip4_at p 26" "ip_dst sch = ip4_at p 30"
    using ip by blast
  obtain d h1 where cmd: "create_domain_command env (ip4_at p 26) (ip4_at p 30) h = (d, h1)"
    by (metis surj_pair)
  note dom = create_domain_command_text [OF cmd]
  show ?thesis
  proof (cases "announced c (bytes4 p 26) \<or> announced c (bytes4 p 30)")
    case False
    then have "c' = c" "h' = h"
      using run tp check_mdns_mapper_req_bit [of "mx_imap c" "bytes4 p 26" MDNS_REQUEST_ANSWER]
        check_mdns_mapper_req_bit [of "mx_imap c" "bytes4 p 30" MDNS_REQUEST_ANSWER]
      by (auto simp: send_bridge_command_def announced_def)
    then show ?thesis
      by (simp add: bridge_step_quiet)
  next
    case ann: True
    then have "\<not> (check_mdns_mapper_req (mx_imap c) (bytes4 p 26) MDNS_REQUEST_ANSWER = 0 \<and>
        check_mdns_mapper_req (mx_imap c) (bytes4 p 30) MDNS_REQUEST_ANSWER = 0)"
      by (auto simp: announced_def)
    note run' = run [unfolded send_bridge_command_def tp tuple_packet.case ip4_2_buf_ip4_at prod.case option.case
        if_not_P [OF this] cmd]
    show ?thesis
    proof (cases d)
      case None
      with run' dom show ?thesis
        by (simp add: bridge_step_quiet)
    next
      case (Some domain)
      show ?thesis
      proof (cases "0 < check_command_mapper (mx_command_mapper c) domain")
        case True
        with run' Some dom show ?thesis
          by (simp add: bridge_step_quiet)
      next
        case False
        then have fresh: "md_hash (bytes_of_string domain) \<notin> set (mx_command_mapper c)"
          by (simp add: check_command_mapper_def split: if_splits)
        obtain new where new: "h1 = new @ h" "\<And>s d a. E_sendto s d a \<notin> set new"
          using dom by (auto simp: quiet_def)
        show ?thesis
        proof (cases "env_malloc env (E_malloc # h1)")
          case True
          then have c': "c' = c\<lparr>mx_command_mapper := mx_command_mapper c @ [md_hash (bytes_of_string domain)]\<rparr>"
            and h': "h' = E_sendto (mx_sfd c) domain (supervisor_address c) # E_malloc # h1"
            using run' Some False fresh
            by (auto simp: put_command_mapper_def os_malloc_def Let_def write_domain_data_s_def write_socket_data_def
                write_socket_domain_def supervisor_address_def)
          have "bridge_request p c c' h' (mx_sfd c) domain (supervisor_address c)"
            using ann fresh dom Some by (auto simp: bridge_request_def c' h' check_command_mapper_def)
          then show ?thesis
            unfolding bridge_step_def prod.case using new
            by (intro conjI exI [of _ "E_sendto (mx_sfd c) domain (supervisor_address c) # E_malloc # new"])
              (auto simp: c' h' supervisor_address_def)
        next
          case False
          then have "c' = c" "h' = E_malloc # h1"
            using run' Some \<open>\<not> 0 < check_command_mapper (mx_command_mapper c) domain\<close> fresh
            by (auto simp: put_command_mapper_def os_malloc_def Let_def)
          then show ?thesis
            using dom by (simp add: bridge_step_quiet)
        qed
      qed
    qed
  qed
next
  case False
  then have "c' = c" "h' = h"
    using run by (auto simp: send_bridge_command_def split: tuple_packet.splits)
  then show ?thesis
    by (simp add: bridge_step_quiet)
qed

lemma send_bridge_commands_step:
  "(\<And>sch. PACKET_IP4 sch \<in> set tps \<Longrightarrow> ip_src sch = ip4_at p 26 \<and> ip_dst sch = ip4_at p 30) \<Longrightarrow>
   bridge_step p s (send_bridge_commands env os tps s)"
proof (induction tps arbitrary: s)
  case Nil
  show ?case
    by (cases s) (simp add: send_bridge_commands_def bridge_step_quiet)
next
  case (Cons tp tps)
  obtain c h where s: "s = (c, h)"
    by (cases s)
  obtain r c' h' where run: "send_bridge_command env os c tp h = (r, c', h')"
    by (metis prod_cases3)
  have "bridge_step p (c, h) (c', h')"
    using send_bridge_command_step [OF run] Cons.prems by auto
  moreover have "bridge_step p (c', h') (send_bridge_commands env os tps (c', h'))"
    using Cons by simp
  ultimately show ?case
    using bridge_step_trans by (auto simp: send_bridge_commands_def s run)
qed

text \<open>
  C16: whatever a captured frame holds, the service sends nothing but the command that asks the supervisor
  to bridge the source and the destination of its IPv4 header, on its own socket and to the control path
  of the supervisor, and only if one of the two addresses was announced in an mDNS answer and the
  command was not sent before; it is then remembered.  The text is as stated unless the copy of a word
  failed and NULL was dereferenced.
\<close>

theorem bridge_request_announced:
  assumes "mdns_pcap_callback env os c ifname hdr p h = (c', h')"
  shows "\<exists>new. h' = new @ h \<and>
    (\<forall>sock data to. E_sendto sock data to \<in> set new \<longrightarrow> bridge_request p c c' h' sock data to)"
proof -
  obtain n ts h1 where ext: "extract_packets env (mo_ntop6 os) hdr p ifname h = (n, ts, h1)"
    by (metis prod_cases3)
  have "bridge_step p (c, h) (c, h1)"
    using extract_packets_quiet [OF ext] by (rule bridge_step_quiet)
  moreover have "bridge_step p (c, h1) (send_bridge_commands env os ts (c, h1))"
    using extract_packets_ip4 [OF ext] by (rule send_bridge_commands_step)
  ultimately have "bridge_step p (c, h) (c', h')"
    using assms bridge_step_trans by (auto simp: mdns_pcap_callback_def ext split: if_splits)
  then show ?thesis
    by (auto simp: bridge_step_def)
qed

definition demo_os :: mdns_os where
  "demo_os = \<lparr>mo_peer = (\<lambda>_. AF_OTHER), mo_errno = (\<lambda>_. E_OTHER), mo_ifindex = (\<lambda>_. 1), mo_ntop6 = (\<lambda>_. []),
     mo_info_junk = \<lparr>li_request = MDNS_REQUEST_NONE, li_ttl = 0, li_rrtype = 0, li_qtype = 0, li_name = []\<rparr>, mo_junk = []\<rparr>"

definition demo_mdns :: mdns_context where
  "demo_mdns = \<lparr>mx_rif4 = Some [], mx_rif6 = Some [],
     mx_imap = [([10, 0, 0, 2], [\<lparr>li_request = MDNS_REQUEST_ANSWER, li_ttl = 120, li_rrtype = 1, li_qtype = 0, li_name = ''tv.local.''\<rparr>])],
     mx_vlan_mapper = [], mx_command_mapper = [], mx_reflect_ip4 = True, mx_reflect_ip6 = True,
     mx_supervisor_control_path = ''/tmp/edgesec'', mx_sfd = 5\<rparr>"

text \<open>An IPv4 frame from 10.0.1.7 to 10.0.0.2, and one between addresses that were not announced.\<close>

definition ip4_frame :: "u8 \<Rightarrow> bytes" where
  "ip4_frame host = replicate 12 7 @ [8, 0, 0x45, 0, 0, 20, 0, 0, 0, 0, 64, 0, 0, 0, 10, 0, 1, 7, 10, 0, 0, host]"

theorem bridge_request_announced_witness:
  "\<forall>sock data to. E_sendto sock data to \<notin> set (snd (mdns_pcap_callback ideal_env demo_os demo_mdns ''br0''
     \<lparr>ph_sec = 1, ph_usec = 0, ph_caplen = 34, ph_len = 34\<rparr> (ip4_frame 9) []))"
proof -
  obtain c' h' where run: "mdns_pcap_callback ideal_env demo_os demo_mdns ''br0''
      \<lparr>ph_sec = 1, ph_usec = 0, ph_caplen = 34, ph_len = 34\<rparr> (ip4_frame 9) [] = (c', h')"
    by (cases "mdns_pcap_callback ideal_env demo_os demo_mdns ''br0''
      \<lparr>ph_sec = 1, ph_usec = 0, ph_caplen = 34, ph_len = 34\<rparr> (ip4_frame 9) []")
  have "\<not> announced demo_mdns (bytes4 (ip4_frame 9) 26)" "\<not> announced demo_mdns (bytes4 (ip4_frame 9) 30)"
    by code_simp+
  with bridge_request_announced [OF run] show ?thesis
    by (auto simp: run bridge_request_def)
qed

end
