(* ===== verification/Mdns_Bridge.thy ===== *)
theory Mdns_Bridge
  imports Mdns_Service Supervisor_Safety
begin

text \<open>
  The reflector and the supervisor together: what the mDNS service asks for when it sees a frame, as
  the supervisor reads it from its control socket, and the bridge that results.
\<close>

section \<open>The request, as the supervisor reads it\<close>

lemma ip4_at_clean: "c \<notin> set (ip4_at p i)" if "c \<in> {CHR 0x00, CHR '' '', CHR 0x0A}"
  using ip4_at_chars [of c p i] that by (auto simp: c_isdigit_def)

lemma ip4_at_nonempty [simp]: "ip4_at p i \<noteq> []"
  by (simp add: ip4_at_def)

lemma last_ip4_at: "last (ip4_at p i) \<notin> set rtrim_seps"
proof -
  have "last (ip4_at p i) \<in> set (ip4_at p i)"
    by (rule last_in_set) simp
  moreover have "list_all (\<lambda>c. \<not> c_isdigit c \<and> c \<noteq> CHR ''.'') rtrim_seps"
    by code_simp
  ultimately show ?thesis
    using ip4_at_chars [of "last (ip4_at p i)" p i] by (auto simp: list_all_iff)
qed

lemma bridge_text_read:
  assumes "alloc_total env"
  shows "\<exists>n. process_domain_buffer env (bridge_text (ip4_at p i) (ip4_at q j)) CHR '' '' h =
    (Some [''ADD_BRIDGE'', ip4_at p i, ip4_at q j], replicate n E_malloc @ h)"
proof -
  let ?t = "bridge_text (ip4_at p i) (ip4_at q j)"
  have "CHR 0x00 \<notin> set ?t"
    using ip4_at_clean by (auto simp: bridge_text_def)
  then have "c_str ?t = ?t"
    by (auto simp: c_str_def takeWhile_eq_all_conv)
  moreover have "rtrim ?t = ?t"
    using last_ip4_at [of q j] by (intro rtrim_id disjI2) (simp_all add: bridge_text_def)
  moreover have "split_pieces CHR '' '' ?t = [''ADD_BRIDGE'', ip4_at p i, ip4_at q j]"
  proof -
    have "?t = join_pieces CHR '' '' [''ADD_BRIDGE'', ip4_at p i, ip4_at q j]"
      by (simp add: bridge_text_def)
    moreover have "split_pieces CHR '' '' \<dots> = [''ADD_BRIDGE'', ip4_at p i, ip4_at q j]"
      using ip4_at_clean by (intro split_join) auto
    ultimately show ?thesis
      by (rule trans [OF arg_cong])
  qed
  moreover have "?t \<noteq> []"
    by (simp add: bridge_text_def)
  ultimately show ?thesis
    using assms by (intro exI [of _ 4])
      (simp add: process_domain_buffer_def os_malloc_total split_string_array_total eval_nat_numeral replicate_app_Cons_same)
qed

lemma check_ipv4_ip4_at [simp]: "check_ipv4 (ip4_at p i) h = (True, h)"
  by (simp add: check_ipv4_def validate_ipv4_overrun_def)

lemma bridge_request_dispatched:
  "dispatch_command env sock claddr context [''ADD_BRIDGE'', ip4_at p i, ip4_at q j] h =
   (let (r, context, h) = reply_code env sock claddr (add_bridge_ip_cmd env context (ip4_at p i) (ip4_at q j) h)
    in (if r = - 1 then - 1 else 0, context, h))"
  by (simp add: dispatch_command_def get_command_function_def command_table_def process_add_bridge_cmd_def cmd_arg_def)

section \<open>The bridge\<close>

lemma bridge_pairs_bridges: "bridge_pairs (add_bridge_ip env) c ps h = (r, c', h') \<Longrightarrow> bridge_list c' = bridge_list c"
proof (induction ps arbitrary: c h)
  case (Cons ab ps)
  obtain a b where ab: "ab = (a, b)"
    by (cases ab)
  obtain r1 c1 h1 where one: "add_bridge_ip env c a b h = (r1, c1, h1)"
    by (metis prod_cases3)
  have "bridge_list c1 = bridge_list c"
    using one by (auto simp: add_bridge_ip_def Let_def split: prod.splits if_splits)
  then show ?case
    using Cons one by (auto simp: ab split: if_splits)
qed simp

lemma add_bridge_ip_cmd_bridges:
  assumes env: "alloc_total env" and wf: "bl_wf (bridge_list context)" and ne: "a \<noteq> b"
    and ips: "snd (get_ip_mapper (mac_mapper context) left) = Some a" "snd (get_ip_mapper (mac_mapper context) right) = Some b"
    and run: "add_bridge_ip_cmd env context left right h = (r, context', h')"
  shows "check_bridge_exist (bridge_list context') a b = 1"
proof (cases "(a, b) \<in> bl_edges (bridge_list context)")
  case True
  then show ?thesis
    using run ips check_bridge_exist_iff [OF wf, of a b] by (auto simp: add_bridge_ip_cmd_def)
next
  case False
  obtain r1 ml h1 where add: "add_bridge_mac env (bridge_list context) a b h = (r1, ml, h1)"
    by (metis prod_cases3)
  from add_ret [OF wf env add] have r1: "r1 = 1"
    using ne False by simp
  with add_wf [OF wf add] have "check_bridge_exist ml a b = 1"
    using check_bridge_exist_iff add_edges [OF wf add] by simp
  moreover have "bridge_list context' = ml"
    using run ips False r1 check_bridge_exist_iff [OF wf, of a b]
    by (auto simp: add_bridge_ip_cmd_def add_bridge_mac_cmd_def add Let_def simp del: bridge_pairs.simps
        split: option.splits prod.splits if_splits dest!: bridge_pairs_bridges)
  ultimately show ?thesis
    by simp
qed

section \<open>From a frame to a bridge\<close>

lemma create_domain_command_total:
  assumes "alloc_total env"
  shows "\<exists>n. create_domain_command env a b h = (Some (bridge_text a b), replicate n E_malloc @ h)"
proof -
  have push: "push_words env q ss h = (0, q\<lparr>sq_list := sq_list q @ map Some ss\<rparr>, replicate (2 * length ss) E_malloc @ h)"
    if "sq_max_length q = - 1" for q ss h
    using that
    by (induction ss arbitrary: q h)
      (simp_all add: push_string_queue_total [OF assms] replicate_app_Cons_same)
  have "create_domain_command env a b h =
      concat_string_queue env \<lparr>sq_max_length = - 1, sq_list = map Some [''ADD_BRIDGE'', '' '', a, '' '', b]\<rparr> (- 1)
        (replicate 10 E_malloc @ E_malloc # h)"
    by (simp add: create_domain_command_def init_string_queue_def os_malloc_total [OF assms] push del: push_words.simps)
  also have "\<dots> = (Some (bridge_text a b), replicate 5 E_malloc @ replicate 10 E_malloc @ E_malloc # h)"
    by (subst concat_string_queue_total [OF assms, of _ "[''ADD_BRIDGE'', '' '', a, '' '', b]"]) (simp_all add: bridge_text_def eval_nat_numeral)
  finally show ?thesis
    by (intro exI [of _ 16]) (simp add: eval_nat_numeral)
qed

lemma send_bridge_command_sends:
  assumes env: "alloc_total env" and ann: "announced c (bytes4 p 26) \<or> announced c (bytes4 p 30)"
    and new: "check_command_mapper (mx_command_mapper c) (bridge_text (ip4_at p 26) (ip4_at p 30)) = 0"
    and ip: "ip_src sch = ip4_at p 26" "ip_dst sch = ip4_at p 30"
  shows "E_sendto (mx_sfd c) (bridge_text (ip4_at p 26) (ip4_at p 30)) (supervisor_address c)
    \<in> set (snd (snd (send_bridge_command env os c (PACKET_IP4 sch) h)))"
proof -
  obtain n where cmd: "create_domain_command env (ip4_at p 26) (ip4_at p 30) h =
      (Some (bridge_text (ip4_at p 26) (ip4_at p 30)), replicate n E_malloc @ h)"
    using create_domain_command_total [OF env] by blast
  have "\<not> (check_mdns_mapper_req (mx_imap c) (bytes4 p 26) MDNS_REQUEST_ANSWER = 0 \<and>
      check_mdns_mapper_req (mx_imap c) (bytes4 p 30) MDNS_REQUEST_ANSWER = 0)"
    using ann by (auto simp: announced_def)
  moreover have "md_hash (bytes_of_string (bridge_text (ip4_at p 26) (ip4_at p 30))) \<notin> set (mx_command_mapper c)"
    using new by (auto simp: check_command_mapper_def)
  ultimately show ?thesis
    by (auto simp add: send_bridge_command_def ip cmd new put_command_mapper_def os_malloc_total [OF env] write_domain_data_s_def
        write_socket_data_def write_socket_domain_def supervisor_address_def Let_def)
qed

lemma send_bridge_commands_sends:
  assumes env: "alloc_total env" and ann: "announced c (bytes4 p 26) \<or> announced c (bytes4 p 30)"
    and new: "check_command_mapper (mx_command_mapper c) (bridge_text (ip4_at p 26) (ip4_at p 30)) = 0"
    and ip: "\<And>sch. PACKET_IP4 sch \<in> set tps \<Longrightarrow> ip_src sch = ip4_at p 26 \<and> ip_dst sch = ip4_at p 30"
    and tp: "PACKET_IP4 sch \<in> set tps"
  shows "E_sendto (mx_sfd c) (bridge_text (ip4_at p 26) (ip4_at p 30)) (supervisor_address c)
    \<in> set (snd (send_bridge_commands env os tps (c, h)))"
  using ip tp
proof (induction tps arbitrary: h)
  case (Cons t tps)
  obtain r c1 h1 where one: "send_bridge_command env os c t h = (r, c1, h1)"
    by (metis prod_cases3)
  obtain c2 h2 where rest: "send_bridge_commands env os tps (c1, h1) = (c2, h2)"
    by force
  have eq: "send_bridge_commands env os (t # tps) (c, h) = (c2, h2)"
    using rest by (simp add: send_bridge_commands_def one)
  show ?case
  proof (cases "\<exists>s. t = PACKET_IP4 s")
    case True
    then have "E_sendto (mx_sfd c) (bridge_text (ip4_at p 26) (ip4_at p 30)) (supervisor_address c) \<in> set h1"
      using send_bridge_command_sends [OF env ann new] Cons.prems(1) one by (metis list.set_intros(1) snd_conv)
    moreover have "bridge_step p (c1, h1) (c2, h2)"
      using send_bridge_commands_step [of tps p "(c1, h1)" env os] Cons.prems(1) rest by (metis list.set_intros(2))
    ultimately show ?thesis
      by (auto simp: eq bridge_step_def)
  next
    case False
    then have "c1 = c"
      using one by (auto simp: send_bridge_command_def split: tuple_packet.splits)
    moreover have "PACKET_IP4 sch \<in> set tps"
      using False Cons.prems(2) by auto
    ultimately show ?thesis
      using Cons.IH [of h1] Cons.prems(1) rest eq by auto
  qed
qed simp

lemma ip4_length: "34 \<le> ph \<Longrightarrow> \<not> (ucast (ph :: u32) - 14 :: u64) < 20"
proof -
  assume "34 \<le> ph"
  moreover have "unat ph < 2 ^ 64"
    by (rule order_less_trans [OF unsigned_less]) simp
  ultimately have "34 \<le> unat (ucast ph :: u64)"
    by (simp add: word_le_nat_alt unsigned_ucast_eq take_bit_nat_eq_self)
  then show ?thesis
    by (simp add: word_less_nat_alt unat_sub_if_size word_size)
qed

lemma layer_count: "k \<le> fst (layer d (k, c, h))"
  by (simp add: layer_def split: prod.split)

lemma decode_network_count: "1 \<le> fst (decode_network f p c h)"
  using order_trans [OF _ layer_count] by (simp add: decode_network_def Let_def split: prod.split)

lemma decode_application_count: "k \<le> fst (decode_application p (k, c, h))"
  by (simp add: decode_application_def layer_count split: option.split prod.split)

text \<open>An IPv4 frame that is long enough for its header has an IPv4 record.\<close>

lemma extract_packets_has_ip4:
  assumes env: "alloc_total env" and run: "extract_packets env f hdr p ifname h = (n, ts, h')"
    and frame: "14 \<le> ph_caplen hdr" "34 \<le> ph_len hdr" "ntohs_at p 12 = 0x0800"
  shows "0 < n \<and> (\<exists>sch. PACKET_IP4 sch \<in> set ts)"
proof -
  let ?c = "new_packet env hdr ifname (E_uuid # h)"
  obtain ce he where eth: "decode_eth_packet hdr p ?c (E_uuid # h) = (True, ce, he)" and len: "cp_length ce = ph_len hdr"
    and fresh: "cp_tcp ce = None" "cp_udp ce = None" "cp_eth ce \<noteq> None"
    using frame(1) by (auto simp: decode_eth_packet_def new_packet_def)
  obtain k c1 h2 where net: "decode_network f p ce he = (k, c1, h2)"
    by (metis prod_cases3)
  obtain m c' h1 where app: "decode_application p (k, c1, h2) = (m, c', h1)"
    by (metis prod_cases3)
  obtain ok4 c4 h4 where ip4: "decode_ip4_packet p ce he = (ok4, c4, h4)"
    by (metis prod_cases3)
  have "cp_ip4 c4 \<noteq> None"
    using ip4 ip4_length [OF frame(2)] len by (auto simp: decode_ip4_packet_def Let_def)
  moreover have "cp_ip4 c1 = cp_ip4 c4"
    using net unfolding decode_network_def ip4 frame(3) Let_def prod.case
    by (simp only: prod.inject refl if_True split: if_splits) (blast dest: layer_ip4)+
  moreover have "cp_tcp c1 = None \<or> cp_udp c1 = None"
  proof -
    note [simp] = fresh
    show ?thesis
      using decode_network_shape [OF net] by (elim disjE exE; simp)
  qed
  ultimately obtain sch where "cp_ip4 c' = Some sch"
    using decode_application_ip4 [OF app] by auto
  then have "PACKET_IP4 sch \<in> set (packet_tuples c')" "packet_tuples c' \<noteq> []"
    by (auto simp: packet_tuples_def)
  moreover have "0 < m"
    using decode_network_count [of f p ce he] decode_application_count [of k p c1 h2] by (simp add: net app)
  moreover obtain h3 where "push_tuples env (packet_tuples c') [] h1 = (int (length (packet_tuples c')), packet_tuples c', h3)"
    using push_tuples_total [OF env, of "packet_tuples c'" "[]" h1] by auto
  ultimately show ?thesis
    using run by (auto simp: extract_packets_def decode_packet_def eth net app)
qed



end
