(* ===== verification/Header_Store.thy ===== *)
theory Header_Store
  imports Packet_Decoder
begin

text \<open>
  capture/middlewares/header_middleware (packet_queue.c, sqlite_header.c, header_middleware.c): the
  records decoded from a frame wait in a queue and are written by a timer to one table per protocol.

  A row is the statement that inserted it with the values bound to its parameters, and the database
  the list of its rows.  A parameter that could not be bound is NULL.
\<close>

section \<open>The queue of records\<close>

type_synonym packet_queue = "tuple_packet list"

definition init_packet_queue :: "env \<Rightarrow> hist \<Rightarrow> packet_queue option \<times> hist" where
  "init_packet_queue env h = (let (ok, h) = os_malloc env h in (if ok then Some [] else None, h))"

definition push_packet_queue :: "env \<Rightarrow> packet_queue \<Rightarrow> tuple_packet \<Rightarrow> hist \<Rightarrow> bool \<times> packet_queue \<times> hist" where
  "push_packet_queue env queue tp h =
     (let (el, h) = init_packet_queue env h in if el = None then (False, queue, h) else (True, queue @ [tp], h))"

definition pop_packet_queue :: "packet_queue \<Rightarrow> tuple_packet option" where
  "pop_packet_queue queue = (case queue of [] \<Rightarrow> None | tp # _ \<Rightarrow> Some tp)"

definition get_packet_queue_length :: "packet_queue \<Rightarrow> int" where
  "get_packet_queue_length queue = int (length queue)"

definition is_packet_queue_empty :: "packet_queue \<Rightarrow> int" where
  "is_packet_queue_empty queue = (if queue = [] then 1 else 0)"

text \<open>A record that finds no place is released.\<close>

fun add_packet_queue :: "env \<Rightarrow> tuple_packet list \<Rightarrow> packet_queue \<Rightarrow> hist \<Rightarrow> packet_queue \<times> hist" where
  "add_packet_queue env [] queue h = (queue, h)"
| "add_packet_queue env (tp # tps) queue h =
     (let (ok, queue, h) = push_packet_queue env queue tp h in add_packet_queue env tps queue h)"

section \<open>The tables\<close>

type_synonym header_row = "string \<times> (string \<times> sql_value) list"

type_synonym header_db = "header_row list"

definition ETH_INSERT_INTO :: string where
  "ETH_INSERT_INTO = ''INSERT INTO eth VALUES(@timestamp, @id, @caplen, @length, @ifname, @ether_dhost, @ether_shost, @ether_type);''"

definition ARP_INSERT_INTO :: string where
  "ARP_INSERT_INTO =
     ''INSERT INTO arp VALUES(@id, @ar_hrd, @ar_pro, @ar_hln, @ar_pln, @ar_op, @arp_sha, @arp_spa, @arp_tha, @arp_tpa);''"

definition IP4_INSERT_INTO :: string where
  "IP4_INSERT_INTO = ''INSERT INTO ip4 VALUES(@id, @ip_hl, @ip_v, @ip_tos, @ip_len, @ip_id, '' @
     ''@ip_off, @ip_ttl, @ip_p, @ip_sum, @ip_src, @ip_dst);''"

definition IP6_INSERT_INTO :: string where
  "IP6_INSERT_INTO = ''INSERT INTO ip6 VALUES(@id, @ip6_un1_flow, @ip6_un1_plen, @ip6_un1_nxt, '' @
     ''@ip6_un1_hlim, @ip6_un2_vfc, @ip6_src, @ip6_dst);''"

definition TCP_INSERT_INTO :: string where
  "TCP_INSERT_INTO = ''INSERT INTO tcp VALUES(@id, @source, @dest, @seq, @ack_seq, @res1, @doff, @fin, '' @
     ''@syn, @rst, @psh, @ack, @urg, @window, @check_p, @urg_ptr);''"

definition UDP_INSERT_INTO :: string where
  "UDP_INSERT_INTO = ''INSERT INTO udp VALUES(@id, @source, @dest, @len, @check_p);''"

definition ICMP4_INSERT_INTO :: string where
  "ICMP4_INSERT_INTO = ''INSERT INTO icmp4 VALUES(@id, @type, @code, @checksum, @gateway);''"

definition ICMP6_INSERT_INTO :: string where
  "ICMP6_INSERT_INTO = ''INSERT INTO icmp6 VALUES(@id, @icmp6_type, @icmp6_code, @icmp6_cksum, @icmp6_un_data32);''"

definition DNS_INSERT_INTO :: string where
  "DNS_INSERT_INTO = ''INSERT INTO dns VALUES(@id, @tid, @flags, @nqueries, @nanswers, @nauth, @nother, @qname);''"

definition MDNS_INSERT_INTO :: string where
  "MDNS_INSERT_INTO = ''INSERT INTO mdns VALUES(@id, @tid, @flags, @nqueries, @nanswers, @nauth, @nother, @qname);''"

definition DHCP_INSERT_INTO :: string where
  "DHCP_INSERT_INTO = ''INSERT INTO dhcp VALUES(@id, @op, @htype, @hlen, @hops, @xid, @secs, @flags, '' @
     ''@ciaddr, @yiaddr, @siaddr, @giaddr, @chaddr);''"

text \<open>
  The primary key is the id, with the timestamp in the table eth.  NULL is refused for it in every
  table but arp, where the column may be NULL and NULL equals no key.
\<close>

definition row_key :: "header_row \<Rightarrow> string \<times> sql_value option \<times> sql_value option" where
  "row_key row = (fst row, map_of (snd row) ''@timestamp'', map_of (snd row) ''@id'')"

definition insert_header :: "header_row \<Rightarrow> header_db \<Rightarrow> header_db" where
  "insert_header row db =
     (if map_of (snd row) ''@id'' = Some SqlNull then if fst row = ARP_INSERT_INTO then db @ [row] else db
      else if row_key row \<in> set (map row_key db) then db
      else db @ [row])"

definition header_tables :: "string list" where
  "header_tables =
    [''CREATE TABLE IF NOT EXISTS eth (timestamp INTEGER NOT NULL, id TEXT NOT NULL, caplen INTEGER, '' @
      ''length INTEGER, ifname TEXT, ether_dhost TEXT, ether_shost TEXT, ether_type INTEGER, PRIMARY '' @
      ''KEY (timestamp, id));'',
     ''CREATE TABLE IF NOT EXISTS arp (id TEXT, ar_hrd INTEGER, ar_pro INTEGER, ar_hln INTEGER, '' @
      ''ar_pln INTEGER, ar_op INTEGER, arp_sha TEXT, arp_spa TEXT, arp_tha TEXT, arp_tpa TEXT, PRIMARY '' @
      ''KEY (id));'',
     ''CREATE TABLE IF NOT EXISTS ip4 (id TEXT NOT NULL, ip_hl INTEGER, ip_v INTEGER, ip_tos INTEGER, '' @
      ''ip_len INTEGER, ip_id INTEGER, ip_off INTEGER, ip_ttl INTEGER, ip_p INTEGER, ip_sum INTEGER, '' @
      ''ip_src TEXT, ip_dst TEXT, PRIMARY KEY (id));'',
     ''CREATE TABLE IF NOT EXISTS ip6 (id TEXT NOT NULL, ip6_un1_flow INTEGER, ip6_un1_plen INTEGER, '' @
      ''ip6_un1_nxt INTEGER, ip6_un1_hlim INTEGER, ip6_un2_vfc INTEGER, ip6_src TEXT, ip6_dst TEXT, '' @
      ''PRIMARY KEY (id));'',
     ''CREATE TABLE IF NOT EXISTS tcp (id TEXT NOT NULL, source INTEGER, dest INTEGER, seq INTEGER, '' @
      ''ack_seq INTEGER, res1 INTEGER, doff INTEGER, fin INTEGER, syn INTEGER, rst INTEGER, psh '' @
      ''INTEGER, ack INTEGER, urg INTEGER, window INTEGER, check_p INTEGER, urg_ptr INTEGER, PRIMARY '' @
      ''KEY (id));'',
     ''CREATE TABLE IF NOT EXISTS udp (id TEXT NOT NULL, source INTEGER, dest INTEGER, len INTEGER, '' @
      ''check_p INTEGER, PRIMARY KEY (id));'',
     ''CREATE TABLE IF NOT EXISTS icmp4 (id TEXT NOT NULL, type INTEGER, code INTEGER, checksum '' @
      ''INTEGER, gateway INTEGER, PRIMARY KEY (id));'',
     ''CREATE TABLE IF NOT EXISTS icmp6 (id TEXT NOT NULL, icmp6_type INTEGER, icmp6_code INTEGER, '' @
      ''icmp6_cksum INTEGER, icmp6_un_data32 INTEGER, PRIMARY KEY (id));'',
     ''CREATE TABLE IF NOT EXISTS dns (id TEXT NOT NULL, tid INTEGER, flags INTEGER, nqueries '' @
      ''INTEGER, nanswers INTEGER, nauth INTEGER, nother INTEGER, qname TEXT, PRIMARY KEY (id));'',
     ''CREATE TABLE IF NOT EXISTS mdns (id TEXT NOT NULL, tid INTEGER, flags INTEGER, nqueries '' @
      ''INTEGER, nanswers INTEGER, nauth INTEGER, nother INTEGER, qname TEXT, PRIMARY KEY (id));'',
     ''CREATE TABLE IF NOT EXISTS dhcp (id TEXT NOT NULL, op INTEGER, htype INTEGER, hlen INTEGER, '' @
      ''hops INTEGER, xid INTEGER, secs INTEGER, flags INTEGER, ciaddr TEXT, yiaddr TEXT, siaddr TEXT, '' @
      ''giaddr TEXT, chaddr TEXT, PRIMARY KEY (id));'']"

fun create_tables :: "env \<Rightarrow> string list \<Rightarrow> hist \<Rightarrow> int \<times> hist" where
  "create_tables env [] h = (0, h)"
| "create_tables env (t # ts) h =
     (let h = E_sql_prepare t # h in if env_sql env h then create_tables env ts h else (- 1, h))"

definition init_sqlite_header_db :: "env \<Rightarrow> hist \<Rightarrow> int \<times> hist" where
  "init_sqlite_header_db env h = create_tables env header_tables h"

section \<open>Writing a record\<close>

text \<open>Parameters bound without a look at the result.\<close>

fun bind_each :: "env \<Rightarrow> (string \<times> sql_value) list \<Rightarrow> hist \<Rightarrow> (string \<times> sql_value) list \<times> hist" where
  "bind_each env [] h = ([], h)"
| "bind_each env ((name, v) # bs) h =
     (let h = E_sql_bind name v # h;
          bound = (name, if env_sql env h then v else SqlNull);
          (rest, h) = bind_each env bs h
      in (bound # rest, h))"

definition step_header :: "env \<Rightarrow> header_row \<Rightarrow> header_db \<Rightarrow> hist \<Rightarrow> int \<times> header_db \<times> hist" where
  "step_header env row db h =
     (let h = E_sql_step # h in (0, if env_sql env h then insert_header row db else db, h))"

text \<open>The statements of every table but eth: only the preparation is looked at.\<close>

definition insert_statement ::
  "env \<Rightarrow> string \<Rightarrow> (string \<times> sql_value) list \<Rightarrow> header_db \<Rightarrow> hist \<Rightarrow> int \<times> header_db \<times> hist" where
  "insert_statement env statement bs db h =
     (let h = E_sql_prepare statement # h in
      if \<not> env_sql env h then (- 1, db, h)
      else let (bound, h) = bind_each env bs h in step_header env (statement, bound) db h)"

abbreviation num :: "'a::len word \<Rightarrow> sql_value" where
  "num w \<equiv> SqlInt (uint w)"

text \<open>
  When one of the three numbers cannot be bound the statement is left as it is and false is returned,
  which is the value of success.
\<close>

definition extract_eth_statement :: "env \<Rightarrow> eth_schema \<Rightarrow> header_db \<Rightarrow> hist \<Rightarrow> int \<times> header_db \<times> hist" where
  "extract_eth_statement env eths db h =
     (let h = E_sql_prepare ETH_INSERT_INTO # h in
      if \<not> env_sql env h then (- 1, db, h)
      else let t = SqlInt (sint (eth_timestamp eths)); h = E_sql_bind ''@timestamp'' t # h in
      if \<not> env_sql env h then (0, db, h)
      else let (b1, h) = bind_each env [(''@id'', SqlText (eth_id eths))] h; h = E_sql_bind ''@caplen'' (num (eth_caplen eths)) # h in
      if \<not> env_sql env h then (0, db, h)
      else let h = E_sql_bind ''@length'' (num (eth_length eths)) # h in
      if \<not> env_sql env h then (0, db, h)
      else
        let (b2, h) = bind_each env [(''@ifname'', SqlText (eth_ifname eths)), (''@ether_dhost'', SqlText (ether_dhost eths)),
                        (''@ether_shost'', SqlText (ether_shost eths)), (''@ether_type'', num (ether_type eths))] h
        in step_header env (ETH_INSERT_INTO, (''@timestamp'', t) # b1 @
             [(''@caplen'', num (eth_caplen eths)), (''@length'', num (eth_length eths))] @ b2) db h)"

definition extract_arp_statement :: "env \<Rightarrow> arp_schema \<Rightarrow> header_db \<Rightarrow> hist \<Rightarrow> int \<times> header_db \<times> hist" where
  "extract_arp_statement env arps =
     insert_statement env ARP_INSERT_INTO
       [(''@id'', SqlText (arp_id arps)), (''@ar_hrd'', num (ar_hrd arps)), (''@ar_pro'', num (ar_pro arps)),
        (''@ar_hln'', num (ar_hln arps)), (''@ar_pln'', num (ar_pln arps)), (''@ar_op'', num (ar_op arps)),
        (''@arp_sha'', SqlText (arp_sha arps)), (''@arp_spa'', SqlText (arp_spa arps)),
        (''@arp_tha'', SqlText (arp_tha arps)), (''@arp_tpa'', SqlText (arp_tpa arps))]"

definition extract_ip4_statement :: "env \<Rightarrow> ip4_schema \<Rightarrow> header_db \<Rightarrow> hist \<Rightarrow> int \<times> header_db \<times> hist" where
  "extract_ip4_statement env ip4s =
     insert_statement env IP4_INSERT_INTO
       [(''@id'', SqlText (ip4_id ip4s)), (''@ip_hl'', num (ip_hl ip4s)), (''@ip_v'', num (ip_v ip4s)),
        (''@ip_tos'', num (ip_tos ip4s)), (''@ip_len'', num (ip_len ip4s)), (''@ip_id'', num (ip_id ip4s)),
        (''@ip_off'', num (ip_off ip4s)), (''@ip_ttl'', num (ip_ttl ip4s)), (''@ip_p'', num (ip_p ip4s)),
        (''@ip_sum'', num (ip_sum ip4s)), (''@ip_src'', SqlText (ip_src ip4s)), (''@ip_dst'', SqlText (ip_dst ip4s))]"

definition extract_ip6_statement :: "env \<Rightarrow> ip6_schema \<Rightarrow> header_db \<Rightarrow> hist \<Rightarrow> int \<times> header_db \<times> hist" where
  "extract_ip6_statement env ip6s =
     insert_statement env IP6_INSERT_INTO
       [(''@id'', SqlText (ip6_id ip6s)), (''@ip6_un1_flow'', num (ip6_un1_flow ip6s)),
        (''@ip6_un1_plen'', num (ip6_un1_plen ip6s)), (''@ip6_un1_nxt'', num (ip6_un1_nxt ip6s)),
        (''@ip6_un1_hlim'', num (ip6_un1_hlim ip6s)), (''@ip6_un2_vfc'', num (ip6_un2_vfc ip6s)),
        (''@ip6_src'', SqlText (ip6_src ip6s)), (''@ip6_dst'', SqlText (ip6_dst ip6s))]"

abbreviation tcp_flag :: "tcp_schema \<Rightarrow> nat \<Rightarrow> sql_value" where
  "tcp_flag tcps i \<equiv> SqlInt (of_bool (tcp_flags tcps ! i))"

definition extract_tcp_statement :: "env \<Rightarrow> tcp_schema \<Rightarrow> header_db \<Rightarrow> hist \<Rightarrow> int \<times> header_db \<times> hist" where
  "extract_tcp_statement env tcps =
     insert_statement env TCP_INSERT_INTO
       [(''@id'', SqlText (tcp_id tcps)), (''@source'', num (tcp_source tcps)), (''@dest'', num (tcp_dest tcps)),
        (''@seq'', num (tcp_seq tcps)), (''@ack_seq'', num (tcp_ack_seq tcps)), (''@res1'', num (tcp_res1 tcps)),
        (''@doff'', num (tcp_doff tcps)), (''@fin'', tcp_flag tcps 0), (''@syn'', tcp_flag tcps 1),
        (''@rst'', tcp_flag tcps 2), (''@psh'', tcp_flag tcps 3), (''@ack'', tcp_flag tcps 4),
        (''@urg'', tcp_flag tcps 5), (''@window'', num (tcp_window tcps)), (''@check_p'', num (tcp_check_p tcps)),
        (''@urg_ptr'', num (tcp_urg_ptr tcps))]"

definition extract_udp_statement :: "env \<Rightarrow> udp_schema \<Rightarrow> header_db \<Rightarrow> hist \<Rightarrow> int \<times> header_db \<times> hist" where
  "extract_udp_statement env udps =
     insert_statement env UDP_INSERT_INTO
       [(''@id'', SqlText (udp_id udps)), (''@source'', num (udp_source udps)), (''@dest'', num (udp_dest udps)),
        (''@len'', num (udp_len udps)), (''@check_p'', num (udp_check_p udps))]"

definition extract_icmp4_statement :: "env \<Rightarrow> icmp_schema \<Rightarrow> header_db \<Rightarrow> hist \<Rightarrow> int \<times> header_db \<times> hist" where
  "extract_icmp4_statement env icmp4s =
     insert_statement env ICMP4_INSERT_INTO
       [(''@id'', SqlText (icmp_id icmp4s)), (''@type'', num (icmp_type icmp4s)), (''@code'', num (icmp_code icmp4s)),
        (''@checksum'', num (icmp_checksum icmp4s)), (''@gateway'', num (icmp_data icmp4s))]"

definition extract_icmp6_statement :: "env \<Rightarrow> icmp_schema \<Rightarrow> header_db \<Rightarrow> hist \<Rightarrow> int \<times> header_db \<times> hist" where
  "extract_icmp6_statement env icmp6s =
     insert_statement env ICMP6_INSERT_INTO
       [(''@id'', SqlText (icmp_id icmp6s)), (''@icmp6_type'', num (icmp_type icmp6s)), (''@icmp6_code'', num (icmp_code icmp6s)),
        (''@icmp6_cksum'', num (icmp_checksum icmp6s)), (''@icmp6_un_data32'', num (icmp_data icmp6s))]"

abbreviation dns_bindings :: "dns_schema \<Rightarrow> (string \<times> sql_value) list" where
  "dns_bindings s \<equiv>
     [(''@id'', SqlText (dns_id s)), (''@tid'', num (mh_tid (dns_header s))), (''@flags'', num (mh_flags (dns_header s))),
      (''@nqueries'', num (mh_nqueries (dns_header s))), (''@nanswers'', num (mh_nanswers (dns_header s))),
      (''@nauth'', num (mh_nauth (dns_header s))), (''@nother'', num (mh_nother (dns_header s))),
      (''@qname'', SqlText (dns_qname s))]"

definition extract_dns_statement :: "env \<Rightarrow> dns_schema \<Rightarrow> header_db \<Rightarrow> hist \<Rightarrow> int \<times> header_db \<times> hist" where
  "extract_dns_statement env dnss = insert_statement env DNS_INSERT_INTO (dns_bindings dnss)"

definition extract_mdsn_statement :: "env \<Rightarrow> dns_schema \<Rightarrow> header_db \<Rightarrow> hist \<Rightarrow> int \<times> header_db \<times> hist" where
  "extract_mdsn_statement env mdnss = insert_statement env MDNS_INSERT_INTO (dns_bindings mdnss)"

text \<open>The decoder never fills the client address, which is the empty text of the zeroed record.\<close>

definition extract_dhcp_statement :: "env \<Rightarrow> dhcp_schema \<Rightarrow> header_db \<Rightarrow> hist \<Rightarrow> int \<times> header_db \<times> hist" where
  "extract_dhcp_statement env dhcps =
     insert_statement env DHCP_INSERT_INTO
       [(''@id'', SqlText (dhcp_id dhcps)), (''@op'', num (dhcp_op dhcps)), (''@htype'', num (dhcp_htype dhcps)),
        (''@hlen'', num (dhcp_hlen dhcps)), (''@hops'', num (dhcp_hops dhcps)), (''@xid'', num (dhcp_xid dhcps)),
        (''@secs'', num (dhcp_secs dhcps)), (''@flags'', num (dhcp_flags dhcps)), (''@ciaddr'', SqlText (dhcp_ciaddr dhcps)),
        (''@yiaddr'', SqlText (dhcp_yiaddr dhcps)), (''@siaddr'', SqlText (dhcp_siaddr dhcps)),
        (''@giaddr'', SqlText (dhcp_giaddr dhcps)), (''@chaddr'', SqlText [])]"

definition save_packet_statement :: "env \<Rightarrow> header_db \<Rightarrow> tuple_packet \<Rightarrow> hist \<Rightarrow> int \<times> header_db \<times> hist" where
  "save_packet_statement env db tp h =
     (case tp of
        PACKET_ETHERNET s \<Rightarrow> extract_eth_statement env s db h
      | PACKET_ARP s \<Rightarrow> extract_arp_statement env s db h
      | PACKET_IP4 s \<Rightarrow> extract_ip4_statement env s db h
      | PACKET_IP6 s \<Rightarrow> extract_ip6_statement env s db h
      | PACKET_TCP s \<Rightarrow> extract_tcp_statement env s db h
      | PACKET_UDP s \<Rightarrow> extract_udp_statement env s db h
      | PACKET_ICMP4 s \<Rightarrow> extract_icmp4_statement env s db h
      | PACKET_ICMP6 s \<Rightarrow> extract_icmp6_statement env s db h
      | PACKET_DNS s \<Rightarrow> extract_dns_statement env s db h
      | PACKET_MDNS s \<Rightarrow> extract_mdsn_statement env s db h
      | PACKET_DHCP s \<Rightarrow> extract_dhcp_statement env s db h)"

section \<open>The middleware\<close>

fun save_headers :: "env \<Rightarrow> header_db \<Rightarrow> packet_queue \<Rightarrow> hist \<Rightarrow> header_db \<times> hist" where
  "save_headers env db [] h = (db, h)"
| "save_headers env db (tp # queue) h =
     (let (r, db, h) = save_packet_statement env db tp h in save_headers env db queue h)"

definition eloop_tout_header_handler ::
  "env \<Rightarrow> header_db \<Rightarrow> packet_queue \<Rightarrow> hist \<Rightarrow> packet_queue \<times> header_db \<times> hist" where
  "eloop_tout_header_handler env db queue h =
     (let (db, h) = save_headers env db queue h in ([], db, E_timeout 0 # h))"

definition process_header_middleware ::
  "env \<Rightarrow> (bytes \<Rightarrow> string) \<Rightarrow> packet_queue \<Rightarrow> pcap_pkthdr \<Rightarrow> bytes \<Rightarrow> string \<Rightarrow> hist \<Rightarrow> int \<times> packet_queue \<times> hist" where
  "process_header_middleware env ntop6 queue header packet ifname h =
     (let (npackets, tp_array, h) = extract_packets env ntop6 header packet ifname h;
          (queue, h) = (if 0 < npackets then add_packet_queue env tp_array queue h else (queue, h))
      in (0, queue, h))"

text \<open>The queue of a new middleware.\<close>

definition init_header_middleware :: "env \<Rightarrow> hist \<Rightarrow> packet_queue option \<times> hist" where
  "init_header_middleware env h =
     (let (ok, h) = os_malloc env h in
      if \<not> ok then (None, h)
      else let (queue, h) = init_packet_queue env h in
      if queue = None then (None, h)
      else let (r, h) = init_sqlite_header_db env h in
      if r < 0 then (None, h)
      else let h = E_timeout 0 # h in (if env_timeout env h then queue else None, h))"

section \<open>The id of a frame\<close>

definition tuple_id :: "tuple_packet \<Rightarrow> string" where
  "tuple_id tp =
     (case tp of
        PACKET_ETHERNET s \<Rightarrow> eth_id s | PACKET_ARP s \<Rightarrow> arp_id s | PACKET_IP4 s \<Rightarrow> ip4_id s | PACKET_IP6 s \<Rightarrow> ip6_id s
      | PACKET_TCP s \<Rightarrow> tcp_id s | PACKET_UDP s \<Rightarrow> udp_id s | PACKET_ICMP4 s \<Rightarrow> icmp_id s | PACKET_ICMP6 s \<Rightarrow> icmp_id s
      | PACKET_DNS s \<Rightarrow> dns_id s | PACKET_MDNS s \<Rightarrow> dns_id s | PACKET_DHCP s \<Rightarrow> dhcp_id s)"

definition tuple_of :: "string \<Rightarrow> tuple_packet \<Rightarrow> bool" where
  "tuple_of i tp \<longleftrightarrow> tuple_id tp = i \<and> (case tp of PACKET_TCP s \<Rightarrow> length (tcp_flags s) = 6 | _ \<Rightarrow> True)"

definition ids :: "capture_packet \<Rightarrow> bool" where
  "ids c \<longleftrightarrow> (\<forall>tp \<in> set (packet_tuples c). tuple_of (cp_id c) tp)"

lemma set_one: "set (one f x) = f ` set_option x"
  by (cases x) simp_all

lemma ids_iff:
  "ids c \<longleftrightarrow>
     (\<forall>s \<in> set_option (cp_eth c). eth_id s = cp_id c) \<and> (\<forall>s \<in> set_option (cp_arp c). arp_id s = cp_id c) \<and>
     (\<forall>s \<in> set_option (cp_ip4 c). ip4_id s = cp_id c) \<and> (\<forall>s \<in> set_option (cp_ip6 c). ip6_id s = cp_id c) \<and>
     (\<forall>s \<in> set_option (cp_tcp c). tcp_id (snd s) = cp_id c \<and> length (tcp_flags (snd s)) = 6) \<and>
     (\<forall>s \<in> set_option (cp_udp c). udp_id (snd s) = cp_id c) \<and>
     (\<forall>s \<in> set_option (cp_icmp4 c). icmp_id s = cp_id c) \<and> (\<forall>s \<in> set_option (cp_icmp6 c). icmp_id s = cp_id c) \<and>
     (\<forall>s \<in> set_option (cp_dns c). dns_id s = cp_id c) \<and> (\<forall>s \<in> set_option (cp_mdns c). dns_id s = cp_id c) \<and>
     (\<forall>s \<in> set_option (cp_dhcp c). dhcp_id s = cp_id c)"
  by (simp only: ids_def packet_tuples_def set_append set_one ball_Un ball_simps option.set_map)
    (simp add: tuple_of_def tuple_id_def)

text \<open>A decoder keeps the id of the packet and gives it to the record it fills.\<close>

definition same_ids :: "capture_packet \<Rightarrow> 'a \<times> capture_packet \<times> hist \<Rightarrow> bool" where
  "same_ids c r \<longleftrightarrow> cp_id (fst (snd r)) = cp_id c \<and> (ids c \<longrightarrow> ids (fst (snd r)))"

lemma same_ids_trans: "same_ids c (r, c', h) \<Longrightarrow> same_ids c' s \<Longrightarrow> same_ids c s"
  by (simp add: same_ids_def)

lemma same_ids_refl: "same_ids c (r, c, h)"
  by (simp add: same_ids_def)

lemma same_ids_eth: "same_ids c (decode_eth_packet hdr p c h)"
  by (simp add: same_ids_def ids_iff decode_eth_packet_def)

lemma same_ids_arp: "same_ids c (decode_arp_packet p c h)"
  by (simp add: same_ids_def ids_iff decode_arp_packet_def)

lemma same_ids_ip4: "same_ids c (decode_ip4_packet p c h)"
  by (simp add: same_ids_def ids_iff decode_ip4_packet_def Let_def)

lemma same_ids_ip6: "same_ids c (decode_ip6_packet ntop6 p c h)"
  by (simp add: same_ids_def ids_iff decode_ip6_packet_def Let_def)

lemma same_ids_udp: "same_ids c (decode_udp_packet p c h)"
  by (simp add: same_ids_def ids_iff decode_udp_packet_def split: option.split)

lemma same_ids_tcp: "same_ids c (decode_tcp_packet p c h)"
  by (simp add: same_ids_def ids_iff decode_tcp_packet_def split: option.split)

lemma same_ids_icmp4: "same_ids c (decode_icmp4_packet p c h)"
  by (simp add: same_ids_def ids_iff decode_icmp4_packet_def icmp_at_def)

lemma same_ids_icmp6: "same_ids c (decode_icmp6_packet p c h)"
  by (simp add: same_ids_def ids_iff decode_icmp6_packet_def icmp_at_def)

lemma same_ids_dns: "same_ids c (decode_dns_packet p c h)"
  by (simp add: same_ids_def ids_iff decode_dns_packet_def Let_def split: option.split prod.split)

lemma same_ids_mdns: "same_ids c (decode_mdns_packet p c h)"
  by (simp add: same_ids_def ids_iff decode_mdns_packet_def split: option.split prod.split)

lemma same_ids_dhcp: "same_ids c (decode_dhcp_packet p c h)"
  by (simp add: same_ids_def ids_iff decode_dhcp_packet_def Let_def split: option.split prod.split)

lemma same_ids_layer:
  assumes "\<And>c h. same_ids c (f c h)"
  shows "same_ids c (layer f (n, c, h))"
  using assms [of c h] by (cases "f c h") (simp add: layer_def same_ids_def)

lemmas same_ids_decoders = same_ids_tcp same_ids_udp same_ids_icmp4 same_ids_icmp6 same_ids_arp same_ids_dns same_ids_mdns
  same_ids_dhcp

lemmas same_ids_layers = same_ids_decoders [THEN same_ids_layer]

lemma same_ids_network: "same_ids c (decode_network ntop6 p c h)"
proof -
  obtain ok4 c4 h4 where 4: "decode_ip4_packet p c h = (ok4, c4, h4)"
    by (metis prod_cases3)
  obtain ok6 c6 h6 where 6: "decode_ip6_packet ntop6 p c h = (ok6, c6, h6)"
    by (metis prod_cases3)
  note step = same_ids_trans [OF same_ids_ip4 [of c p h, unfolded 4]] same_ids_trans [OF same_ids_ip6 [of c ntop6 p h, unfolded 6]]
  show ?thesis
    by (simp add: decode_network_def 4 6 Let_def same_ids_refl same_ids_layers step)
qed

lemma same_ids_application: "same_ids c (decode_application p (n, c, h))"
  by (simp add: decode_application_def same_ids_refl same_ids_layers split: option.split prod.split)

lemma same_ids_packet: "same_ids c (decode_packet ntop6 hdr p c h)"
proof -
  obtain ok ce he where e: "decode_eth_packet hdr p c h = (ok, ce, he)"
    by (metis prod_cases3)
  obtain n cn hn where n: "decode_network ntop6 p ce he = (n, cn, hn)"
    by (metis prod_cases3)
  have "same_ids c (ok, ce, he)" "same_ids ce (n, cn, hn)"
    using same_ids_eth [of c hdr p h] same_ids_network [of ce ntop6 p he] by (simp_all add: e n)
  then show ?thesis
    using same_ids_application [of cn p n hn]
    by (auto simp: decode_packet_def e n same_ids_def)
qed

lemma extract_packets_ids:
  assumes "extract_packets env ntop6 hdr p ifname h = (r, ts, h')"
  shows "\<forall>tp \<in> set ts. tuple_of (env_uuid env (E_uuid # h)) tp"
proof -
  let ?c = "new_packet env hdr ifname (E_uuid # h)"
  obtain n c h1 where d: "decode_packet ntop6 hdr p ?c (E_uuid # h) = (n, c, h1)"
    by (metis prod_cases3)
  have new: "ids ?c" "cp_id ?c = env_uuid env (E_uuid # h)"
    by (simp_all add: ids_iff new_packet_def)
  have "ids c \<and> cp_id c = env_uuid env (E_uuid # h)"
    using same_ids_packet [of ?c ntop6 hdr p "E_uuid # h"] new by (simp add: d same_ids_def)
  moreover have "set ts \<subseteq> set (packet_tuples c)"
  proof (cases "0 < n")
    case True
    then show ?thesis
      using assms push_tuples_prefix [of env "packet_tuples c" "[]" h1] d
      by (fastforce simp: extract_packets_def Let_def dest: set_mono_prefix)
  qed (use assms d in \<open>simp add: extract_packets_def\<close>)
  ultimately show ?thesis
    by (auto simp: ids_def)
qed

section \<open>The rows of a frame\<close>

text \<open>The parameters of a statement, in the order of the columns.\<close>

fun sql_params :: "string \<Rightarrow> string list" where
  "sql_params [] = []"
| "sql_params (c # cs) =
     (if c = CHR ''@'' then (c # takeWhile (\<lambda>d. d \<notin> set '',)'') cs) # sql_params cs else sql_params cs)"

definition header_statement :: "tuple_packet \<Rightarrow> string" where
  "header_statement tp =
     (case tp of
        PACKET_ETHERNET _ \<Rightarrow> ETH_INSERT_INTO | PACKET_ARP _ \<Rightarrow> ARP_INSERT_INTO | PACKET_IP4 _ \<Rightarrow> IP4_INSERT_INTO
      | PACKET_IP6 _ \<Rightarrow> IP6_INSERT_INTO | PACKET_TCP _ \<Rightarrow> TCP_INSERT_INTO | PACKET_UDP _ \<Rightarrow> UDP_INSERT_INTO
      | PACKET_ICMP4 _ \<Rightarrow> ICMP4_INSERT_INTO | PACKET_ICMP6 _ \<Rightarrow> ICMP6_INSERT_INTO | PACKET_DNS _ \<Rightarrow> DNS_INSERT_INTO
      | PACKET_MDNS _ \<Rightarrow> MDNS_INSERT_INTO | PACKET_DHCP _ \<Rightarrow> DHCP_INSERT_INTO)"

text \<open>A row read by the names of its columns, as a record of the same protocol.\<close>

definition col_text :: "(string \<times> sql_value) list \<Rightarrow> string \<Rightarrow> string" where
  "col_text bs c = (case map_of bs c of Some (SqlText s) \<Rightarrow> s | _ \<Rightarrow> [])"

definition col_word :: "(string \<times> sql_value) list \<Rightarrow> string \<Rightarrow> 'a::len word" where
  "col_word bs c = (case map_of bs c of Some (SqlInt i) \<Rightarrow> word_of_int i | _ \<Rightarrow> 0)"

definition col_flag :: "(string \<times> sql_value) list \<Rightarrow> string \<Rightarrow> bool" where
  "col_flag bs c \<longleftrightarrow> map_of bs c = Some (SqlInt 1)"

definition read_icmp :: "(string \<times> sql_value) list \<Rightarrow> string list \<Rightarrow> icmp_schema" where
  "read_icmp bs cs = \<lparr>icmp_id = col_text bs ''@id'', icmp_type = col_word bs (cs ! 0), icmp_code = col_word bs (cs ! 1),
     icmp_checksum = col_word bs (cs ! 2), icmp_data = col_word bs (cs ! 3)\<rparr>"

definition read_dns :: "(string \<times> sql_value) list \<Rightarrow> dns_schema" where
  "read_dns bs = \<lparr>dns_id = col_text bs ''@id'', dns_header = \<lparr>mh_tid = col_word bs ''@tid'', mh_flags = col_word bs ''@flags'',
     mh_nqueries = col_word bs ''@nqueries'', mh_nanswers = col_word bs ''@nanswers'', mh_nauth = col_word bs ''@nauth'',
     mh_nother = col_word bs ''@nother''\<rparr>, dns_qname = col_text bs ''@qname''\<rparr>"

definition read_as :: "tuple_packet \<Rightarrow> (string \<times> sql_value) list \<Rightarrow> tuple_packet" where
  "read_as tp bs =
     (case tp of
        PACKET_ETHERNET _ \<Rightarrow> PACKET_ETHERNET \<lparr>eth_timestamp = col_word bs ''@timestamp'', eth_id = col_text bs ''@id'',
          eth_caplen = col_word bs ''@caplen'', eth_length = col_word bs ''@length'', eth_ifname = col_text bs ''@ifname'',
          ether_dhost = col_text bs ''@ether_dhost'', ether_shost = col_text bs ''@ether_shost'', ether_type = col_word bs ''@ether_type''\<rparr>
      | PACKET_ARP _ \<Rightarrow> PACKET_ARP \<lparr>arp_id = col_text bs ''@id'', ar_hrd = col_word bs ''@ar_hrd'', ar_pro = col_word bs ''@ar_pro'',
          ar_hln = col_word bs ''@ar_hln'', ar_pln = col_word bs ''@ar_pln'', ar_op = col_word bs ''@ar_op'', arp_sha = col_text bs ''@arp_sha'',
          arp_spa = col_text bs ''@arp_spa'', arp_tha = col_text bs ''@arp_tha'', arp_tpa = col_text bs ''@arp_tpa''\<rparr>
      | PACKET_IP4 _ \<Rightarrow> PACKET_IP4 \<lparr>ip4_id = col_text bs ''@id'', ip_src = col_text bs ''@ip_src'', ip_dst = col_text bs ''@ip_dst'',
          ip_hl = col_word bs ''@ip_hl'', ip_v = col_word bs ''@ip_v'', ip_tos = col_word bs ''@ip_tos'', ip_len = col_word bs ''@ip_len'',
          ip_id = col_word bs ''@ip_id'', ip_off = col_word bs ''@ip_off'', ip_ttl = col_word bs ''@ip_ttl'', ip_p = col_word bs ''@ip_p'',
          ip_sum = col_word bs ''@ip_sum''\<rparr>
      | PACKET_IP6 _ \<Rightarrow> PACKET_IP6 \<lparr>ip6_id = col_text bs ''@id'', ip6_un1_flow = col_word bs ''@ip6_un1_flow'',
          ip6_un1_plen = col_word bs ''@ip6_un1_plen'', ip6_un1_nxt = col_word bs ''@ip6_un1_nxt'', ip6_un1_hlim = col_word bs ''@ip6_un1_hlim'',
          ip6_un2_vfc = col_word bs ''@ip6_un2_vfc'', ip6_src = col_text bs ''@ip6_src'', ip6_dst = col_text bs ''@ip6_dst''\<rparr>
      | PACKET_TCP _ \<Rightarrow> PACKET_TCP \<lparr>tcp_id = col_text bs ''@id'', tcp_source = col_word bs ''@source'', tcp_dest = col_word bs ''@dest'',
          tcp_seq = col_word bs ''@seq'', tcp_ack_seq = col_word bs ''@ack_seq'', tcp_res1 = col_word bs ''@res1'', tcp_doff = col_word bs ''@doff'',
          tcp_flags = map (col_flag bs) [''@fin'', ''@syn'', ''@rst'', ''@psh'', ''@ack'', ''@urg''], tcp_window = col_word bs ''@window'',
          tcp_check_p = col_word bs ''@check_p'', tcp_urg_ptr = col_word bs ''@urg_ptr''\<rparr>
      | PACKET_UDP _ \<Rightarrow> PACKET_UDP \<lparr>udp_id = col_text bs ''@id'', udp_source = col_word bs ''@source'', udp_dest = col_word bs ''@dest'',
          udp_len = col_word bs ''@len'', udp_check_p = col_word bs ''@check_p''\<rparr>
      | PACKET_ICMP4 _ \<Rightarrow> PACKET_ICMP4 (read_icmp bs [''@type'', ''@code'', ''@checksum'', ''@gateway''])
      | PACKET_ICMP6 _ \<Rightarrow> PACKET_ICMP6 (read_icmp bs [''@icmp6_type'', ''@icmp6_code'', ''@icmp6_cksum'', ''@icmp6_un_data32''])
      | PACKET_DNS _ \<Rightarrow> PACKET_DNS (read_dns bs)
      | PACKET_MDNS _ \<Rightarrow> PACKET_MDNS (read_dns bs)
      | PACKET_DHCP _ \<Rightarrow> PACKET_DHCP \<lparr>dhcp_id = col_text bs ''@id'', dhcp_op = col_word bs ''@op'', dhcp_htype = col_word bs ''@htype'',
          dhcp_hlen = col_word bs ''@hlen'', dhcp_hops = col_word bs ''@hops'', dhcp_xid = col_word bs ''@xid'', dhcp_secs = col_word bs ''@secs'',
          dhcp_flags = col_word bs ''@flags'', dhcp_ciaddr = col_text bs ''@ciaddr'', dhcp_yiaddr = col_text bs ''@yiaddr'',
          dhcp_siaddr = col_text bs ''@siaddr'', dhcp_giaddr = col_text bs ''@giaddr''\<rparr>)"

text \<open>
  A record is stored as a row of its table when every column has a value, the id is the one of the
  frame, and the columns read back give the record.
\<close>

definition stored_as :: "string \<Rightarrow> tuple_packet \<Rightarrow> header_row \<Rightarrow> bool" where
  "stored_as i tp row \<longleftrightarrow>
     fst row = header_statement tp \<and> map fst (snd row) = sql_params (fst row) \<and> SqlNull \<notin> snd ` set (snd row) \<and>
     map_of (snd row) ''@id'' = Some (SqlText i) \<and> read_as tp (snd row) = tp"

lemma sql_params_statements:
  "sql_params ETH_INSERT_INTO = [''@timestamp'', ''@id'', ''@caplen'', ''@length'', ''@ifname'', ''@ether_dhost'', ''@ether_shost'', ''@ether_type'']"
  "sql_params ARP_INSERT_INTO = [''@id'', ''@ar_hrd'', ''@ar_pro'', ''@ar_hln'', ''@ar_pln'', ''@ar_op'', ''@arp_sha'', ''@arp_spa'', ''@arp_tha'', ''@arp_tpa'']"
  "sql_params IP4_INSERT_INTO = [''@id'', ''@ip_hl'', ''@ip_v'', ''@ip_tos'', ''@ip_len'', ''@ip_id'', ''@ip_off'', ''@ip_ttl'', ''@ip_p'', ''@ip_sum'', ''@ip_src'', ''@ip_dst'']"
  "sql_params IP6_INSERT_INTO = [''@id'', ''@ip6_un1_flow'', ''@ip6_un1_plen'', ''@ip6_un1_nxt'', ''@ip6_un1_hlim'', ''@ip6_un2_vfc'', ''@ip6_src'', ''@ip6_dst'']"
  "sql_params TCP_INSERT_INTO = [''@id'', ''@source'', ''@dest'', ''@seq'', ''@ack_seq'', ''@res1'', ''@doff'', ''@fin'', ''@syn'', ''@rst'', ''@psh'', ''@ack'', ''@urg'', ''@window'', ''@check_p'', ''@urg_ptr'']"
  "sql_params UDP_INSERT_INTO = [''@id'', ''@source'', ''@dest'', ''@len'', ''@check_p'']"
  "sql_params ICMP4_INSERT_INTO = [''@id'', ''@type'', ''@code'', ''@checksum'', ''@gateway'']"
  "sql_params ICMP6_INSERT_INTO = [''@id'', ''@icmp6_type'', ''@icmp6_code'', ''@icmp6_cksum'', ''@icmp6_un_data32'']"
  "sql_params DNS_INSERT_INTO = [''@id'', ''@tid'', ''@flags'', ''@nqueries'', ''@nanswers'', ''@nauth'', ''@nother'', ''@qname'']"
  "sql_params MDNS_INSERT_INTO = [''@id'', ''@tid'', ''@flags'', ''@nqueries'', ''@nanswers'', ''@nauth'', ''@nother'', ''@qname'']"
  "sql_params DHCP_INSERT_INTO = [''@id'', ''@op'', ''@htype'', ''@hlen'', ''@hops'', ''@xid'', ''@secs'', ''@flags'', ''@ciaddr'', ''@yiaddr'', ''@siaddr'', ''@giaddr'', ''@chaddr'']"
  by code_simp+

lemma statements_distinct:
  "distinct [ETH_INSERT_INTO, ARP_INSERT_INTO, IP4_INSERT_INTO, IP6_INSERT_INTO, TCP_INSERT_INTO, UDP_INSERT_INTO,
     ICMP4_INSERT_INTO, ICMP6_INSERT_INTO, DNS_INSERT_INTO, MDNS_INSERT_INTO, DHCP_INSERT_INTO]"
  by code_simp

lemma bind_each_total: "sql_total env \<Longrightarrow> \<exists>h'. bind_each env bs h = (bs, h')"
proof (induction bs arbitrary: h)
  case (Cons b bs)
  obtain name v where b: "b = (name, v)"
    by fastforce
  from Cons.IH [OF Cons.prems, of "E_sql_bind name v # h"] show ?case
    using Cons.prems by (auto simp: b sql_total_def Let_def)
qed simp

lemma insert_statement_total:
  assumes "sql_total env"
  shows "\<exists>h'. insert_statement env st bs db h = (0, insert_header (st, bs) db, h')"
proof -
  obtain h' where "bind_each env bs (E_sql_prepare st # h) = (bs, h')"
    using bind_each_total [OF assms] by blast
  then show ?thesis
    using assms by (simp add: insert_statement_def step_header_def sql_total_def Let_def)
qed

lemmas stored_simps = stored_as_def header_statement_def sql_params_statements tuple_id_def read_as_def read_dns_def
  read_icmp_def col_text_def col_word_def col_flag_def

lemma six_nth: "length xs = 6 \<Longrightarrow> [xs ! 0, xs ! 1, xs ! 2, xs ! 3, xs ! 4, xs ! 5] = xs"
  by (auto simp: length_Suc_conv eval_nat_numeral)

lemma save_eth_total:
  assumes "sql_total env"
  shows "\<exists>row h'. extract_eth_statement env s db h = (0, insert_header row db, h') \<and> stored_as (eth_id s) (PACKET_ETHERNET s) row"
proof -
  have ok: "env_sql env = (\<lambda>_. True)"
    using assms by (simp add: sql_total_def)
  let ?h = "\<lambda>h. E_sql_bind ''@timestamp'' (SqlInt (sint (eth_timestamp s))) # E_sql_prepare ETH_INSERT_INTO # h"
  obtain h1 where b1: "bind_each env [(''@id'', SqlText (eth_id s))] (?h h) = ([(''@id'', SqlText (eth_id s))], h1)"
    using bind_each_total [OF assms] by blast
  let ?b2 = "[(''@ifname'', SqlText (eth_ifname s)), (''@ether_dhost'', SqlText (ether_dhost s)),
     (''@ether_shost'', SqlText (ether_shost s)), (''@ether_type'', num (ether_type s))]"
  obtain h2 where b2: "bind_each env ?b2 (E_sql_bind ''@length'' (num (eth_length s)) #
      E_sql_bind ''@caplen'' (num (eth_caplen s)) # h1) = (?b2, h2)"
    using bind_each_total [OF assms] by blast
  let ?row = "(ETH_INSERT_INTO, (''@timestamp'', SqlInt (sint (eth_timestamp s))) # [(''@id'', SqlText (eth_id s))] @
     [(''@caplen'', num (eth_caplen s)), (''@length'', num (eth_length s))] @ ?b2)"
  have "extract_eth_statement env s db h = (0, insert_header ?row db, E_sql_step # h2)"
    by (simp add: extract_eth_statement_def step_header_def ok b1 b2 Let_def del: bind_each.simps)
  moreover have "stored_as (eth_id s) (PACKET_ETHERNET s) ?row"
    by (simp add: stored_simps)
  ultimately show ?thesis
    by blast
qed

lemma stored_arp: "\<exists>bs. (\<forall>db h. extract_arp_statement env s db h = insert_statement env ARP_INSERT_INTO bs db h) \<and>
    stored_as (arp_id s) (PACKET_ARP s) (ARP_INSERT_INTO, bs)"
  unfolding extract_arp_statement_def by (intro exI conjI allI, rule refl) (simp add: stored_simps)

lemma stored_ip4: "\<exists>bs. (\<forall>db h. extract_ip4_statement env s db h = insert_statement env IP4_INSERT_INTO bs db h) \<and>
    stored_as (ip4_id s) (PACKET_IP4 s) (IP4_INSERT_INTO, bs)"
  unfolding extract_ip4_statement_def by (intro exI conjI allI, rule refl) (simp add: stored_simps)

lemma stored_ip6: "\<exists>bs. (\<forall>db h. extract_ip6_statement env s db h = insert_statement env IP6_INSERT_INTO bs db h) \<and>
    stored_as (ip6_id s) (PACKET_IP6 s) (IP6_INSERT_INTO, bs)"
  unfolding extract_ip6_statement_def by (intro exI conjI allI, rule refl) (simp add: stored_simps)

lemma stored_tcp:
  assumes "length (tcp_flags s) = 6"
  shows "\<exists>bs. (\<forall>db h. extract_tcp_statement env s db h = insert_statement env TCP_INSERT_INTO bs db h) \<and>
    stored_as (tcp_id s) (PACKET_TCP s) (TCP_INSERT_INTO, bs)"
  unfolding extract_tcp_statement_def
  by (intro exI conjI allI, rule refl) (simp add: stored_simps six_nth [OF assms, simplified])

lemma stored_udp: "\<exists>bs. (\<forall>db h. extract_udp_statement env s db h = insert_statement env UDP_INSERT_INTO bs db h) \<and>
    stored_as (udp_id s) (PACKET_UDP s) (UDP_INSERT_INTO, bs)"
  unfolding extract_udp_statement_def by (intro exI conjI allI, rule refl) (simp add: stored_simps)

lemma stored_icmp4: "\<exists>bs. (\<forall>db h. extract_icmp4_statement env s db h = insert_statement env ICMP4_INSERT_INTO bs db h) \<and>
    stored_as (icmp_id s) (PACKET_ICMP4 s) (ICMP4_INSERT_INTO, bs)"
  unfolding extract_icmp4_statement_def by (intro exI conjI allI, rule refl) (simp add: stored_simps)

lemma stored_icmp6: "\<exists>bs. (\<forall>db h. extract_icmp6_statement env s db h = insert_statement env ICMP6_INSERT_INTO bs db h) \<and>
    stored_as (icmp_id s) (PACKET_ICMP6 s) (ICMP6_INSERT_INTO, bs)"
  unfolding extract_icmp6_statement_def by (intro exI conjI allI, rule refl) (simp add: stored_simps)

lemma stored_dns: "\<exists>bs. (\<forall>db h. extract_dns_statement env s db h = insert_statement env DNS_INSERT_INTO bs db h) \<and>
    stored_as (dns_id s) (PACKET_DNS s) (DNS_INSERT_INTO, bs)"
  unfolding extract_dns_statement_def by (intro exI conjI allI, rule refl) (simp add: stored_simps)

lemma stored_mdns: "\<exists>bs. (\<forall>db h. extract_mdsn_statement env s db h = insert_statement env MDNS_INSERT_INTO bs db h) \<and>
    stored_as (dns_id s) (PACKET_MDNS s) (MDNS_INSERT_INTO, bs)"
  unfolding extract_mdsn_statement_def by (intro exI conjI allI, rule refl) (simp add: stored_simps)

lemma stored_dhcp: "\<exists>bs. (\<forall>db h. extract_dhcp_statement env s db h = insert_statement env DHCP_INSERT_INTO bs db h) \<and>
    stored_as (dhcp_id s) (PACKET_DHCP s) (DHCP_INSERT_INTO, bs)"
  unfolding extract_dhcp_statement_def by (intro exI conjI allI, rule refl) (simp add: stored_simps)

lemma stored_statement:
  assumes "\<exists>bs. (\<forall>db h. extract db h = insert_statement env st bs db h) \<and> stored_as i tp (st, bs)" "sql_total env"
  shows "\<exists>row. (\<exists>h'. extract db h = (0, insert_header row db, h')) \<and> stored_as i tp row"
proof -
  obtain bs where bs: "\<And>db h. extract db h = insert_statement env st bs db h" "stored_as i tp (st, bs)"
    using assms(1) by blast
  from insert_statement_total [OF assms(2), of st bs db h] bs show ?thesis
    by auto
qed

lemmas stored_rows = stored_arp stored_ip4 stored_ip6 stored_udp stored_icmp4 stored_icmp6 stored_dns stored_mdns stored_dhcp

lemma save_packet_total:
  assumes "sql_total env" "tuple_of i tp"
  shows "\<exists>row h'. save_packet_statement env db tp h = (0, insert_header row db, h') \<and> stored_as i tp row"
proof (cases tp)
  case (PACKET_ETHERNET s)
  then show ?thesis
    using save_eth_total [OF assms(1)] assms(2) by (simp add: save_packet_statement_def tuple_of_def tuple_id_def) blast
next
  case (PACKET_TCP s)
  then show ?thesis
    using stored_statement [OF stored_tcp assms(1)] assms(2) by (simp add: save_packet_statement_def tuple_of_def tuple_id_def) blast
qed (use assms(2) in \<open>auto simp: save_packet_statement_def tuple_of_def tuple_id_def simp del: split_paired_Ex
      intro!: stored_rows [THEN stored_statement, OF assms(1)]\<close>)

text \<open>The records of a packet go to different tables.\<close>

lemma distinct_subseq: "subseq xs ys \<Longrightarrow> distinct ys \<Longrightarrow> distinct xs"
  by (auto simp: subseq_conv_nths intro: distinct_nthsI)

lemma subseq_one:
  "(\<And>s. header_statement (f s) = t) \<Longrightarrow> subseq (map header_statement us) ts \<Longrightarrow>
   subseq (map header_statement (one f x @ us)) (t # ts)"
  by (cases x) auto

lemma packet_tuples_tables: "distinct (map header_statement (packet_tuples c))"
proof -
  have "subseq (map header_statement (packet_tuples c @ []))
      [ETH_INSERT_INTO, ARP_INSERT_INTO, IP4_INSERT_INTO, IP6_INSERT_INTO, TCP_INSERT_INTO, UDP_INSERT_INTO,
       ICMP4_INSERT_INTO, ICMP6_INSERT_INTO, DNS_INSERT_INTO, MDNS_INSERT_INTO, DHCP_INSERT_INTO]"
    unfolding packet_tuples_def append_assoc
    by (intro subseq_one) (simp_all add: header_statement_def)
  then show ?thesis
    using distinct_subseq [OF _ statements_distinct] by simp
qed

interpretation records: alloc_queue push_packet_queue "\<lambda>tp. tp"
  by unfold_locales
    (auto simp: push_packet_queue_def init_packet_queue_def os_malloc_def alloc_total_def Let_def split: if_splits)

lemma add_packet_queue_each: "add_packet_queue env tps queue h = records.push_each env tps queue h"
  by (induction tps arbitrary: queue h) (simp_all add: Let_def split: prod.split)

lemma add_packet_queue_total: "alloc_total env \<Longrightarrow> fst (add_packet_queue env tps queue h) = queue @ tps"
  by (simp add: add_packet_queue_each records.push_each_total)

lemma extract_packets_total:
  assumes "alloc_total env" "extract_packets env ntop6 hdr p ifname h = (r, ts, h')"
  shows "r = int (length ts) \<and> distinct (map header_statement ts)"
proof -
  obtain n c h1 where d: "decode_packet ntop6 hdr p (new_packet env hdr ifname (E_uuid # h)) (E_uuid # h) = (n, c, h1)"
    by (metis prod_cases3)
  then show ?thesis
    using assms(2) push_tuples_total [OF assms(1), of "packet_tuples c" "[]" h1] packet_tuples_tables [of c]
    by (auto simp: extract_packets_def split: if_splits)
qed

lemma save_headers_total:
  assumes "sql_total env" "\<forall>tp \<in> set ts. tuple_of i tp" "distinct (map header_statement ts)"
    and "\<forall>row \<in> set db. map_of (snd row) ''@id'' = Some (SqlText i) \<longrightarrow> fst row \<notin> header_statement ` set ts"
  shows "\<exists>rows h'. save_headers env db ts h = (db @ rows, h') \<and> list_all2 (stored_as i) ts rows"
  using assms
proof (induction ts arbitrary: db h)
  case (Cons tp ts)
  obtain row h1 where row: "save_packet_statement env db tp h = (0, insert_header row db, h1)" "stored_as i tp row"
    using save_packet_total [OF Cons.prems(1)] Cons.prems(2) by force
  then have key: "map_of (snd row) ''@id'' = Some (SqlText i)" "fst row = header_statement tp"
    by (simp_all add: stored_as_def)
  then have "row_key row \<notin> set (map row_key db)"
    using Cons.prems(4) by (auto simp: row_key_def)
  then have new: "insert_header row db = db @ [row]"
    by (simp add: insert_header_def key(1))
  have "\<forall>row \<in> set (db @ [row]). map_of (snd row) ''@id'' = Some (SqlText i) \<longrightarrow> fst row \<notin> header_statement ` set ts"
    using Cons.prems(3,4) key(2) by auto
  then obtain rows h2 where "save_headers env (db @ [row]) ts h1 = ((db @ [row]) @ rows, h2)" "list_all2 (stored_as i) ts rows"
    using Cons.IH [of "db @ [row]" h1] Cons.prems(1-3) by auto
  then show ?case
    using row by (intro exI [of _ "row # rows"]) (simp add: new)
qed simp

text \<open>
  C17: when memory and SQLite do not fail, the next run of the timer writes every record of a frame
  to the table of its protocol: the rows are new, have the id of the frame and a value in every column,
  and their columns read back give the records.  The id, a random one, is new in the database.
\<close>

theorem frame_headers_stored:
  assumes "alloc_total env" "sql_total env"
    and "\<forall>row \<in> set db. map_of (snd row) ''@id'' \<noteq> Some (SqlText (env_uuid env (E_uuid # h)))"
    and "extract_packets env ntop6 hdr p ifname h = (n, ts, h1)"
    and "process_header_middleware env ntop6 [] hdr p ifname h = (r, queue, h2)"
  shows "\<exists>rows h4. eloop_tout_header_handler env db queue h3 = ([], db @ rows, h4) \<and>
    list_all2 (stored_as (env_uuid env (E_uuid # h))) ts rows"
proof -
  note total = extract_packets_total [OF assms(1,4)]
  have "queue = ts"
    using assms(4,5) total add_packet_queue_total [OF assms(1), of ts "[]" h1]
    by (auto simp: process_header_middleware_def split: if_splits prod.splits)
  moreover obtain rows h4 where "save_headers env db ts h3 = (db @ rows, h4)"
      "list_all2 (stored_as (env_uuid env (E_uuid # h))) ts rows"
    using save_headers_total [OF assms(2) extract_packets_ids [OF assms(4)], of db h3] total assms(3) by auto
  ultimately show ?thesis
    by (simp add: eloop_tout_header_handler_def)
qed

theorem frame_headers_stored_witness:
  "\<exists>n ts h1 r queue h2 rows h4.
     extract_packets ideal_env (\<lambda>_. []) \<lparr>ph_sec = 1, ph_usec = 0, ph_caplen = 42, ph_len = 42\<rparr> arp_frame ''br0'' [] = (n, ts, h1) \<and>
     n = 2 \<and>
     process_header_middleware ideal_env (\<lambda>_. []) [] \<lparr>ph_sec = 1, ph_usec = 0, ph_caplen = 42, ph_len = 42\<rparr> arp_frame ''br0'' [] =
       (r, queue, h2) \<and>
     eloop_tout_header_handler ideal_env [] queue h2 = ([], [] @ rows, h4) \<and>
     list_all2 (stored_as (env_uuid ideal_env [E_uuid])) ts rows"
proof -
  let ?hdr = "\<lparr>ph_sec = 1, ph_usec = 0, ph_caplen = 42, ph_len = 42\<rparr>"
  obtain n ts h1 where x: "extract_packets ideal_env (\<lambda>_. []) ?hdr arp_frame ''br0'' [] = (n, ts, h1)"
    by (metis prod_cases3)
  obtain r queue h2 where y: "process_header_middleware ideal_env (\<lambda>_. []) [] ?hdr arp_frame ''br0'' [] = (r, queue, h2)"
    by (metis prod_cases3)
  have "fst (extract_packets ideal_env (\<lambda>_. []) ?hdr arp_frame ''br0'' []) = 2"
    by code_simp
  with x have "n = 2"
    by simp
  moreover have "sql_total ideal_env"
    by (simp add: sql_total_def ideal_env_def)
  moreover obtain rows h4 where "eloop_tout_header_handler ideal_env [] queue h2 = ([], [] @ rows, h4)"
      "list_all2 (stored_as (env_uuid ideal_env [E_uuid])) ts rows"
    using frame_headers_stored [OF ideal_alloc \<open>sql_total ideal_env\<close> _ x y, of "[]" h2] by auto
  ultimately show ?thesis
    using x y by blast
qed

end
