(* ===== verification/Pcap_Store.thy ===== *)
theory Pcap_Store
  imports Packet_Decoder Supervisor_State
begin

text \<open>
  The store of captured frames: capture/middlewares/pcap_middleware (pcap_queue.c, sqlite_pcap.c,
  pcap_middleware.c) writes every frame to a file of its own and a row about it to the table pcap;
  capture/middlewares/cleaner_middleware removes the oldest files and rows once their sizes add up to
  the size of the store.

  The table is the list of its rows in the order of insertion.  SQLite orders rows by the signed
  value of the timestamp; rows with equal timestamps come in the order of insertion.  A statement
  fails where the environment says so.  The loop of the cleaner need not end and is a partial
  function: None when it runs forever.
\<close>

section \<open>The queue of frames\<close>

type_synonym pcap_queue = "(pcap_pkthdr \<times> bytes) list"

definition init_pcap_queue :: "env \<Rightarrow> hist \<Rightarrow> pcap_queue option \<times> hist" where
  "init_pcap_queue env h = (let (ok, h) = os_malloc env h in (if ok then Some [] else None, h))"

text \<open>Whether an element was added; one without a copy of the frame is left behind.\<close>

definition push_pcap_queue ::
  "env \<Rightarrow> pcap_queue \<Rightarrow> pcap_pkthdr \<Rightarrow> bytes \<Rightarrow> hist \<Rightarrow> bool \<times> pcap_queue \<times> hist" where
  "push_pcap_queue env queue header packet h =
     (let (el, h) = init_pcap_queue env h in
      if el = None then (False, queue, h)
      else
        let (ok, h) = os_malloc env h in
        if \<not> ok then (False, queue, h)
        else
          let n = unat (ph_caplen header); h = past_end packet n h
          in (True, queue @ [(header, take n packet)], h))"

definition pop_pcap_queue :: "pcap_queue \<Rightarrow> (pcap_pkthdr \<times> bytes) option" where
  "pop_pcap_queue queue = (case queue of [] \<Rightarrow> None | el # _ \<Rightarrow> Some el)"

definition get_pcap_queue_length :: "pcap_queue \<Rightarrow> int" where
  "get_pcap_queue_length queue = int (length queue)"

definition is_pcap_queue_empty :: "pcap_queue \<Rightarrow> int" where
  "is_pcap_queue_empty queue = (if queue = [] then 1 else 0)"

section \<open>The table of files\<close>

record pcap_row =
  pr_timestamp :: u64
  pr_name :: string
  pr_caplen :: u32
  pr_length :: u32

type_synonym pcap_db = "pcap_row list"

definition PCAP_INSERT_INTO :: string where
  "PCAP_INSERT_INTO = ''INSERT INTO pcap VALUES(@timestamp, @name, @caplen, @length);''"

definition PCAP_SELECT_FIRST_ENTRY :: string where
  "PCAP_SELECT_FIRST_ENTRY = ''SELECT timestamp,caplen FROM pcap ORDER BY timestamp ASC LIMIT 1;''"

definition PCAP_SUM_GROUP :: string where
  "PCAP_SUM_GROUP = ''SELECT timestamp,caplen FROM pcap WHERE timestamp > @lt ORDER BY timestamp ASC LIMIT @lim;''"

definition PCAP_SELECT_GROUP :: string where
  "PCAP_SELECT_GROUP = ''SELECT timestamp,name FROM pcap WHERE timestamp >= @lt ORDER BY timestamp ASC LIMIT @lim;''"

definition PCAP_DELETE_GROUP :: string where
  "PCAP_DELETE_GROUP = ''DELETE FROM pcap WHERE timestamp >= @lt AND timestamp <= @ht;''"

text \<open>What the statements compute, on the signed values that \<open>sqlite3_bind_int64\<close> takes.\<close>

definition row_time :: "pcap_row \<Rightarrow> int" where
  "row_time r = sint (pr_timestamp r)"

definition insert_row :: "pcap_row \<Rightarrow> pcap_db \<Rightarrow> pcap_db" where
  "insert_row row db = (if pr_name row \<in> set (map pr_name db) then db else db @ [row])"

definition rows_after :: "u64 \<Rightarrow> nat \<Rightarrow> pcap_db \<Rightarrow> pcap_row list" where
  "rows_after lt lim db = take lim (sort_key row_time (filter (\<lambda>r. sint lt < row_time r) db))"

definition rows_from :: "u64 \<Rightarrow> nat \<Rightarrow> pcap_db \<Rightarrow> pcap_row list" where
  "rows_from lt lim db = take lim (sort_key row_time (filter (\<lambda>r. sint lt \<le> row_time r) db))"

definition rows_outside :: "u64 \<Rightarrow> u64 \<Rightarrow> pcap_db \<Rightarrow> pcap_db" where
  "rows_outside lt ht db = filter (\<lambda>r. \<not> (sint lt \<le> row_time r \<and> row_time r \<le> sint ht)) db"

definition save_sqlite_pcap_entry ::
  "env \<Rightarrow> pcap_db \<Rightarrow> string \<Rightarrow> u64 \<Rightarrow> u32 \<Rightarrow> u32 \<Rightarrow> hist \<Rightarrow> int \<times> pcap_db \<times> hist" where
  "save_sqlite_pcap_entry env db name timestamp caplen len h =
     (let h = E_sql_prepare PCAP_INSERT_INTO # h in
      if \<not> env_sql env h then (- 1, db, h)
      else
        let (ok, h) = sql_bind_all env [(''@timestamp'', SqlInt (sint timestamp)), (''@caplen'', SqlInt (uint caplen)),
                                        (''@length'', SqlInt (uint len)), (''@name'', SqlText name)] h
        in if \<not> ok then (- 1, db, h)
           else
             let h = E_sql_step # h;
                 row = \<lparr>pr_timestamp = timestamp, pr_name = name, pr_caplen = caplen, pr_length = len\<rparr>
             in (0, if env_sql env h then insert_row row db else db, h))"

text \<open>The result and the two values it writes, None when it fails before it writes them.\<close>

definition get_first_pcap_entry :: "env \<Rightarrow> pcap_db \<Rightarrow> hist \<Rightarrow> int \<times> (u64 \<times> u64) option \<times> hist" where
  "get_first_pcap_entry env db h =
     (let h = E_sql_prepare PCAP_SELECT_FIRST_ENTRY # h in
      if \<not> env_sql env h then (- 1, None, h)
      else
        let h = E_sql_step # h in
        if \<not> env_sql env h then (- 1, Some (0, 0), h)
        else case sort_key row_time db of
               [] \<Rightarrow> (1, Some (0, 0), h)
             | r # _ \<Rightarrow> (0, Some (pr_timestamp r, ucast (pr_caplen r)), h))"

text \<open>The steps of a select: each row that comes, and the step that finds no more.\<close>

fun sum_rows :: "env \<Rightarrow> pcap_row list \<Rightarrow> u64 \<Rightarrow> u64 \<Rightarrow> hist \<Rightarrow> int \<times> u64 \<times> u64 \<times> hist" where
  "sum_rows env rows ht acc h =
     (let h = E_sql_step # h in
      if \<not> env_sql env h then (- 1, ht, acc, h)
      else case rows of
             [] \<Rightarrow> (0, ht, acc, h)
           | r # rows \<Rightarrow> sum_rows env rows (pr_timestamp r) (acc + ucast (pr_caplen r)) h)"

fun meta_rows ::
  "env \<Rightarrow> pcap_row list \<Rightarrow> hist \<Rightarrow> int \<times> (u64 \<times> string option) list \<times> hist" where
  "meta_rows env rows h =
     (let h = E_sql_step # h in
      if \<not> env_sql env h then (- 1, [], h)
      else case rows of
             [] \<Rightarrow> (0, [], h)
           | r # rows \<Rightarrow>
               let (ok, h) = os_malloc env h;
                   (ret, metas, h) = meta_rows env rows h
               in (ret, (pr_timestamp r, if ok then Some (pr_name r) else None) # metas, h))"

declare sum_rows.simps [simp del] meta_rows.simps [simp del]

definition sum_pcap_group ::
  "env \<Rightarrow> pcap_db \<Rightarrow> u64 \<Rightarrow> u32 \<Rightarrow> u64 \<Rightarrow> hist \<Rightarrow> int \<times> u64 \<times> u64 \<times> hist" where
  "sum_pcap_group env db lt lim ht h =
     (let h = E_sql_prepare PCAP_SUM_GROUP # h in
      if \<not> env_sql env h then (- 1, ht, 0, h)
      else
        let (ok, h) = sql_bind_all env [(''@lt'', SqlInt (sint lt)), (''@lim'', SqlInt (uint lim))] h
        in if \<not> ok then (- 1, ht, 0, h)
           else sum_rows env (rows_after lt (unat lim) db) ht 0 h)"

definition get_pcap_meta_array ::
  "env \<Rightarrow> pcap_db \<Rightarrow> u64 \<Rightarrow> u32 \<Rightarrow> hist \<Rightarrow> int \<times> (u64 \<times> string option) list \<times> hist" where
  "get_pcap_meta_array env db lt lim h =
     (let h = E_sql_prepare PCAP_SELECT_GROUP # h in
      if \<not> env_sql env h then (- 1, [], h)
      else
        let (ok, h) = sql_bind_all env [(''@lt'', SqlInt (sint lt)), (''@lim'', SqlInt (uint lim))] h
        in if \<not> ok then (- 1, [], h)
           else meta_rows env (rows_from lt (unat lim) db) h)"

definition delete_pcap_entries :: "env \<Rightarrow> pcap_db \<Rightarrow> u64 \<Rightarrow> u64 \<Rightarrow> hist \<Rightarrow> int \<times> pcap_db \<times> hist" where
  "delete_pcap_entries env db lt ht h =
     (let h = E_sql_prepare PCAP_DELETE_GROUP # h in
      if \<not> env_sql env h then (- 1, db, h)
      else
        let (ok, h) = sql_bind_all env [(''@lt'', SqlInt (sint lt)), (''@ht'', SqlInt (sint ht))] h
        in if \<not> ok then (- 1, db, h)
           else
             let h = E_sql_step # h
             in if env_sql env h then (0, rows_outside lt ht db, h) else (- 1, db, h))"

section \<open>Saving frames\<close>

definition PCAP_SUBFOLDER_NAME :: string where
  "PCAP_SUBFOLDER_NAME = ''./capture''"

definition PCAP_EXTENSION :: string where
  "PCAP_EXTENSION = ''.pcap''"

text \<open>The path is copied without a bound into an array of \<open>MAX_OS_PATH_LEN\<close> bytes.\<close>

definition get_pcap_folder_path :: "env \<Rightarrow> string \<Rightarrow> hist \<Rightarrow> string option \<times> hist" where
  "get_pcap_folder_path env capture_db_path h =
     (if os_strnlen_s capture_db_path MAX_OS_PATH_LEN = 0 then (None, h)
      else
        let (ok, h) = os_malloc env h in
        if \<not> ok then (None, h)
        else
          let (full, h) = construct_path env (Some (c_dirname capture_db_path)) (Some PCAP_SUBFOLDER_NAME) h in
          case full of
            None \<Rightarrow> (None, h)
          | Some path \<Rightarrow> (Some path, if MAX_OS_PATH_LEN \<le> length path then E_ub Heap_Overrun # h else h))"

definition construct_pcap_file_name :: "env \<Rightarrow> hist \<Rightarrow> string \<times> hist" where
  "construct_pcap_file_name env h = (let (uuid, h) = generate_radom_uuid env h in (uuid @ PCAP_EXTENSION, h))"

text \<open>Opening the file can fail; what libpcap writes into it is its own format around the frame.\<close>

definition dump_file_pcap :: "env \<Rightarrow> string \<Rightarrow> pcap_pkthdr \<Rightarrow> bytes \<Rightarrow> hist \<Rightarrow> int \<times> hist" where
  "dump_file_pcap env file_path header packet h =
     (let h = E_write_file file_path (string_of_bytes packet) # h
      in (if env_write_file env h then 0 else - 1, h))"

definition save_pcap_file_data ::
  "env \<Rightarrow> string \<Rightarrow> pcap_db \<Rightarrow> pcap_pkthdr \<Rightarrow> bytes \<Rightarrow> hist \<Rightarrow> int \<times> pcap_db \<times> hist" where
  "save_pcap_file_data env pcap_path db header packet h =
     (let timestamp = os_to_timestamp (ph_sec header) (ph_usec header);
          (file_name, h) = construct_pcap_file_name env h;
          (path, h) = construct_path env (Some pcap_path) (Some file_name) h
      in case path of
           None \<Rightarrow> (- 1, db, h)
         | Some path \<Rightarrow>
             let (r, h) = dump_file_pcap env path header packet h in
             if r < 0 then (- 1, db, h)
             else
               let (r, db, h) = save_sqlite_pcap_entry env db file_name timestamp (ph_caplen header) (ph_len header) h
               in (if r < 0 then - 1 else 0, db, h))"

fun save_queue :: "env \<Rightarrow> string \<Rightarrow> pcap_db \<Rightarrow> pcap_queue \<Rightarrow> hist \<Rightarrow> pcap_db \<times> hist" where
  "save_queue env pcap_path db [] h = (db, h)"
| "save_queue env pcap_path db ((header, packet) # queue) h =
     (let (r, db, h) = save_pcap_file_data env pcap_path db header packet h
      in save_queue env pcap_path db queue h)"

text \<open>The queue afterwards, the table, and the next run of the timer.\<close>

definition eloop_tout_pcap_handler ::
  "env \<Rightarrow> string \<Rightarrow> pcap_db \<Rightarrow> pcap_queue \<Rightarrow> hist \<Rightarrow> pcap_queue \<times> pcap_db \<times> hist" where
  "eloop_tout_pcap_handler env pcap_path db queue h =
     (let (db, h) = save_queue env pcap_path db queue h in ([], db, E_timeout 0 # h))"

definition process_pcap_middleware ::
  "env \<Rightarrow> pcap_queue \<Rightarrow> pcap_pkthdr \<Rightarrow> bytes \<Rightarrow> hist \<Rightarrow> int \<times> pcap_queue \<times> hist" where
  "process_pcap_middleware env queue header packet h =
     (let (ok, queue, h) = push_pcap_queue env queue header packet h in (if ok then 0 else - 1, queue, h))"

section \<open>The cleaner\<close>

definition CLEANER_PROCESS_INTERVAL :: nat where
  "CLEANER_PROCESS_INTERVAL = 5"

definition CLEANER_GROUP_INTERVAL :: u32 where
  "CLEANER_GROUP_INTERVAL = 1024"

definition CLEANER_STORE_SIZE :: u64 where
  "CLEANER_STORE_SIZE = 1000"

record cleaner_middleware_context =
  cl_pcap_path :: string
  cl_store_size :: u64
  cl_low_timestamp :: u64
  cl_store_sum :: u64
  cl_next_timestamp :: u64

text \<open>
  The files of a group are removed, whatever comes of it, and the timestamp of the last one is kept.
  A path that could not be made is passed to \<open>remove\<close> as NULL.
\<close>

fun remove_files ::
  "env \<Rightarrow> string \<Rightarrow> (u64 \<times> string option) list \<Rightarrow> u64 \<Rightarrow> hist \<Rightarrow> u64 \<times> hist" where
  "remove_files env pcap_path [] timestamp h = (timestamp, h)"
| "remove_files env pcap_path ((t, name) # metas) timestamp h =
     (let (path, h) = construct_path env (Some pcap_path) name h;
          h = (case path of None \<Rightarrow> E_ub Null_Deref # h | Some f \<Rightarrow> E_remove f # h)
      in remove_files env pcap_path metas t h)"

text \<open>One pass of the outer loop of \<open>clean_capture\<close>.\<close>

definition clean_group ::
  "env \<Rightarrow> string \<Rightarrow> u64 \<Rightarrow> pcap_db \<Rightarrow> hist \<Rightarrow> int \<times> u64 \<times> pcap_db \<times> hist" where
  "clean_group env pcap_path lt db h =
     (let (r, metas, h) = get_pcap_meta_array env db lt CLEANER_GROUP_INTERVAL h in
      if r < 0 then (- 1, lt, db, h)
      else
        let (timestamp, h) = remove_files env pcap_path metas lt h;
            (r, db, h) = delete_pcap_entries env db lt timestamp h
        in (if r < 0 then - 1 else 0, timestamp, db, h))"

partial_function (option) clean_loop ::
  "env \<Rightarrow> string \<Rightarrow> u64 \<Rightarrow> u64 \<Rightarrow> pcap_db \<Rightarrow> hist \<Rightarrow> (int \<times> pcap_db \<times> hist) option" where
  "clean_loop env pcap_path next_timestamp timestamp db h =
     (if \<not> timestamp \<le> next_timestamp then Some (0, db, h)
      else case clean_group env pcap_path timestamp db h of (r, timestamp, db, h) \<Rightarrow>
        if r < 0 then Some (- 1, db, h) else clean_loop env pcap_path next_timestamp timestamp db h)"

definition clean_capture ::
  "env \<Rightarrow> cleaner_middleware_context \<Rightarrow> pcap_db \<Rightarrow> hist \<Rightarrow> (int \<times> pcap_db \<times> hist) option" where
  "clean_capture env c db h =
     clean_loop env (cl_pcap_path c) (cl_next_timestamp c) (cl_low_timestamp c) db h"

text \<open>The part of the handler in front of the test of the size.\<close>

definition sum_store ::
  "env \<Rightarrow> cleaner_middleware_context \<Rightarrow> pcap_db \<Rightarrow> hist \<Rightarrow> cleaner_middleware_context \<times> hist" where
  "sum_store env c db h =
     (let lt = cl_next_timestamp c;
          (lt, c, h) =
            (if lt = 0 then
               let (res, out, h) = get_first_pcap_entry env db h;
                   (lt, caplen) = (case out of None \<Rightarrow> (lt, 0) | Some out \<Rightarrow> out)
               in (lt, c\<lparr>cl_low_timestamp := lt, cl_store_sum := caplen\<rparr>, h)
             else (lt, c, h))
      in if lt = 0 then (c, h)
         else
           let (r, ht, acc, h) = sum_pcap_group env db lt CLEANER_GROUP_INTERVAL lt h
           in if r < 0 \<or> ht = lt then (c, h)
              else (c\<lparr>cl_store_sum := cl_store_sum c + acc, cl_next_timestamp := ht\<rparr>, h))"

definition eloop_tout_cleaner_handler ::
  "env \<Rightarrow> cleaner_middleware_context \<Rightarrow> pcap_db \<Rightarrow> hist \<Rightarrow> (cleaner_middleware_context \<times> pcap_db \<times> hist) option" where
  "eloop_tout_cleaner_handler env c db h =
     (let (c, h) = sum_store env c db h in
      if cl_store_size c \<le> cl_store_sum c then
        case clean_capture env c db h of
          None \<Rightarrow> None
        | Some (r, db, h) \<Rightarrow>
            Some (c\<lparr>cl_low_timestamp := 0, cl_store_sum := 0, cl_next_timestamp := 0\<rparr>, db,
                  E_timeout CLEANER_PROCESS_INTERVAL # h)
      else Some (c, db, E_timeout CLEANER_PROCESS_INTERVAL # h))"

text \<open>The two allocations are for the context of the middleware and its own.\<close>

definition init_cleaner_middleware ::
  "env \<Rightarrow> string option \<Rightarrow> hist \<Rightarrow> cleaner_middleware_context option \<times> hist" where
  "init_cleaner_middleware env db_path h =
     (case db_path of
        None \<Rightarrow> (None, h)
      | Some db_path \<Rightarrow>
          let (ok, h) = os_malloc env h in
          if \<not> ok then (None, h)
          else let (ok, h) = os_malloc env h in
          if \<not> ok then (None, h)
          else case get_pcap_folder_path env db_path h of
            (None, h) \<Rightarrow> (None, h)
          | (Some path, h) \<Rightarrow>
              let h = E_timeout CLEANER_PROCESS_INTERVAL # h in
              if \<not> env_timeout env h then (None, h)
              else (Some \<lparr>cl_pcap_path = path, cl_store_size = CLEANER_STORE_SIZE * 1024,
                          cl_low_timestamp = 0, cl_store_sum = 0, cl_next_timestamp = 0\<rparr>, h))"

section \<open>Frames in the queue\<close>

interpretation frames: alloc_queue "\<lambda>env queue (header, packet) h. push_pcap_queue env queue header packet h"
    "\<lambda>(header, packet). (header, take (unat (ph_caplen header)) packet)"
  by unfold_locales
    (auto simp: push_pcap_queue_def init_pcap_queue_def os_malloc_def alloc_total_def Let_def split: if_splits)

text \<open>The frames are saved in the order in which they were captured, whatever was lost for want of memory.\<close>

lemma frames_saved_in_order:
  "\<exists>ys. subseq ys (map (\<lambda>(header, packet). (header, take (unat (ph_caplen header)) packet)) fs) \<and>
     eloop_tout_pcap_handler env pcap_path db (fst (frames.push_each env fs [] h)) h' =
       ([], fst (save_queue env pcap_path db ys h'), E_timeout 0 # snd (save_queue env pcap_path db ys h'))"
  using frames.push_each_subseq [of env fs "[]" h] by (auto simp: eloop_tout_pcap_handler_def split: prod.split)

section \<open>A group of rows\<close>

text \<open>The timestamp the inner loop of \<open>clean_capture\<close> ends with.\<close>

definition group_end :: "u64 \<Rightarrow> pcap_db \<Rightarrow> u64" where
  "group_end lt db = last (lt # map pr_timestamp (rows_from lt (unat CLEANER_GROUP_INTERVAL) db))"

lemma sql_bind_all_ok: "sql_total env \<Longrightarrow> \<exists>h'. sql_bind_all env bs h = (True, h')"
  by (induction bs arbitrary: h) (auto simp: sql_total_def Let_def)

lemma meta_rows_ok:
  "sql_total env \<Longrightarrow> \<exists>metas h'. meta_rows env rows h = (0, metas, h') \<and> map fst metas = map pr_timestamp rows"
proof (induction rows arbitrary: h)
  case Nil
  then show ?case
    by (simp add: meta_rows.simps [of env "[]"] sql_total_def Let_def)
next
  case (Cons r rows)
  obtain ok h1 where "os_malloc env (E_sql_step # h) = (ok, h1)"
    by fastforce
  with Cons.IH [OF Cons.prems, of h1] show ?case
    using Cons.prems by (auto simp: meta_rows.simps [of env "r # rows"] sql_total_def Let_def)
qed

lemma sum_rows_ok:
  "sql_total env \<Longrightarrow> \<exists>h'. sum_rows env rows ht acc h =
     (0, last (ht # map pr_timestamp rows), acc + sum_list (map (\<lambda>r. ucast (pr_caplen r)) rows), h')"
proof (induction rows arbitrary: ht acc h)
  case Nil
  then show ?case
    by (simp add: sum_rows.simps [of env "[]"] sql_total_def Let_def)
next
  case (Cons r rows)
  from Cons.IH [OF Cons.prems, of "pr_timestamp r" "acc + ucast (pr_caplen r)" "E_sql_step # h"] show ?case
    using Cons.prems by (simp add: sum_rows.simps [of env "r # rows"] sql_total_def Let_def add.assoc)
qed

lemma remove_files_end:
  "\<exists>h'. remove_files env pcap_path metas t h = (last (t # map fst metas), h')"
proof (induction metas arbitrary: t h)
  case (Cons m metas)
  obtain s name where m: "m = (s, name)"
    by fastforce
  obtain path h1 where "construct_path env (Some pcap_path) name h = (path, h1)"
    by fastforce
  with Cons.IH [of s "case path of None \<Rightarrow> E_ub Null_Deref # h1 | Some f \<Rightarrow> E_remove f # h1"] show ?case
    by (simp add: m Let_def)
qed simp

lemma clean_group_ok:
  assumes "sql_total env"
  shows "\<exists>h'. clean_group env pcap_path lt db h = (0, group_end lt db, rows_outside lt (group_end lt db) db, h')"
proof -
  obtain h1 where b1: "sql_bind_all env [(''@lt'', SqlInt (sint lt)), (''@lim'', SqlInt (uint CLEANER_GROUP_INTERVAL))]
      (E_sql_prepare PCAP_SELECT_GROUP # h) = (True, h1)"
    using sql_bind_all_ok [OF assms] by blast
  obtain metas h2 where m: "meta_rows env (rows_from lt (unat CLEANER_GROUP_INTERVAL) db) h1 = (0, metas, h2)"
      "map fst metas = map pr_timestamp (rows_from lt (unat CLEANER_GROUP_INTERVAL) db)"
    using meta_rows_ok [OF assms] by blast
  obtain h3 where r: "remove_files env pcap_path metas lt h2 = (group_end lt db, h3)"
    using remove_files_end [of env pcap_path metas lt h2] m(2) by (auto simp: group_end_def)
  obtain h4 where b2: "sql_bind_all env [(''@lt'', SqlInt (sint lt)), (''@ht'', SqlInt (sint (group_end lt db)))]
      (E_sql_prepare PCAP_DELETE_GROUP # h3) = (True, h4)"
    using sql_bind_all_ok [OF assms] by blast
  show ?thesis
    using assms by (simp add: clean_group_def get_pcap_meta_array_def delete_pcap_entries_def b1 m(1) r b2 sql_total_def Let_def
      del: sql_bind_all.simps)
qed

lemma set_rows_from: "set (rows_from lt lim db) \<subseteq> {r \<in> set db. sint lt \<le> row_time r}"
  using set_take_subset [of lim] by (fastforce simp: rows_from_def)

lemma sort_key_Nil_iff: "sort_key f xs = [] \<longleftrightarrow> xs = []"
  by (metis length_0_conv length_sort)

lemma group_end_cases:
  obtains "group_end lt db = lt" "\<forall>r \<in> set db. row_time r < sint lt"
  | r where "r \<in> set db" "sint lt \<le> row_time r" "pr_timestamp r = group_end lt db"
proof (cases "rows_from lt (unat CLEANER_GROUP_INTERVAL) db = []")
  case True
  then have "filter (\<lambda>r. sint lt \<le> row_time r) db = []"
    by (simp add: rows_from_def CLEANER_GROUP_INTERVAL_def sort_key_Nil_iff)
  then have "\<forall>r \<in> set db. row_time r < sint lt"
    by (auto simp: filter_empty_conv)
  with True show thesis
    by (intro that(1)) (simp_all add: group_end_def)
next
  case False
  then have "last (rows_from lt (unat CLEANER_GROUP_INTERVAL) db) \<in> {r \<in> set db. sint lt \<le> row_time r}"
    using set_rows_from last_in_set by blast
  with False show thesis
    by (intro that(2)) (auto simp: group_end_def last_map)
qed

lemma group_end_ge: "sint lt \<le> sint (group_end lt db)"
  by (rule group_end_cases [of lt db]) (auto simp: row_time_def)

section \<open>When the cleaner returns\<close>

text \<open>No row lies beyond the last timestamp to clean: then no pass of the loop gets beyond it.\<close>

definition stuck :: "u64 \<Rightarrow> u64 \<Rightarrow> pcap_db \<Rightarrow> bool" where
  "stuck next_timestamp t db \<longleftrightarrow>
     t \<le> next_timestamp \<and> (\<forall>r \<in> set db. sint t \<le> row_time r \<longrightarrow> pr_timestamp r \<le> next_timestamp)"

lemma stuck_group:
  assumes "stuck n t db"
  shows "stuck n (group_end t db) (rows_outside t u db)"
proof -
  have "group_end t db \<le> n"
    using assms by (cases rule: group_end_cases [of t db]) (auto simp: stuck_def)
  moreover have "pr_timestamp r \<le> n" if "r \<in> set db" "sint (group_end t db) \<le> row_time r" for r
    using assms that group_end_ge [of t db] unfolding stuck_def by (meson order_trans)
  ultimately show ?thesis
    by (simp add: stuck_def rows_outside_def)
qed

lemma clean_loop_stuck:
  assumes "clean_loop env pcap_path n t db h = Some y" and "sql_total env"
  shows "\<not> stuck n t db"
  using assms
proof (induction env pcap_path n t db h y rule: clean_loop.raw_induct [rotated, consumes 1, case_names step])
  case (step f env pcap_path n t db h y)
  obtain h' where g: "clean_group env pcap_path t db h = (0, group_end t db, rows_outside t (group_end t db) db, h')"
    using clean_group_ok [OF step.prems] by blast
  show ?case
  proof
    assume st: "stuck n t db"
    then have "f env pcap_path n (group_end t db) (rows_outside t (group_end t db) db) h' = Some y"
      using step.hyps by (simp add: g stuck_def)
    from step.IH [OF this step.prems] stuck_group [OF st] show False
      by blast
  qed
qed

lemma clean_loop_never_returns: "sql_total env \<Longrightarrow> stuck n t db \<Longrightarrow> clean_loop env pcap_path n t db h = None"
  using clean_loop_stuck by (cases "clean_loop env pcap_path n t db h") blast+

text \<open>Below \<open>2^63\<close> the order of SQLite is the one of the code.\<close>

lemma sint_nonneg_uint: "0 \<le> sint (w :: u64) \<Longrightarrow> sint w = uint w"
proof -
  assume "0 \<le> sint w"
  moreover have "sint w < 2 ^ 64"
    using sint_less [of w] by simp
  ultimately show ?thesis
    by (simp add: uint_sint take_bit_int_eq_self)
qed

lemma sint_le_iff: "0 \<le> sint (v :: u64) \<Longrightarrow> 0 \<le> sint w \<Longrightarrow> sint v \<le> sint w \<longleftrightarrow> v \<le> w"
  by (simp add: sint_nonneg_uint word_le_def)

lemma rows_outside_merge:
  "sint t \<le> sint u \<Longrightarrow> sint u \<le> sint b \<Longrightarrow> rows_outside u b (rows_outside t u db) = rows_outside t b db"
  by (auto simp: rows_outside_def intro: filter_cong)

lemma clean_loop_returns:
  assumes "sql_total env" "\<forall>r \<in> set db. 0 \<le> row_time r" "0 \<le> sint n" "0 \<le> sint t" "t \<le> n"
    and "r \<in> set db" "n < pr_timestamp r"
  shows "\<exists>b h'. clean_loop env pcap_path n t db h = Some (0, rows_outside t b db, h') \<and> n < b \<and> b \<in> pr_timestamp ` set db"
  using assms
proof (induction "length db" arbitrary: db t h rule: less_induct)
  case less
  note time = less.prems(2)
  have nn: "0 \<le> sint (pr_timestamp s)" if "s \<in> set db" for s
    using time that by (simp add: row_time_def)
  have "sint t \<le> row_time r"
    using less.prems nn by (simp add: row_time_def sint_le_iff)
  then obtain s where s: "s \<in> set db" "sint t \<le> row_time s" "pr_timestamp s = group_end t db"
    using less.prems(6) by (cases rule: group_end_cases [of t db]) force+
  define u where "u = group_end t db"
  have u: "0 \<le> sint u" "sint t \<le> sint u" "u \<in> pr_timestamp ` set db"
    using s nn [of s] by (auto simp: u_def row_time_def intro: rev_image_eqI)
  obtain h1 where "clean_group env pcap_path t db h = (0, u, rows_outside t u db, h1)"
    using clean_group_ok [OF less.prems(1)] unfolding u_def by blast
  then have run: "clean_loop env pcap_path n t db h = clean_loop env pcap_path n u (rows_outside t u db) h1"
    using less.prems(5) by (subst clean_loop.simps) simp
  show ?case
  proof (cases "u \<le> n")
    case False
    then show ?thesis
      using u(3) by (subst run, subst clean_loop.simps) auto
  next
    case True
    have "length (rows_outside t u db) < length db"
      unfolding rows_outside_def using s by (intro length_filter_less [of s]) (auto simp: u_def row_time_def)
    moreover have "\<not> row_time r \<le> sint u"
      using True less.prems(6,7) u(1) nn by (simp add: row_time_def sint_le_iff)
    then have "r \<in> set (rows_outside t u db)"
      using less.prems(6) by (simp add: rows_outside_def)
    ultimately obtain b h2 where b: "clean_loop env pcap_path n u (rows_outside t u db) h1 =
        Some (0, rows_outside u b (rows_outside t u db), h2)" "n < b" "b \<in> pr_timestamp ` set (rows_outside t u db)"
      using less.hyps [of "rows_outside t u db" u h1] less.prems time True u(1) by (auto simp: rows_outside_def)
    then have "b \<in> pr_timestamp ` set db"
      by (auto simp: rows_outside_def)
    moreover have "sint u \<le> sint b"
      using True b(2) u(1) nn \<open>b \<in> pr_timestamp ` set db\<close> by (auto simp: sint_le_iff)
    ultimately show ?thesis
      using b(1,2) u(2) by (auto simp: run rows_outside_merge)
  qed
qed

section \<open>The handler\<close>

lemma sorted_last: "sorted ys \<Longrightarrow> y \<in> set ys \<Longrightarrow> y \<le> last ys"
  by (induction ys) auto

lemma last_sort_key:
  assumes "x \<in> set xs"
  shows "f x \<le> f (last (sort_key f xs))"
proof -
  have "sort_key f xs \<noteq> []"
    using assms by (auto simp: sort_key_Nil_iff)
  then show ?thesis
    using sorted_last [of "map f (sort_key f xs)" "f x"] assms by (simp add: last_map)
qed

lemma first_row:
  assumes "r \<in> set db"
  obtains f fs where "sort_key row_time db = f # fs" "f \<in> set db" "\<forall>q \<in> set db. row_time f \<le> row_time q"
proof -
  obtain f fs where f: "sort_key row_time db = f # fs"
    using assms by (cases "sort_key row_time db") (auto simp: sort_key_Nil_iff)
  then have "sorted (map row_time (f # fs))" and db: "set (f # fs) = set db"
    using sorted_sort_key [of row_time db] set_sort [of row_time db] by (auto simp del: set_sort)
  then have "f \<in> set db" "\<forall>q \<in> set db. row_time f \<le> row_time q"
    unfolding db [symmetric] by auto
  then show thesis
    by (rule that [OF f])
qed

lemma last_row:
  assumes "length db \<le> 1024" "s \<in> set db" "sint lt < row_time s"
  obtains q where "last (lt # map pr_timestamp (rows_after lt (unat CLEANER_GROUP_INTERVAL) db)) = pr_timestamp q"
    "q \<in> set db" "sint lt < row_time q" "\<forall>r \<in> set db. row_time r \<le> row_time q"
proof -
  define later where "later = filter (\<lambda>q. sint lt < row_time q) db"
  have ne: "later \<noteq> []"
    using assms by (auto simp: later_def filter_empty_conv)
  define q where "q = last (sort_key row_time later)"
  have "length later \<le> 1024"
    unfolding later_def using assms(1) by (rule order_trans [OF length_filter_le])
  then have "rows_after lt (unat CLEANER_GROUP_INTERVAL) db = sort_key row_time later"
    by (simp add: rows_after_def CLEANER_GROUP_INTERVAL_def flip: later_def)
  moreover have q: "q \<in> set db" "sint lt < row_time q"
    using last_in_set [of "sort_key row_time later"] ne by (auto simp: q_def later_def sort_key_Nil_iff)
  moreover have "row_time r \<le> row_time q" if "r \<in> set db" for r
    using last_sort_key [of r later row_time] that q(2) by (cases "r \<in> set later") (auto simp: q_def later_def)
  ultimately show thesis
    using ne by (intro that [of q]) (auto simp: q_def last_map sort_key_Nil_iff)
qed

text \<open>The first run over a table with at most 1024 rows cleans up to the last timestamp.\<close>

lemma sum_store_first:
  assumes "sql_total env" "cl_next_timestamp c = 0" "length db \<le> 1024" "\<forall>r \<in> set db. 0 < row_time r"
    and "r \<in> set db" "s \<in> set db" "pr_timestamp r \<noteq> pr_timestamp s"
  shows "stuck (cl_next_timestamp (fst (sum_store env c db h))) (cl_low_timestamp (fst (sum_store env c db h))) db"
proof -
  obtain f fs where f: "sort_key row_time db = f # fs" "f \<in> set db" "\<forall>q \<in> set db. row_time f \<le> row_time q"
    using first_row [OF assms(5)] .
  define lt where "lt = pr_timestamp f"
  have lt: "lt \<noteq> 0" "sint lt = row_time f"
    using assms(4) f(2) by (auto simp: lt_def row_time_def)
  have "row_time r \<noteq> row_time s"
    using assms(7) by (auto simp: row_time_def dest: signed_word_eqI)
  then have "sint lt < row_time r \<or> sint lt < row_time s"
    using bspec [OF f(3) assms(5)] bspec [OF f(3) assms(6)] lt(2) by linarith
  then obtain q where q: "last (lt # map pr_timestamp (rows_after lt (unat CLEANER_GROUP_INTERVAL) db)) = pr_timestamp q"
      "q \<in> set db" "sint lt < row_time q" "\<forall>r \<in> set db. row_time r \<le> row_time q"
    using last_row [OF assms(3)] assms(5,6) by metis
  obtain h1 where b: "sql_bind_all env [(''@lt'', SqlInt (sint lt)), (''@lim'', SqlInt (uint CLEANER_GROUP_INTERVAL))]
      (E_sql_prepare PCAP_SUM_GROUP # E_sql_step # E_sql_prepare PCAP_SELECT_FIRST_ENTRY # h) = (True, h1)"
    using sql_bind_all_ok [OF assms(1)] by blast
  obtain acc h2 where "sum_rows env (rows_after lt (unat CLEANER_GROUP_INTERVAL) db) lt 0 h1 = (0, pr_timestamp q, acc, h2)"
    using sum_rows_ok [OF assms(1), of "rows_after lt (unat CLEANER_GROUP_INTERVAL) db" lt 0 h1] unfolding q(1) by blast
  moreover have "pr_timestamp q \<noteq> lt"
    using q(3) by (auto simp: row_time_def)
  ultimately have "cl_next_timestamp (fst (sum_store env c db h)) = pr_timestamp q \<and> cl_low_timestamp (fst (sum_store env c db h)) = lt"
    using assms(1,2) lt(1) b
    by (simp add: sum_store_def get_first_pcap_entry_def sum_pcap_group_def f(1) sql_total_def Let_def
      flip: lt_def del: sql_bind_all.simps)
  moreover have "pr_timestamp r \<le> pr_timestamp q" if "r \<in> set db" for r
    using bspec [OF q(4) that] bspec [OF assms(4) that] by (simp add: row_time_def flip: sint_le_iff)
  ultimately show ?thesis
    using f(2) by (simp add: stuck_def lt_def)
qed

text \<open>
  C18: the cleaner ends when the table has a row beyond the last timestamp to clean: the rows that
  are left are those outside a range that starts at the low timestamp and ends beyond the last one,
  and nothing else is changed.  The timestamps are below \<open>2^63\<close> and SQLite does not fail.
\<close>

theorem clean_capture_range:
  assumes "sql_total env" and "\<forall>r \<in> set db. 0 \<le> row_time r"
    and "0 \<le> sint (cl_next_timestamp c)" "0 \<le> sint (cl_low_timestamp c)" "cl_low_timestamp c \<le> cl_next_timestamp c"
    and "r \<in> set db" "cl_next_timestamp c < pr_timestamp r"
  shows "\<exists>b h'. clean_capture env c db h = Some (0, rows_outside (cl_low_timestamp c) b db, h') \<and>
    cl_next_timestamp c < b \<and> b \<in> pr_timestamp ` set db"
  unfolding clean_capture_def by (rule clean_loop_returns) (use assms in auto)

definition demo_rows :: pcap_db where
  "demo_rows = [\<lparr>pr_timestamp = 1, pr_name = ''a.pcap'', pr_caplen = 600000, pr_length = 600000\<rparr>,
                \<lparr>pr_timestamp = 2, pr_name = ''b.pcap'', pr_caplen = 600000, pr_length = 600000\<rparr>]"

definition demo_cleaner :: "u64 \<Rightarrow> u64 \<Rightarrow> cleaner_middleware_context" where
  "demo_cleaner low next_timestamp =
     \<lparr>cl_pcap_path = ''./db/capture'', cl_store_size = CLEANER_STORE_SIZE * 1024, cl_low_timestamp = low,
      cl_store_sum = 0, cl_next_timestamp = next_timestamp\<rparr>"

lemma ideal_sql: "sql_total ideal_env"
  by (simp add: sql_total_def ideal_env_def)

theorem clean_capture_range_witness:
  "\<exists>b h'. clean_capture ideal_env (demo_cleaner 1 1) demo_rows [] = Some (0, rows_outside 1 b demo_rows, h') \<and>
     1 < b \<and> b \<in> pr_timestamp ` set demo_rows"
  using clean_capture_range [of ideal_env demo_rows "demo_cleaner 1 1" "demo_rows ! 1" "[]"]
  by (simp add: ideal_sql demo_cleaner_def demo_rows_def row_time_def)



end
