(* ===== verification/Spec2Isabelle.thy ===== *)
theory Spec2Isabelle
  imports Radius_Sessions Crypt_Commands Mdns_Bridge Header_Store Pcap_Store
begin

text \<open>
  A verification development for EDGESec, the network access control daemon whose sources are under
  \<open>src/src\<close>.

  \<^bold>\<open>The program.\<close>  The daemon runs on a Wi-Fi router.  The access point (hostapd) asks its RADIUS server
  about every device that wants to join; the server asks the supervisor, which decides from its table of
  devices, its tickets and its settings, and answers with a VLAN and a passphrase.  An administrator
  changes the state of the supervisor with text commands on a socket: devices are accepted or denied,
  given a passphrase, bridged with each other, or given access to the Internet, which the firewall
  service turns into iptables rules.  The DHCP server reports addresses with the command SET_IP.  The mDNS
  service reflects multicast DNS between the VLANs and asks the supervisor to bridge devices that use an
  announced service.  The capture middlewares decode frames and store their headers and contents.  The
  crypt service keeps secrets in a database.

  \<^bold>\<open>The model.\<close>  Functions of the sources are HOL functions with the same names; structures are records.
  State is passed explicitly.  Every call that leaves the sources is an \<open>effect\<close> put on a history, and its
  outcome is a function of the history in the record \<open>env\<close>, so a theorem about all \<open>env\<close> holds for every
  behaviour of the allocator, the kernel, SQLite and the peers (\<open>Os_Env\<close>).  Undefined behaviour of C is
  recorded as the effect \<open>E_ub\<close> where it happens.  Machine integers have their width; texts are lists of
  characters without their NUL.  The build is the default one: iptables and dnsmasq, no UCI, no hardware
  security module.

  \<^bold>\<open>Theories\<close>, each with the files it models.
    \<^item> \<open>Edgesec_Prelude\<close>, \<open>Os_Env\<close>: words, bytes, the C library, the environment, and the interface
      \<open>alloc_queue\<close> of the queues on the heap.
    \<^item> \<open>Os_Utils\<close>, \<open>Net_Utils\<close>, \<open>Sockctl\<close>, \<open>Base64\<close>, \<open>String_Queue\<close>: the files of \<open>utils/\<close> with these names
      (\<open>os.c\<close>, \<open>net.c\<close>, \<open>sockctl.c\<close>, \<open>base64.c\<close>, \<open>squeue.c\<close> and \<open>hashmap.c\<close>).
    \<^item> \<open>Bridge_List\<close>, \<open>Iface_Mapper\<close>, \<open>Mac_Mapper\<close>: the tables of the supervisor.  The locales \<open>pair_store\<close> and
      \<open>keyed_store\<close> are their interfaces, interpreted on each table.
    \<^item> \<open>Iptables\<close>, \<open>Iptables_Chain\<close>, \<open>Firewall\<close>: the driver of the firewall, what its commands do to a chain
      of rules, and the service over it.
    \<^item> \<open>Dhcp\<close>, \<open>Ap_Service\<close>, \<open>Sqlite_Macconn\<close>: dnsmasq, hostapd and the table of devices in SQLite.
    \<^item> \<open>Supervisor_State\<close>, \<open>Network_Commands\<close>, \<open>System_Commands\<close>, \<open>Supervisor\<close>, \<open>Cmd_Processor\<close>: the files of
      \<open>supervisor/\<close>; \<open>Supervisor_Frame\<close>, \<open>Supervisor_Invariant\<close> and \<open>Supervisor_Safety\<close> prove what every
      command leaves alone, what invariant it keeps, and what follows for sequences of events.
    \<^item> \<open>Md5\<close>, \<open>Radius_Msg\<close>, \<open>Radius_Keys\<close>, \<open>Radius_Server\<close>: the files of \<open>radius/\<close>; \<open>Radius_Policy\<close> and
      \<open>Radius_Sessions\<close> prove what the access point is told and how the sessions evolve.
    \<^item> \<open>Crypt_Service\<close>, \<open>Crypt_Commands\<close>: \<open>crypt/\<close>, \<open>utils/cryptou.c\<close> and \<open>supervisor/crypt_commands.c\<close>.
    \<^item> \<open>Mdns_Decoder\<close>, \<open>Packet_Decoder\<close>, \<open>Header_Store\<close>: \<open>capture/middlewares/header_middleware\<close>.
    \<^item> \<open>Pcap_Store\<close>: \<open>capture/middlewares/pcap_middleware\<close> and \<open>cleaner_middleware\<close>.
    \<^item> \<open>Mdns_Service\<close>, \<open>Mdns_Bridge\<close>: \<open>dns/\<close>, and the service together with the supervisor.

  \<^bold>\<open>What is shown.\<close>
    \<^item> Admission: the decision on a device is that of a policy stated apart from the code, a denied device
      stays out until it is accepted again, a ticket decides one join, and the reply of the RADIUS server
      carries exactly the decision.  Requests that are not authentic change nothing.
    \<^item> Invariants of the supervisor and of the sessions of the RADIUS server over every sequence of events.
    \<^item> The bridge list implements a symmetric relation; the firewall denies by default and opens and closes
      exactly the bridges it is told to; a frame of an announced service leads to the bridge.
    \<^item> Formats: MD5 and HMAC are those of the RFCs; messages, keys, EAP fragments, Base64, stored values,
      saved devices and stored headers are read back as they were written; the records of a frame are a
      protocol stack.
    \<^item> Termination and failure: the decoder of names and the cleaner return under stated conditions and run forever
      under others; buffers are overrun or over-read exactly under stated conditions.

  \<^bold>\<open>Bounds.\<close>  No definition uses fuel.  Loops over data are structural or have a termination proof; the two
  loops that may not end, in the decoder of names and in the cleaner, are partial functions with the value
  None for a run without end.  The sizes are those of the sources: 1000 sessions, 1024 rows of a group,
  4096 bytes of a message.

  \<^bold>\<open>Assumptions.\<close>  OpenSSL, the text of IPv6 addresses and what the kernel reports to the mDNS service are
  parameters; the theorems that need more of them name it as a hypothesis (\<open>ssl_ok\<close>) and have a witness.
  Statements on success name \<open>alloc_total\<close> and \<open>sql_total\<close>: memory and SQLite do not fail.  The semantics of
  SQL is written out for the statements that the sources use.

  \<^bold>\<open>Not modelled.\<close>  Code that only calls the system: creation of sockets and multicast membership
  (\<open>dns/mcast.c\<close>), interfaces over netlink or ip (\<open>utils/nl.c\<close>, \<open>iface.c\<close>, \<open>ipgen.c\<close>), start and stop of
  processes and threads, the event loop itself, \<open>runctl.c\<close> and \<open>edgesec.c\<close>, logging.  Code over a library that
  defines its meaning: the configuration file (minIni), UCI (\<open>uci_wrt.c\<close>), libpcap handles, protobuf
  serialisation, generation of key pairs and certificates, the HSM drivers.  The tools \<open>edgesec-recap.c\<close> and
  \<open>sqlhook.c\<close>.  Functions that only free memory, except for the bridge list, where freeing is shown safe.
\<close>

end
